(* ===== verification/Prelude.thy ===== *)
theory Prelude
  imports Complex_Main "HOL-Library.Word"
begin

text \<open>
  Shared vocabulary of the development: names for Go's machine types, the collections
  of rewrite rules the component proofs draw on, totals over finite maps (used for the
  conservation of money) and small facts on options, sums and word-indexed maps.

  \<^item> \<open>int64\<close> is a 64-bit word; arithmetic wraps, \<open>sint\<close> is the signed reading Go
    compares and prints.
  \<^item> \<open>float64\<close> is the exact rational value of a finite binary64 number. Every float of the
    program comes out of a JSON document or a NUMERIC column, neither of which can carry
    an infinity or a NaN, and on finite numbers Go's comparisons compare these values.
  \<^item> \<open>gotime\<close> and \<open>duration\<close> are nanoseconds, as in package time.
\<close>

type_synonym int64 = "64 word"
type_synonym float64 = rat
type_synonym gotime = int
type_synonym duration = int

abbreviation second :: duration where
  "second \<equiv> 1000000000"

named_theorems go_defs \<open>definitions that translate Go functions\<close>
named_theorems sql_defs \<open>definitions that translate SQL statements\<close>
named_theorems frame_simps \<open>what an operation leaves unchanged\<close>

section \<open>Totals over finite maps\<close>

definition msum :: "('v \<Rightarrow> int) \<Rightarrow> ('k \<rightharpoonup> 'v) \<Rightarrow> int" where
  "msum f m = (\<Sum>k \<in> dom m. f (the (m k)))"

lemma msum_update:
  fixes m :: "('k::finite) \<rightharpoonup> 'v"
  assumes "m k = Some v"
  shows "msum f (m(k \<mapsto> v')) = msum f m - f v + f v'"
proof -
  have k: "k \<in> dom m" using assms by auto
  have "msum f (m(k \<mapsto> v')) = f v' + (\<Sum>j \<in> dom m - {k}. f (the ((m(k \<mapsto> v')) j)))"
    using k by (simp add: msum_def insert_absorb sum.remove)
  also have "(\<Sum>j \<in> dom m - {k}. f (the ((m(k \<mapsto> v')) j))) = (\<Sum>j \<in> dom m - {k}. f (the (m j)))"
    by (rule sum.cong) auto
  also have "\<dots> = msum f m - f v"
    using k assms by (simp add: msum_def sum.remove)
  finally show ?thesis by linarith
qed

lemma msum_insert:
  fixes m :: "('k::finite) \<rightharpoonup> 'v"
  assumes "m k = None"
  shows "msum f (m(k \<mapsto> v)) = msum f m + f v"
proof -
  have "k \<notin> dom m" using assms by auto
  then have "msum f (m(k \<mapsto> v)) = f v + (\<Sum>j \<in> dom m. f (the ((m(k \<mapsto> v)) j)))"
    by (simp add: msum_def)
  also have "(\<Sum>j \<in> dom m. f (the ((m(k \<mapsto> v)) j))) = (\<Sum>j \<in> dom m. f (the (m j)))"
    using assms by (intro sum.cong) auto
  also have "\<dots> = msum f m" by (simp add: msum_def)
  finally show ?thesis by linarith
qed

lemma msum_empty [simp]: "msum f Map.empty = 0"
  by (simp add: msum_def)

lemma msum_cong:
  assumes "dom m = dom m'" and "\<And>k v v'. m k = Some v \<Longrightarrow> m' k = Some v' \<Longrightarrow> f v = f v'"
  shows "msum f m = msum f m'"
proof -
  have "f (the (m k)) = f (the (m' k))" if "k \<in> dom m" for k
  proof -
    from that assms(1) have "k \<in> dom m'" by simp
    with that obtain v v' where "m k = Some v" "m' k = Some v'" by (auto simp: dom_def)
    with assms(2) show ?thesis by simp
  qed
  with assms(1) show ?thesis by (simp add: msum_def)
qed

section \<open>Options and sums\<close>

lemma option_map_eq_dom: "map_option f \<circ> m = map_option g \<circ> n \<Longrightarrow> dom m = dom n"
  by (metis dom_map_option_comp)

lemma Inr_split: "(case x of Inl e \<Rightarrow> f e | Inr y \<Rightarrow> g y) = z \<longleftrightarrow>
    (\<exists>e. x = Inl e \<and> f e = z) \<or> (\<exists>y. x = Inr y \<and> g y = z)"
  by (cases x) auto

section \<open>Words read as signed integers\<close>

lemma int64_sint_lt: "sint (w :: int64) < 2 ^ 63"
  using sint_lt [of w] by simp

lemma int64_sint_ge: "- (2 ^ 63) \<le> sint (w :: int64)"
  using sint_ge [of w] by simp

lemma int64_succ:
  assumes "sint (w :: int64) < 2 ^ 63 - 1"
  shows "sint (w + 1) = sint w + 1"
  using assms int64_sint_ge [of w] by (simp add: signed_eq_0_iff sint_word_ariths signed_take_bit_int_eq_self)

lemma int64_of_int:
  assumes "- (2 ^ 63) \<le> i" "i < 2 ^ 63"
  shows "sint (word_of_int i :: int64) = i"
  using assms by (simp add: sint_sbintrunc' signed_take_bit_int_eq_self)

end
