(* ===== verification/Strconv.thy ===== *)
theory Strconv
  imports Prelude
begin

text \<open>
  The part of Go's \<open>fmt\<close> and \<open>strconv\<close> the program uses on integers: the verbs
  \<open>%d\<close> and \<open>%022d\<close>, \<open>strconv.ParseInt(s, 10, 64)\<close> and
  \<open>strconv.ParseUint(s, 10, 64)\<close>. The callers test only whether parsing failed, so a
  parse error is \<open>None\<close>. The lemmas are the round trips and the injectivity the cache
  keys and the transaction identifiers rest on.
\<close>

section \<open>Decimal digits\<close>

definition digit :: "nat \<Rightarrow> char" where
  "digit d = char_of (48 + d)"

definition is_digit :: "char \<Rightarrow> bool" where
  "is_digit c \<longleftrightarrow> 48 \<le> (of_char c :: nat) \<and> (of_char c :: nat) \<le> 57"

definition digit_val :: "char \<Rightarrow> nat" where
  "digit_val c = of_char c - 48"

lemma digit_val_digit [simp]: "d < 10 \<Longrightarrow> digit_val (digit d) = d"
  by (simp add: digit_val_def digit_def of_char_of)

lemma is_digit_digit [simp]: "d < 10 \<Longrightarrow> is_digit (digit d)"
  by (simp add: is_digit_def digit_def of_char_of)

lemma digit_neq_minus [simp]: "is_digit c \<Longrightarrow> c \<noteq> CHR ''-''"
  by (auto simp: is_digit_def)

lemma digit_neq_plus [simp]: "is_digit c \<Longrightarrow> c \<noteq> CHR ''+''"
  by (auto simp: is_digit_def)

fun dec :: "nat \<Rightarrow> string" where
  "dec n = (if n < 10 then [digit n] else dec (n div 10) @ [digit (n mod 10)])"

declare dec.simps [simp del]

definition undec :: "string \<Rightarrow> nat" where
  "undec s = foldl (\<lambda>a c. 10 * a + digit_val c) 0 s"

lemma undec_snoc: "undec (s @ [c]) = 10 * undec s + digit_val c"
  by (simp add: undec_def)

lemma undec_zeros: "undec (replicate k (CHR ''0'') @ s) = undec s"
proof (induction k)
  case (Suc k)
  then show ?case by (simp add: undec_def digit_val_def)
qed simp

lemma undec_dec [simp]: "undec (dec n) = n"
proof (induction n rule: dec.induct)
  case (1 n)
  then show ?case
    by (cases "n < 10") (simp_all add: dec.simps [of n] undec_snoc, simp add: undec_def)
qed

lemma dec_inj [simp]: "dec m = dec n \<longleftrightarrow> m = n"
  by (metis undec_dec)

lemma dec_digits: "c \<in> set (dec n) \<Longrightarrow> is_digit c"
proof (induction n rule: dec.induct)
  case (1 n)
  then show ?case
    by (cases "n < 10") (auto simp: dec.simps [of n])
qed

lemma dec_not_Nil [simp]: "dec n \<noteq> []"
  by (simp add: dec.simps)

lemma hd_dec_digit: "is_digit (hd (dec n))"
  using dec_digits [of "hd (dec n)" n] by simp

lemma length_dec: "n < 10 ^ Suc w \<Longrightarrow> length (dec n) \<le> Suc w"
proof (induction w arbitrary: n)
  case 0
  then show ?case by (simp add: dec.simps)
next
  case (Suc w)
  then have "n div 10 < 10 ^ Suc w" by (simp add: less_mult_imp_div_less mult.commute)
  then have "length (dec (n div 10)) \<le> Suc w" by (rule Suc.IH)
  then show ?case by (simp add: dec.simps [of n])
qed

section \<open>The verbs \<open>%d\<close> and \<open>%0wd\<close>\<close>

definition fmt_d :: "int \<Rightarrow> string" where
  "fmt_d i = (if i < 0 then CHR ''-'' # dec (nat (- i)) else dec (nat i))"

definition pad0 :: "nat \<Rightarrow> string \<Rightarrow> string" where
  "pad0 w s = replicate (w - length s) (CHR ''0'') @ s"

text \<open>The zero padding of a negative number stands between its sign and its digits.\<close>

definition fmt_0d :: "nat \<Rightarrow> int \<Rightarrow> string" where
  "fmt_0d w i = (if i < 0 then CHR ''-'' # pad0 (w - 1) (dec (nat (- i))) else pad0 w (dec (nat i)))"

lemma undec_pad0 [simp]: "undec (pad0 w s) = undec s"
  by (simp add: pad0_def undec_zeros)

lemma length_pad0: "length s \<le> w \<Longrightarrow> length (pad0 w s) = w"
  by (simp add: pad0_def)

lemma hd_pad0_dec: "is_digit (hd (pad0 w (dec n)))"
proof (cases "w - length (dec n)")
  case 0
  then show ?thesis by (simp add: pad0_def hd_dec_digit)
next
  case (Suc j)
  then show ?thesis by (simp add: pad0_def is_digit_def)
qed

lemma minus_neq_pad0: "CHR ''-'' # s \<noteq> pad0 w (dec n)"
  using digit_neq_minus [OF hd_pad0_dec [of w n]] by (metis list.sel(1))

lemma minus_neq_dec: "CHR ''-'' # s \<noteq> dec n"
  using digit_neq_minus [OF hd_dec_digit [of n]] by (metis list.sel(1))

lemma fmt_d_inj [simp]: "fmt_d i = fmt_d j \<longleftrightarrow> i = j"
  using minus_neq_dec minus_neq_dec [symmetric] by (auto simp: fmt_d_def)

lemma fmt_0d_inj [simp]: "fmt_0d w i = fmt_0d w j \<longleftrightarrow> i = j"
proof
  assume eq: "fmt_0d w i = fmt_0d w j"
  have "i < 0 \<longleftrightarrow> j < 0"
    using eq minus_neq_pad0 minus_neq_pad0 [symmetric] by (auto simp: fmt_0d_def split: if_splits)
  moreover have "nat (- i) = nat (- j)" if "i < 0" "j < 0"
    using eq that by (auto simp: fmt_0d_def dest: arg_cong [where f = undec])
  moreover have "nat i = nat j" if "\<not> i < 0" "\<not> j < 0"
    using eq that by (auto simp: fmt_0d_def dest: arg_cong [where f = undec])
  ultimately show "i = j" by linarith
qed simp

lemma fmt_0d_length:
  assumes "nat \<bar>i\<bar> < 10 ^ Suc w"
  shows "length (fmt_0d (Suc (Suc w)) i) = Suc (Suc w)"
  using length_dec [OF assms] by (auto simp: fmt_0d_def length_pad0 abs_if split: if_splits)

section \<open>\<open>strconv.ParseUint\<close> and \<open>strconv.ParseInt\<close> in base 10\<close>

definition ParseUint :: "string \<Rightarrow> nat option" where
  "ParseUint s =
     (if s = [] \<or> \<not> list_all is_digit s then None
      else if undec s < 2 ^ 64 then Some (undec s) else None)"

definition ParseInt :: "string \<Rightarrow> int64 option" where
  "ParseInt s =
     (let neg = (s \<noteq> [] \<and> hd s = CHR ''-'');
          s' = (if s \<noteq> [] \<and> (hd s = CHR ''-'' \<or> hd s = CHR ''+'') then tl s else s)
      in case ParseUint s' of
           None \<Rightarrow> None
         | Some un \<Rightarrow>
             if \<not> neg \<and> un \<ge> 2 ^ 63 then None
             else if neg \<and> un > 2 ^ 63 then None
             else Some (word_of_int (if neg then - int un else int un)))"

lemma ParseUint_dec: "n < 2 ^ 64 \<Longrightarrow> ParseUint (dec n) = Some n"
  using dec_digits [of _ n] by (simp add: ParseUint_def list_all_iff)

lemma ParseUint_bound: "ParseUint s = Some n \<Longrightarrow> n < 2 ^ 64"
  by (auto simp: ParseUint_def split: if_splits)

lemma ParseInt_fmt_d: "ParseInt (fmt_d (sint (i :: int64))) = Some i"
proof (cases "sint i < 0")
  case True
  have le: "nat (- sint i) \<le> 2 ^ 63" using int64_sint_ge [of i] True by simp
  then have "ParseUint (dec (nat (- sint i))) = Some (nat (- sint i))"
    by (intro ParseUint_dec) simp
  with True le show ?thesis by (simp add: ParseInt_def fmt_d_def)
next
  case False
  have lt: "nat (sint i) < 2 ^ 63" using int64_sint_lt [of i] False by (simp add: nat_less_iff)
  then have p: "ParseUint (dec (nat (sint i))) = Some (nat (sint i))"
    by (intro ParseUint_dec) simp
  have "hd (dec (nat (sint i))) \<noteq> CHR ''-''" "hd (dec (nat (sint i))) \<noteq> CHR ''+''"
    using hd_dec_digit digit_neq_minus digit_neq_plus by blast+
  with False lt p show ?thesis by (simp add: ParseInt_def fmt_d_def)
qed

end
