(* ===== verification/Numbers.thy ===== *)
theory Numbers
  imports Prelude
begin

text \<open>
  The two number representations money passes through. A column of type
  \<open>NUMERIC(18,2)\<close> (\<open>migrations/\<close>) holds a whole number of cents of at most eighteen
  decimal digits: an assignment rounds to two decimals, ties away from zero, and fails
  when the result has more digits. \<open>Scan(&balance)\<close> turns such a value into a
  \<open>float64\<close>: the nearest binary64 number, ties to even.
\<close>

section \<open>\<open>NUMERIC(18,2)\<close>\<close>

type_synonym cents = int

definition numeric_18_2 :: "rat \<Rightarrow> cents option" where
  "numeric_18_2 r =
     (let c = (if r < 0 then - \<lfloor>- r * 100 + 1 / 2\<rfloor> else \<lfloor>r * 100 + 1 / 2\<rfloor>)
      in if \<bar>c\<bar> < 10 ^ 18 then Some c else None)"

definition numeric_val :: "cents \<Rightarrow> rat" where
  "numeric_val c = of_int c / 100"

lemma floor_half: "\<lfloor>(of_int c :: rat) + 1 / 2\<rfloor> = c"
  by (rule floor_unique) simp_all

lemma numeric_18_2_whole: "numeric_18_2 (numeric_val c) = (if \<bar>c\<bar> < 10 ^ 18 then Some c else None)"
proof -
  have "\<lfloor>of_int c / 100 * 100 + (1 :: rat) / 2\<rfloor> = c" using floor_half [of c] by simp
  moreover have "\<lfloor>- (of_int c / 100) * 100 + (1 :: rat) / 2\<rfloor> = - c" using floor_half [of "- c"] by simp
  ultimately show ?thesis by (simp add: numeric_18_2_def numeric_val_def)
qed

lemma numeric_18_2_bound: "numeric_18_2 r = Some c \<Longrightarrow> \<bar>c\<bar> < 10 ^ 18"
  by (auto simp: numeric_18_2_def Let_def split: if_splits)

lemma numeric_val_add: "numeric_val a + numeric_val b = numeric_val (a + b)"
  by (simp add: numeric_val_def add_divide_distrib)

lemma numeric_val_diff: "numeric_val a - numeric_val b = numeric_val (a - b)"
  by (simp add: numeric_val_def diff_divide_distrib)

section \<open>Nearest binary64\<close>

text \<open>The number of binary digits of a natural number.\<close>

fun bits :: "nat \<Rightarrow> nat" where
  "bits n = (if n = 0 then 0 else Suc (bits (n div 2)))"

declare bits.simps [simp del]

text \<open>The quotient \<open>p / q\<close> rounded to the nearest integer, ties to even.\<close>

definition round_even :: "nat \<Rightarrow> nat \<Rightarrow> nat" where
  "round_even p q =
     (let d = p div q; r = p mod q
      in if 2 * r < q \<or> (2 * r = q \<and> even d) then d else Suc d)"

text \<open>
  The binary64 number nearest to \<open>c\<close> cents. Its significand has 53 bits; the unit in the
  last place is \<open>2 ^ k / 2 ^ 59\<close> for the least \<open>k\<close> with \<open>c / 100 < 2 ^ 53 * 2 ^ k / 2 ^ 59\<close>,
  that is \<open>c * 64 < 100 * 2 ^ k\<close>. One cent has unit \<open>2 ^ -59\<close>, so \<open>k\<close> never needs to be
  negative, and no column value is subnormal or overflows.
\<close>

definition ulp_shift :: "nat \<Rightarrow> nat" where
  "ulp_shift c = bits (c * 64 div 100)"

definition float_of_nat_cents :: "nat \<Rightarrow> float64" where
  "float_of_nat_cents c =
     (let k = ulp_shift c in of_nat (round_even (c * 2 ^ 59) (100 * 2 ^ k)) * 2 ^ k / 2 ^ 59)"

definition scan_float :: "cents \<Rightarrow> float64" where
  "scan_float c = (if c < 0 then - float_of_nat_cents (nat (- c)) else float_of_nat_cents (nat c))"

lemma bits_le: "bits n \<le> k \<longleftrightarrow> n < 2 ^ k"
proof (induction n arbitrary: k rule: bits.induct)
  case (1 n)
  show ?case
  proof (cases k)
    case 0
    then show ?thesis by (simp add: bits.simps [of n])
  next
    case (Suc j)
    have "n div 2 < 2 ^ j \<longleftrightarrow> n < 2 ^ Suc j" by (simp add: div_less_iff_less_mult mult.commute)
    with 1 Suc show ?thesis by (cases "n = 0") (auto simp: bits.simps [of n] bits.simps [of 0])
  qed
qed

lemma bits_mono: "m \<le> n \<Longrightarrow> bits m \<le> bits n"
  by (meson bits_le le_less_trans order_refl)

lemma ulp_shift_le: "ulp_shift c \<le> k \<longleftrightarrow> c * 64 < 100 * 2 ^ k"
  by (simp add: ulp_shift_def bits_le div_less_iff_less_mult mult.commute)

lemma round_even_le: "0 < q \<Longrightarrow> p \<le> N * q \<Longrightarrow> round_even p q \<le> N"
proof -
  assume q: "0 < q" and p: "p \<le> N * q"
  have "p div q \<le> N" using p q by (metis div_le_mono nonzero_mult_div_cancel_right not_gr_zero)
  moreover have "p div q < N" if "p mod q \<noteq> 0"
  proof (rule ccontr)
    assume "\<not> p div q < N"
    then have "N * q \<le> p div q * q" by simp
    then have "N * q + p mod q \<le> p" by (metis add_le_mono1 div_mult_mod_eq)
    with p that show False by simp
  qed
  ultimately show ?thesis using q by (auto simp: round_even_def Let_def)
qed

lemma round_even_ge: "0 < q \<Longrightarrow> N * q \<le> p \<Longrightarrow> N \<le> round_even p q"
  by (auto simp: round_even_def Let_def less_eq_div_iff_mult_less_eq le_SucI)

lemma round_even_mono: "0 < q \<Longrightarrow> p \<le> p' \<Longrightarrow> round_even p q \<le> round_even p' q"
proof -
  assume q: "0 < q" and le: "p \<le> p'"
  have d: "p div q \<le> p' div q" using le by (rule div_le_mono)
  have r: "p mod q \<le> p' mod q" if "p div q = p' div q"
    using le that by (metis add_le_cancel_left mult_div_mod_eq)
  show ?thesis
  proof (cases "p div q = p' div q")
    case True
    with r show ?thesis by (auto simp: round_even_def Let_def)
  next
    case False
    with d have "Suc (p div q) \<le> p' div q" by simp
    then show ?thesis by (auto simp: round_even_def Let_def)
  qed
qed

lemma round_even_error:
  assumes "0 < q"
  shows "2 * \<bar>int (round_even p q) * int q - int p\<bar> \<le> int q"
proof -
  define d where "d = p div q"
  define r where "r = p mod q"
  have p: "int p = int d * int q + int r"
    unfolding d_def r_def by (metis div_mult_mod_eq of_nat_add of_nat_mult)
  have "r < q" using assms by (simp add: r_def)
  then have "int d * int q - int p = - int r" "int (Suc d) * int q - int p = int q - int r"
    using p by (simp_all add: algebra_simps)
  with \<open>r < q\<close> show ?thesis
    by (auto simp: round_even_def Let_def simp flip: d_def r_def)
qed

section \<open>The balance check on floats against the check on cents\<close>

lemma ulp_shift_mono: "c \<le> c' \<Longrightarrow> ulp_shift c \<le> ulp_shift c'"
  unfolding ulp_shift_def by (intro bits_mono div_le_mono mult_le_mono1)

lemma float_nat_upper:
  "float_of_nat_cents c \<le> 2 ^ 53 * 2 ^ ulp_shift c / 2 ^ 59"
proof -
  let ?k = "ulp_shift c"
  have "c * 64 < 100 * 2 ^ ?k" using ulp_shift_le [of c ?k] by simp
  then have "c * 64 * 2 ^ 53 \<le> 100 * 2 ^ ?k * 2 ^ 53" by (intro mult_le_mono1) simp
  then have "c * 2 ^ 59 \<le> 2 ^ 53 * (100 * 2 ^ ?k)" by (simp add: algebra_simps)
  then have "round_even (c * 2 ^ 59) (100 * 2 ^ ?k) \<le> 2 ^ 53" by (intro round_even_le) simp_all
  then have "(of_nat (round_even (c * 2 ^ 59) (100 * 2 ^ ?k)) :: rat) \<le> of_nat (2 ^ 53)"
    by (simp only: of_nat_le_iff)
  then have "of_nat (round_even (c * 2 ^ 59) (100 * 2 ^ ?k)) * 2 ^ ?k \<le> (2 ^ 53 * 2 ^ ?k :: rat)"
    by (intro mult_right_mono) simp_all
  then show ?thesis by (simp add: float_of_nat_cents_def Let_def divide_right_mono)
qed

lemma float_nat_lower:
  assumes "0 < ulp_shift c"
  shows "2 ^ 52 * 2 ^ ulp_shift c / 2 ^ 59 \<le> float_of_nat_cents c"
proof -
  let ?k = "ulp_shift c"
  from assms obtain j where k: "?k = Suc j" using gr0_conv_Suc by blast
  have "\<not> c * 64 < 100 * 2 ^ j" using ulp_shift_le [of c j] k by simp
  then have "100 * 2 ^ j * 2 ^ 53 \<le> c * 64 * 2 ^ 53" by (intro mult_le_mono1) simp
  then have "2 ^ 52 * (100 * 2 ^ ?k) \<le> c * 2 ^ 59" by (simp add: k algebra_simps)
  then have "2 ^ 52 \<le> round_even (c * 2 ^ 59) (100 * 2 ^ ?k)" by (intro round_even_ge) simp_all
  then have "(of_nat (2 ^ 52) :: rat) \<le> of_nat (round_even (c * 2 ^ 59) (100 * 2 ^ ?k))"
    by (simp only: of_nat_le_iff)
  then have "(2 ^ 52 * 2 ^ ?k :: rat) \<le> of_nat (round_even (c * 2 ^ 59) (100 * 2 ^ ?k)) * 2 ^ ?k"
    by (intro mult_right_mono) simp_all
  then show ?thesis by (simp add: float_of_nat_cents_def Let_def divide_right_mono)
qed

lemma float_nat_same_ulp:
  assumes "ulp_shift c = ulp_shift c'"
  shows "float_of_nat_cents c < float_of_nat_cents c' \<longleftrightarrow>
    round_even (c * 2 ^ 59) (100 * 2 ^ ulp_shift c') < round_even (c' * 2 ^ 59) (100 * 2 ^ ulp_shift c')"
proof -
  have "(0 :: rat) < 2 ^ ulp_shift c' / 2 ^ 59" by simp
  then have "of_nat m * (2 ^ ulp_shift c' / 2 ^ 59) < of_nat n * (2 ^ ulp_shift c' / 2 ^ 59 :: rat) \<longleftrightarrow> m < n" for m n :: nat
    by (simp only: mult_less_cancel_right_pos of_nat_less_iff)
  then show ?thesis using assms by (simp add: float_of_nat_cents_def Let_def)
qed

lemma float_nat_other_ulp:
  assumes "ulp_shift c < ulp_shift c'"
  shows "float_of_nat_cents c \<le> 2 ^ 52 * 2 ^ ulp_shift c' / 2 ^ 59"
proof -
  have "(2 :: rat) ^ Suc (ulp_shift c) \<le> 2 ^ ulp_shift c'"
    using assms by (intro power_increasing) simp_all
  then have "(2 ^ 53 * 2 ^ ulp_shift c :: rat) \<le> 2 ^ 52 * 2 ^ ulp_shift c'" by simp
  then have "(2 ^ 53 * 2 ^ ulp_shift c / 2 ^ 59 :: rat) \<le> 2 ^ 52 * 2 ^ ulp_shift c' / 2 ^ 59"
    by (rule divide_right_mono) simp
  with float_nat_upper [of c] show ?thesis by linarith
qed

lemma float_nat_mono: "c \<le> c' \<Longrightarrow> float_of_nat_cents c \<le> float_of_nat_cents c'"
proof -
  assume le: "c \<le> c'"
  consider "ulp_shift c = ulp_shift c'" | "ulp_shift c < ulp_shift c'"
    using ulp_shift_mono [OF le] by linarith
  then show ?thesis
  proof cases
    case 1
    have "round_even (c * 2 ^ 59) (100 * 2 ^ ulp_shift c') \<le> round_even (c' * 2 ^ 59) (100 * 2 ^ ulp_shift c')"
      using le by (intro round_even_mono) simp_all
    then show ?thesis using float_nat_same_ulp [of c' c] 1 by (simp add: not_less [symmetric])
  next
    case 2
    then have "2 ^ 52 * 2 ^ ulp_shift c' / 2 ^ 59 \<le> float_of_nat_cents c'"
      by (intro float_nat_lower) simp
    with float_nat_other_ulp [OF 2] show ?thesis by linarith
  qed
qed

text \<open>
  Up to \<open>2 ^ 46\<close> currency units the unit in the last place is below one cent, and two
  different amounts of cents are two different floats.
\<close>

definition exact_cents :: cents where
  "exact_cents = 100 * 2 ^ 46"

lemma float_nat_error: "\<bar>float_of_nat_cents c - of_nat c / 100\<bar> \<le> 2 ^ ulp_shift c / 2 ^ 60"
proof -
  let ?k = "ulp_shift c"
  let ?m = "round_even (c * 2 ^ 59) (100 * 2 ^ ?k)"
  have "2 * \<bar>int ?m * int (100 * 2 ^ ?k) - int (c * 2 ^ 59)\<bar> \<le> int (100 * 2 ^ ?k)"
    by (rule round_even_error) simp
  then have "(of_int (2 * \<bar>int ?m * int (100 * 2 ^ ?k) - int (c * 2 ^ 59)\<bar>) :: rat) \<le> of_int (int (100 * 2 ^ ?k))"
    by (simp only: of_int_le_iff)
  then have "2 * \<bar>of_nat ?m * (100 * 2 ^ ?k) - of_nat c * 2 ^ 59\<bar> \<le> (100 * 2 ^ ?k :: rat)"
    by simp
  then have le: "\<bar>of_nat ?m * (100 * 2 ^ ?k) - of_nat c * 2 ^ 59\<bar> / (100 * 2 ^ 59) \<le> (2 ^ ?k / 2 ^ 60 :: rat)"
    by simp
  have abs: "\<bar>of_nat ?m * (100 * 2 ^ ?k) - of_nat c * 2 ^ 59\<bar> / (100 * 2 ^ 59)
      = \<bar>(of_nat ?m * (100 * 2 ^ ?k) - of_nat c * 2 ^ 59) / (100 * 2 ^ 59 :: rat)\<bar>"
    by (simp only: abs_divide) simp
  have eq: "(of_nat ?m * (100 * 2 ^ ?k) - of_nat c * 2 ^ 59) / (100 * 2 ^ 59 :: rat)
      = float_of_nat_cents c - of_nat c / 100"
    by (simp add: float_of_nat_cents_def Let_def field_simps)
  show ?thesis using le by (simp only: abs eq)
qed

lemma float_nat_strict:
  assumes "c < c'" and "int c' < exact_cents"
  shows "float_of_nat_cents c < float_of_nat_cents c'"
proof -
  have "c' < 100 * 2 ^ 46" using assms(2) by (simp add: exact_cents_def)
  then have k': "ulp_shift c' \<le> 52" by (simp add: ulp_shift_le)
  moreover have "ulp_shift c \<le> ulp_shift c'" using assms(1) by (intro ulp_shift_mono) simp
  ultimately have k: "ulp_shift c \<le> 52" by simp
  have ulp: "(2 :: rat) ^ j / 2 ^ 60 \<le> 2 ^ 52 / 2 ^ 60" if "j \<le> 52" for j :: nat
    using that by (intro divide_right_mono power_increasing) simp_all
  have "(of_nat (c + 1) :: rat) \<le> of_nat c'" using assms(1) by (simp only: of_nat_le_iff)
  then have "(of_nat c / 100 :: rat) + 1 / 100 \<le> of_nat c' / 100" by simp
  moreover have "(2 ^ 52 / 2 ^ 60 :: rat) + 2 ^ 52 / 2 ^ 60 < 1 / 100" by simp
  ultimately show ?thesis
    using float_nat_error [of c] float_nat_error [of c'] ulp [OF k] ulp [OF k'] by linarith
qed

lemma float_nat_nonneg: "0 \<le> float_of_nat_cents c"
  by (simp add: float_of_nat_cents_def Let_def)

lemma float_nat_pos: "0 < c \<Longrightarrow> 0 < float_of_nat_cents c"
  using float_nat_strict [of 0 1] float_nat_mono [of 1 c] float_nat_nonneg [of 0]
  by (simp add: exact_cents_def)

lemma scan_float_pos: "0 < c \<Longrightarrow> 0 < scan_float c"
  by (simp add: scan_float_def float_nat_pos)

text \<open>A balance that covers the amount passes the check: no payment is refused wrongly.\<close>

lemma scan_float_mono: "0 \<le> c' \<Longrightarrow> c \<le> c' \<Longrightarrow> scan_float c \<le> scan_float c'"
  using float_nat_mono [of "nat c" "nat c'"] float_nat_nonneg [of "nat (- c)"]
    float_nat_nonneg [of "nat c'"]
  by (auto simp: scan_float_def)

text \<open>Below the exact range a balance that does not cover the amount fails it.\<close>

lemma scan_float_strict: "0 < c' \<Longrightarrow> c < c' \<Longrightarrow> c' < exact_cents \<Longrightarrow> scan_float c < scan_float c'"
  using float_nat_strict [of "nat c" "nat c'"] float_nat_nonneg [of "nat (- c)"]
    float_nat_pos [of "nat c'"]
  by (auto simp: scan_float_def)

lemmas scan_float_check = scan_float_mono scan_float_strict

text \<open>Evaluation on numerals.\<close>

lemmas scan_eval = scan_float_def float_of_nat_cents_def ulp_shift_def bits.simps round_even_def

section \<open>Rounded float arithmetic\<close>

text \<open>
  The result of one float operation or conversion: the exact rational rounded to 53
  significant bits, ties to even. The exponent is not bounded, so this is Go's result for
  values that are neither subnormal nor beyond the largest binary64.
\<close>

definition fl64 :: "rat \<Rightarrow> float64" where
  "fl64 x =
     (let (p, q) = quotient_of \<bar>x\<bar>;
          n = bits (nat q) + 53;
          k = bits (nat p * 2 ^ n div nat q) - 53;
          m = of_nat (round_even (nat p * 2 ^ n) (nat q * 2 ^ k)) * 2 ^ k / 2 ^ n
      in if x < 0 then - m else m)"

lemma fl64_nonneg: "0 \<le> x \<Longrightarrow> 0 \<le> fl64 x"
  by (simp add: fl64_def Let_def split: prod.splits)

lemma fl64_nonpos: "x < 0 \<Longrightarrow> fl64 x \<le> 0"
  by (simp add: fl64_def Let_def split: prod.splits)

text \<open>The rounding error is at most half a unit in the last place.\<close>

lemma bits_lower: "0 < n \<Longrightarrow> 2 ^ (bits n - 1) \<le> n"
proof -
  assume "0 < n"
  then have "0 < bits n" by (simp add: bits.simps [of n])
  then have "\<not> bits n \<le> bits n - 1" by simp
  then show ?thesis by (simp add: bits_le)
qed

lemma round_even_error_rat:
  assumes "0 < q"
  shows "\<bar>(of_nat (round_even p q) :: rat) * of_nat q - of_nat p\<bar> \<le> of_nat q / 2"
proof -
  have "(of_int (2 * \<bar>int (round_even p q) * int q - int p\<bar>) :: rat) \<le> of_int (int q)"
    using round_even_error [OF assms, of p] by (simp only: of_int_le_iff)
  then show ?thesis by simp
qed

lemma fl64_error: "\<bar>fl64 x - x\<bar> \<le> \<bar>x\<bar> / 2 ^ 53"
proof (cases "x = 0")
  case True
  then show ?thesis by (simp add: fl64_def round_even_def bits.simps [of 0])
next
  case False
  obtain P Q where pq: "quotient_of \<bar>x\<bar> = (P, Q)" by (cases "quotient_of \<bar>x\<bar>")
  define p where "p = nat P"
  define q where "q = nat Q"
  have Q: "0 < Q" using quotient_of_denom_pos [OF pq] .
  have x: "\<bar>x\<bar> = of_int P / of_int Q" using quotient_of_div [OF pq] .
  with False Q have "0 < P" by (metis abs_le_zero_iff divide_nonpos_pos linorder_not_less of_int_0_less_iff of_int_le_0_iff)
  then have pos: "0 < p" "0 < q" and xq: "\<bar>x\<bar> = of_nat p / of_nat q"
    using Q x by (simp_all add: p_def q_def of_nat_nat)
  define n where "n = bits q + 53"
  define I where "I = p * 2 ^ n div q"
  define k where "k = bits I - 53"
  define R where "R = round_even (p * 2 ^ n) (q * 2 ^ k)"
  have "q < 2 ^ bits q" using bits_le [of q "bits q"] by simp
  then have "2 ^ 53 * q \<le> 2 ^ 53 * 2 ^ bits q" by simp
  also have "\<dots> \<le> p * 2 ^ n" using pos(1) by (simp add: n_def power_add mult.commute)
  finally have "2 ^ 53 \<le> I" using pos(2) by (simp add: I_def less_eq_div_iff_mult_less_eq)
  then have "0 < I" "\<not> bits I \<le> 53" by (simp_all add: bits_le)
  then have "2 ^ (k + 52) \<le> I" using bits_lower [of I] by (simp add: k_def)
  then have "2 ^ (k + 52) * q \<le> I * q" by simp
  also have "\<dots> \<le> p * 2 ^ n" by (simp add: I_def)
  finally have "(of_nat (2 ^ (k + 52) * q) :: rat) \<le> of_nat (p * 2 ^ n)" by (simp only: of_nat_le_iff)
  then have low: "(2 :: rat) ^ k * 2 ^ 52 * of_nat q \<le> of_nat p * 2 ^ n" by (simp add: power_add)
  have err: "\<bar>(of_nat R :: rat) * (of_nat q * 2 ^ k) - of_nat p * 2 ^ n\<bar> \<le> of_nat q * 2 ^ k / 2"
    using round_even_error_rat [of "q * 2 ^ k" "p * 2 ^ n"] pos by (simp add: R_def)
  have "of_nat R * 2 ^ k / 2 ^ n - \<bar>x\<bar>
      = ((of_nat R :: rat) * (of_nat q * 2 ^ k) - of_nat p * 2 ^ n) / (of_nat q * 2 ^ n)"
    using pos(2) by (simp add: xq field_simps)
  then have "\<bar>of_nat R * 2 ^ k / 2 ^ n - \<bar>x\<bar>\<bar>
      = \<bar>(of_nat R :: rat) * (of_nat q * 2 ^ k) - of_nat p * 2 ^ n\<bar> / (of_nat q * 2 ^ n)"
    by simp
  also have "\<dots> \<le> (of_nat q * 2 ^ k / 2) / (of_nat q * 2 ^ n)"
    by (rule divide_right_mono [OF err]) simp
  also have "\<dots> \<le> \<bar>x\<bar> / 2 ^ 53"
    using low pos(2) by (simp add: xq field_simps)
  finally have "\<bar>of_nat R * 2 ^ k / 2 ^ n - \<bar>x\<bar>\<bar> \<le> \<bar>x\<bar> / 2 ^ 53" .
  moreover have "fl64 x = (if x < 0 then - (of_nat R * 2 ^ k / 2 ^ n) else of_nat R * 2 ^ k / 2 ^ n)"
    by (simp add: fl64_def pq Let_def p_def q_def n_def I_def k_def R_def)
  ultimately show ?thesis by (simp add: abs_if split: if_splits)
qed

end
