(* ===== verification/Domain.thy ===== *)
theory Domain
  imports Strconv Numbers
begin

text \<open>
  The data the components exchange: \<open>internal/domain\<close> (accounts, transactions, statuses),
  the request body of \<open>internal/handler/request\<close>, the service input and the queue message
  of \<open>internal/service/transaction.go\<close>, Go errors with wrapping, and the JSON documents
  that cross the cache and the queue.
\<close>

section \<open>Accounts and transactions\<close>

record Account =
  acc_ID :: int64
  acc_Name :: string
  acc_Balance :: float64
  acc_UpdatedAt :: gotime

type_synonym Status = string

definition StatusPending :: Status where
  "StatusPending = ''pending''"

definition StatusCompleted :: Status where
  "StatusCompleted = ''completed''"

definition StatusFailed :: Status where
  "StatusFailed = ''failed''"

lemma status_distinct [simp]:
  "StatusPending \<noteq> StatusCompleted" "StatusPending \<noteq> StatusFailed" "StatusCompleted \<noteq> StatusFailed"
  "StatusCompleted \<noteq> StatusPending" "StatusFailed \<noteq> StatusPending" "StatusFailed \<noteq> StatusCompleted"
  by (simp_all add: StatusPending_def StatusCompleted_def StatusFailed_def)

record Transaction =
  tx_ID :: string
  tx_SourceAccount :: int64
  tx_DestAccount :: int64
  tx_Amount :: float64
  tx_Status :: Status
  tx_CreatedAt :: gotime
  tx_UpdatedAt :: gotime

text \<open>The zero value of \<open>time.Time\<close> is the first of January of year 1.\<close>

definition zero_time :: gotime where
  "zero_time = - 62135596800 * second"

record CreateTransactionReq =
  req_SourceAccount :: int64
  req_DestAccount :: int64
  req_Amount :: float64

record CreateTransactionInput =
  in_SourceAccount :: int64
  in_DestAccount :: int64
  in_Amount :: float64

record TxMessage =
  msg_TXID :: string
  msg_SourceAccount :: int64
  msg_DestAccount :: int64
  msg_Amount :: float64

section \<open>Errors\<close>

text \<open>
  The sentinels of the service, \<open>sql.ErrNoRows\<close>, an error built from a format without
  \<open>%w\<close>, one that wraps another, the worker's text with its two \<open>%.2f\<close> verbs, and an error
  that a library or a server returned.
\<close>

datatype err =
    ErrInsufficientFunds
  | ErrAccountNotFound
  | ErrNoRows
  | ErrText string
  | ErrWrap string err
  | ErrShortFunds float64 float64
  | ErrExt string

fun errors_Is :: "err \<Rightarrow> err \<Rightarrow> bool" where
  "errors_Is (ErrWrap s e) t = (ErrWrap s e = t \<or> errors_Is e t)"
| "errors_Is e t = (e = t)"

definition fmt_2f :: "float64 \<Rightarrow> string" where
  "fmt_2f x =
     (let (p, q) = quotient_of \<bar>x\<bar>; m = round_even (nat p * 100) (nat q)
      in (if x < 0 then ''-'' else '''') @ dec (m div 100) @ ''.'' @ pad0 2 (dec (m mod 100)))"

fun Error :: "err \<Rightarrow> string" where
  "Error ErrInsufficientFunds = ''insufficient funds''"
| "Error ErrAccountNotFound = ''account not found''"
| "Error ErrNoRows = ''sql: no rows in result set''"
| "Error (ErrText s) = s"
| "Error (ErrWrap s e) = s @ '': '' @ Error e"
| "Error (ErrShortFunds b a) =
     ''insufficient funds: balance '' @ fmt_2f b @ '' < amount '' @ fmt_2f a"
| "Error (ErrExt s) = s"

section \<open>JSON documents\<close>

text \<open>
  A document is its syntax tree; a byte string that is not JSON is \<open>None\<close>. A number literal
  without fraction and exponent is \<open>JInt\<close>, any other \<open>JDec\<close>, each standing for the number
  it denotes when read at its field's type; \<open>JTime\<close> is a string literal whose text is an
  RFC 3339 time, with the instant it denotes: it decodes into a string as into a time. A float
  prints as an integer literal when it is whole and below \<open>10 ^ 21\<close>.
\<close>

datatype json =
    JNull
  | JBool bool
  | JInt int
  | JDec rat
  | JStr string
  | JTime string gotime
  | JArr "json list"
  | JObj "(string \<times> json) list"

type_synonym bytes = "json option"

definition json_float :: "float64 \<Rightarrow> json" where
  "json_float x = (if of_int \<lfloor>x\<rfloor> = x \<and> \<bar>x\<bar> < 10 ^ 21 then JInt \<lfloor>x\<rfloor> else JDec x)"

text \<open>
  The text of a time: the civil date of a number of days since 1970, and \<open>RFC3339Nano\<close> in UTC, whose
  fraction has no trailing zeros.
\<close>

definition civil_date :: "int \<Rightarrow> int \<times> int \<times> int" where
  "civil_date days =
     (let z = days + 719468; era = z div 146097; doe = z mod 146097;
          yoe = (doe - doe div 1460 + doe div 36524 - doe div 146096) div 365;
          doy = doe - (365 * yoe + yoe div 4 - yoe div 100);
          mp = (5 * doy + 2) div 153;
          m = (if mp < 10 then mp + 3 else mp - 9);
          y = yoe + era * 400 + (if m \<le> 2 then 1 else 0)
      in (y, m, doy - (153 * mp + 2) div 5 + 1))"

definition pad_int :: "nat \<Rightarrow> int \<Rightarrow> string" where
  "pad_int n i = pad0 n (dec (nat i))"

definition rfc3339 :: "gotime \<Rightarrow> string" where
  "rfc3339 t =
     (let s = t div second; ns = t mod second; (y, m, d) = civil_date (s div 86400); r = s mod 86400;
          frac = rev (dropWhile (\<lambda>c. c = CHR ''0'') (rev (pad_int 9 ns)))
      in pad_int 4 y @ ''-'' @ pad_int 2 m @ ''-'' @ pad_int 2 d @ ''T'' @
         pad_int 2 (r div 3600) @ '':'' @ pad_int 2 (r mod 3600 div 60) @ '':'' @ pad_int 2 (r mod 60) @
         (if frac = [] then [] else CHR ''.'' # frac) @ ''Z'')"

text \<open>\<open>time.Time.MarshalJSON\<close> fails outside the years 0 to 9999.\<close>

definition json_time :: "gotime \<Rightarrow> json option" where
  "json_time t = (if - 62167219200 * second \<le> t \<and> t < 253402300800 * second then Some (JTime (rfc3339 t) t) else None)"

definition dec_int64 :: "json \<Rightarrow> int64 option" where
  "dec_int64 j = (case j of JInt i \<Rightarrow> if - (2 ^ 63) \<le> i \<and> i < 2 ^ 63 then Some (word_of_int i) else None
     | _ \<Rightarrow> None)"

definition dec_float64 :: "json \<Rightarrow> float64 option" where
  "dec_float64 j = (case j of JInt i \<Rightarrow> Some (of_int i) | JDec x \<Rightarrow> Some x | _ \<Rightarrow> None)"

definition dec_string :: "json \<Rightarrow> string option" where
  "dec_string j = (case j of JStr s \<Rightarrow> Some s | JTime s _ \<Rightarrow> Some s | _ \<Rightarrow> None)"

definition dec_time :: "json \<Rightarrow> gotime option" where
  "dec_time j = (case j of JTime _ t \<Rightarrow> Some t | _ \<Rightarrow> None)"

text \<open>Object keys match field names up to ASCII case.\<close>

definition lower_char :: "char \<Rightarrow> char" where
  "lower_char c = (let n = of_char c :: nat in if 65 \<le> n \<and> n \<le> 90 then char_of (n + 32) else c)"

definition key_matches :: "string \<Rightarrow> string \<Rightarrow> bool" where
  "key_matches k name \<longleftrightarrow> map lower_char k = map lower_char name"

text \<open>
  Decoding one member into a field: null leaves the field alone, a value of the wrong type
  is an error that does not stop the decoder.
\<close>

definition set_field :: "(json \<Rightarrow> 'a option) \<Rightarrow> ('a \<Rightarrow> 's \<Rightarrow> 's) \<Rightarrow> json \<Rightarrow> 's \<times> bool \<Rightarrow> 's \<times> bool" where
  "set_field d upd v p =
     (if v = JNull then p
      else case d v of Some x \<Rightarrow> (upd x (fst p), snd p) | None \<Rightarrow> (fst p, False))"

definition decode_members :: "(string \<Rightarrow> json \<Rightarrow> 's \<times> bool \<Rightarrow> 's \<times> bool) \<Rightarrow> 's \<Rightarrow> bytes \<Rightarrow> 's option" where
  "decode_members member zero b =
     (case b of
        Some (JObj ms) \<Rightarrow>
          (let (s, ok) = fold (\<lambda>(k, v) p. member k v p) ms (zero, True) in if ok then Some s else None)
      | Some JNull \<Rightarrow> Some zero
      | _ \<Rightarrow> None)"

subsection \<open>The queue message\<close>

definition marshal_TxMessage :: "TxMessage \<Rightarrow> json option" where
  "marshal_TxMessage m = Some (JObj
     [(''tx_id'', JStr (msg_TXID m)),
      (''source_account'', JInt (sint (msg_SourceAccount m))),
      (''dest_account'', JInt (sint (msg_DestAccount m))),
      (''amount'', json_float (msg_Amount m))])"

definition zero_TxMessage :: TxMessage where
  "zero_TxMessage = \<lparr>msg_TXID = '''', msg_SourceAccount = 0, msg_DestAccount = 0, msg_Amount = 0\<rparr>"

definition member_TxMessage :: "string \<Rightarrow> json \<Rightarrow> TxMessage \<times> bool \<Rightarrow> TxMessage \<times> bool" where
  "member_TxMessage k v =
     (if key_matches k ''tx_id'' then set_field dec_string (\<lambda>x. msg_TXID_update (\<lambda>_. x)) v
      else if key_matches k ''source_account'' then set_field dec_int64 (\<lambda>x. msg_SourceAccount_update (\<lambda>_. x)) v
      else if key_matches k ''dest_account'' then set_field dec_int64 (\<lambda>x. msg_DestAccount_update (\<lambda>_. x)) v
      else if key_matches k ''amount'' then set_field dec_float64 (\<lambda>x. msg_Amount_update (\<lambda>_. x)) v
      else id)"

definition unmarshal_TxMessage :: "bytes \<Rightarrow> TxMessage option" where
  "unmarshal_TxMessage = decode_members member_TxMessage zero_TxMessage"

subsection \<open>The cached account and transaction\<close>

definition marshal_Account :: "Account \<Rightarrow> json option" where
  "marshal_Account a = (case json_time (acc_UpdatedAt a) of None \<Rightarrow> None | Some t \<Rightarrow> Some (JObj
     [(''ID'', JInt (sint (acc_ID a))), (''Name'', JStr (acc_Name a)),
      (''Balance'', json_float (acc_Balance a)), (''UpdatedAt'', t)]))"

definition zero_Account :: Account where
  "zero_Account = \<lparr>acc_ID = 0, acc_Name = '''', acc_Balance = 0, acc_UpdatedAt = zero_time\<rparr>"

definition member_Account :: "string \<Rightarrow> json \<Rightarrow> Account \<times> bool \<Rightarrow> Account \<times> bool" where
  "member_Account k v =
     (if key_matches k ''ID'' then set_field dec_int64 (\<lambda>x. acc_ID_update (\<lambda>_. x)) v
      else if key_matches k ''Name'' then set_field dec_string (\<lambda>x. acc_Name_update (\<lambda>_. x)) v
      else if key_matches k ''Balance'' then set_field dec_float64 (\<lambda>x. acc_Balance_update (\<lambda>_. x)) v
      else if key_matches k ''UpdatedAt'' then set_field dec_time (\<lambda>x. acc_UpdatedAt_update (\<lambda>_. x)) v
      else id)"

definition unmarshal_Account :: "bytes \<Rightarrow> Account option" where
  "unmarshal_Account = decode_members member_Account zero_Account"

definition marshal_Transaction :: "Transaction \<Rightarrow> json option" where
  "marshal_Transaction t =
     (case (json_time (tx_CreatedAt t), json_time (tx_UpdatedAt t)) of
        (Some c, Some u) \<Rightarrow> Some (JObj
          [(''ID'', JStr (tx_ID t)), (''SourceAccount'', JInt (sint (tx_SourceAccount t))),
           (''DestAccount'', JInt (sint (tx_DestAccount t))), (''Amount'', json_float (tx_Amount t)),
           (''Status'', JStr (tx_Status t)), (''CreatedAt'', c), (''UpdatedAt'', u)])
      | _ \<Rightarrow> None)"

definition zero_Transaction :: Transaction where
  "zero_Transaction = \<lparr>tx_ID = '''', tx_SourceAccount = 0, tx_DestAccount = 0, tx_Amount = 0,
     tx_Status = '''', tx_CreatedAt = zero_time, tx_UpdatedAt = zero_time\<rparr>"

definition member_Transaction :: "string \<Rightarrow> json \<Rightarrow> Transaction \<times> bool \<Rightarrow> Transaction \<times> bool" where
  "member_Transaction k v =
     (if key_matches k ''ID'' then set_field dec_string (\<lambda>x. tx_ID_update (\<lambda>_. x)) v
      else if key_matches k ''SourceAccount'' then set_field dec_int64 (\<lambda>x. tx_SourceAccount_update (\<lambda>_. x)) v
      else if key_matches k ''DestAccount'' then set_field dec_int64 (\<lambda>x. tx_DestAccount_update (\<lambda>_. x)) v
      else if key_matches k ''Amount'' then set_field dec_float64 (\<lambda>x. tx_Amount_update (\<lambda>_. x)) v
      else if key_matches k ''Status'' then set_field dec_string (\<lambda>x. tx_Status_update (\<lambda>_. x)) v
      else if key_matches k ''CreatedAt'' then set_field dec_time (\<lambda>x. tx_CreatedAt_update (\<lambda>_. x)) v
      else if key_matches k ''UpdatedAt'' then set_field dec_time (\<lambda>x. tx_UpdatedAt_update (\<lambda>_. x)) v
      else id)"

definition unmarshal_Transaction :: "bytes \<Rightarrow> Transaction option" where
  "unmarshal_Transaction = decode_members member_Transaction zero_Transaction"

section \<open>Round trips\<close>

lemma dec_int64_sint [simp]: "dec_int64 (JInt (sint (i :: int64))) = Some i"
  using int64_sint_lt [of i] int64_sint_ge [of i] by (simp add: dec_int64_def)

lemma dec_float64_json_float [simp]: "dec_float64 (json_float x) = Some x"
  by (simp add: dec_float64_def json_float_def)

lemma json_float_not_null [simp]: "json_float x \<noteq> JNull"
  by (simp add: json_float_def)

lemma json_time_Some: "json_time t = Some j \<Longrightarrow> j = JTime (rfc3339 t) t"
  by (simp add: json_time_def split: if_splits)

lemmas decode_simps = decode_members_def set_field_def dec_string_def dec_time_def
  key_matches_def lower_char_def

lemma unmarshal_marshal_TxMessage: "unmarshal_TxMessage (marshal_TxMessage m) = Some m"
  by (simp add: unmarshal_TxMessage_def marshal_TxMessage_def member_TxMessage_def
      zero_TxMessage_def decode_simps)

lemma unmarshal_marshal_Account:
  "marshal_Account a = Some j \<Longrightarrow> unmarshal_Account (Some j) = Some a"
  by (auto simp: marshal_Account_def unmarshal_Account_def member_Account_def zero_Account_def
      decode_simps dest!: json_time_Some split: option.splits)

lemma unmarshal_marshal_Transaction:
  "marshal_Transaction t = Some j \<Longrightarrow> unmarshal_Transaction (Some j) = Some t"
  by (auto simp: marshal_Transaction_def unmarshal_Transaction_def member_Transaction_def
      zero_Transaction_def decode_simps dest!: json_time_Some split: option.splits)

end
