(* ===== verification/Database.thy ===== *)
theory Database
  imports Domain
begin

text \<open>
  The relational store: the two tables of \<open>migrations/\<close> with their column types, keys and
  foreign keys, and one definition per SQL statement that the Go code sends. What lies
  outside the SQL text is an argument: \<open>driver\<close> says how the client library writes a Go
  float or time into a statement, \<open>now\<close> is the server's \<open>NOW()\<close>, and a table of faults
  (\<open>site \<Rightarrow> err option\<close>) says at which call the connection, the server or the context
  failed, with which error.
\<close>

section \<open>Tables\<close>

record account_row =
  row_name :: string
  row_balance :: cents
  row_updated_at :: gotime

record transaction_row =
  row_source :: int64
  row_dest :: int64
  row_amount :: cents
  row_status :: string
  row_created :: gotime
  row_updated :: gotime

record database =
  accounts :: "int64 \<rightharpoonup> account_row"
  transactions :: "string \<rightharpoonup> transaction_row"

record driver =
  sql_num :: "float64 \<Rightarrow> rat"
  sql_time :: "gotime \<Rightarrow> gotime"

text \<open>The balance of one account and the money in all accounts.\<close>

definition balance_of :: "database \<Rightarrow> int64 \<Rightarrow> cents option" where
  "balance_of d i = map_option row_balance (accounts d i)"

definition money :: "database \<Rightarrow> cents" where
  "money d = msum row_balance (accounts d)"

text \<open>
  The invariant of the schema: balances and amounts fit their column type, identifiers and
  statuses fit theirs, and both accounts of every transaction exist.
\<close>

definition row_ok :: "int64 set \<Rightarrow> string \<Rightarrow> transaction_row \<Rightarrow> bool" where
  "row_ok ids k t \<longleftrightarrow>
     length k \<le> 26 \<and> length (row_status t) \<le> 20 \<and> \<bar>row_amount t\<bar> < 10 ^ 18 \<and>
     row_source t \<in> ids \<and> row_dest t \<in> ids"

definition db_ok :: "database \<Rightarrow> bool" where
  "db_ok d \<longleftrightarrow>
     (\<forall>i r. accounts d i = Some r \<longrightarrow> \<bar>row_balance r\<bar> < 10 ^ 18) \<and>
     (\<forall>k t. transactions d k = Some t \<longrightarrow> row_ok (dom (accounts d)) k t)"

section \<open>Statements\<close>

datatype site =
    BeginTx | QuerySource | QueryDest | ExecDebit | ExecCredit | ExecInsert | ExecMark | CommitTx
  | RepoSave | RepoGet | RepoUpdate

type_synonym faults = "site \<Rightarrow> err option"

definition query_row :: "faults \<Rightarrow> site \<Rightarrow> 'a option \<Rightarrow> err + 'a" where
  "query_row flt s r =
     (case flt s of Some e \<Rightarrow> Inl e | None \<Rightarrow> (case r of None \<Rightarrow> Inl ErrNoRows | Some x \<Rightarrow> Inr x))"

definition exec_stmt :: "faults \<Rightarrow> site \<Rightarrow> err + 'a \<Rightarrow> err + 'a" where
  "exec_stmt flt s r = (case flt s of Some e \<Rightarrow> Inl e | None \<Rightarrow> r)"

definition wrapE :: "string \<Rightarrow> err + 'a \<Rightarrow> err + 'a" where
  "wrapE s r = (case r of Inl e \<Rightarrow> Inl (ErrWrap s e) | Inr x \<Rightarrow> Inr x)"

definition ebind :: "err + 'a \<Rightarrow> ('a \<Rightarrow> err + 'b) \<Rightarrow> err + 'b" where
  "ebind r f = (case r of Inl e \<Rightarrow> Inl e | Inr x \<Rightarrow> f x)"

lemma query_row_Inr [simp]: "query_row flt s r = Inr x \<longleftrightarrow> flt s = None \<and> r = Some x"
  by (auto simp: query_row_def split: option.splits)

lemma exec_stmt_Inr [simp]: "exec_stmt flt s r = Inr x \<longleftrightarrow> flt s = None \<and> r = Inr x"
  by (auto simp: exec_stmt_def split: option.splits)

lemma wrapE_Inr [simp]: "wrapE s r = Inr x \<longleftrightarrow> r = Inr x"
  by (auto simp: wrapE_def split: sum.splits)

lemma wrapE_Inl: "wrapE s r = Inl e \<longleftrightarrow> (\<exists>e'. r = Inl e' \<and> e = ErrWrap s e')"
  by (auto simp: wrapE_def split: sum.splits)

lemma ebind_Inr [simp]: "ebind r f = Inr y \<longleftrightarrow> (\<exists>x. r = Inr x \<and> f x = Inr y)"
  by (auto simp: ebind_def split: sum.splits)

lemma ebind_simps [simp]: "ebind (Inr x) f = f x" "ebind (Inl e) f = Inl e"
  by (simp_all add: ebind_def)

lemma no_fault_simps [simp]:
  "flt s = None \<Longrightarrow> query_row flt s (Some x) = Inr x"
  "flt s = None \<Longrightarrow> query_row flt s None = Inl ErrNoRows"
  "flt s = None \<Longrightarrow> exec_stmt flt s r = r"
  "wrapE p (Inr x) = Inr x"
  by (simp_all add: query_row_def exec_stmt_def wrapE_def)

text \<open>\<open>SELECT balance FROM accounts WHERE id = $1 FOR UPDATE\<close>\<close>

definition select_balance_for_update :: "database \<Rightarrow> int64 \<Rightarrow> float64 option" where
  "select_balance_for_update d i = map_option scan_float (balance_of d i)"

text \<open>\<open>SELECT EXISTS(SELECT 1 FROM accounts WHERE id = $1)\<close>\<close>

definition select_account_exists :: "database \<Rightarrow> int64 \<Rightarrow> bool" where
  "select_account_exists d i \<longleftrightarrow> accounts d i \<noteq> None"

text \<open>
  \<open>UPDATE accounts SET balance = \<dots>, updated_at = NOW() WHERE id = $2\<close>: no row matches for
  an unknown identifier, which is not an error; a new balance of more than sixteen integer
  digits is one.
\<close>

definition update_balance :: "(rat \<Rightarrow> rat) \<Rightarrow> gotime \<Rightarrow> int64 \<Rightarrow> database \<Rightarrow> err + database" where
  "update_balance f now i d =
     (case accounts d i of
        None \<Rightarrow> Inr d
      | Some r \<Rightarrow>
          (case numeric_18_2 (f (numeric_val (row_balance r))) of
             None \<Rightarrow> Inl (ErrExt ''numeric field overflow'')
           | Some c \<Rightarrow> Inr (d\<lparr>accounts := (accounts d)(i \<mapsto> r\<lparr>row_balance := c, row_updated_at := now\<rparr>)\<rparr>)))"

definition update_debit :: "driver \<Rightarrow> gotime \<Rightarrow> float64 \<Rightarrow> int64 \<Rightarrow> database \<Rightarrow> err + database" where
  "update_debit drv now amount i d = update_balance (\<lambda>b. b - sql_num drv amount) now i d"

definition update_credit :: "driver \<Rightarrow> gotime \<Rightarrow> float64 \<Rightarrow> int64 \<Rightarrow> database \<Rightarrow> err + database" where
  "update_credit drv now amount i d = update_balance (\<lambda>b. b + sql_num drv amount) now i d"

text \<open>The row an INSERT proposes, with the checks of the column types and foreign keys.\<close>

definition new_row :: "driver \<Rightarrow> Transaction \<Rightarrow> database \<Rightarrow> err + transaction_row" where
  "new_row drv t d =
     (if length (tx_ID t) > 26 \<or> length (tx_Status t) > 20 then Inl (ErrExt ''value too long'')
      else case numeric_18_2 (sql_num drv (tx_Amount t)) of
             None \<Rightarrow> Inl (ErrExt ''numeric field overflow'')
           | Some c \<Rightarrow>
               Inr \<lparr>row_source = tx_SourceAccount t, row_dest = tx_DestAccount t, row_amount = c,
                    row_status = tx_Status t, row_created = sql_time drv (tx_CreatedAt t),
                    row_updated = sql_time drv (tx_CreatedAt t)\<rparr>)"

definition insert_row :: "Transaction \<Rightarrow> transaction_row \<Rightarrow> database \<Rightarrow> err + database" where
  "insert_row t r d =
     (if accounts d (row_source r) = None \<or> accounts d (row_dest r) = None
      then Inl (ErrExt ''foreign key violation'')
      else Inr (d\<lparr>transactions := (transactions d)(tx_ID t \<mapsto> r)\<rparr>))"

text \<open>\<open>INSERT INTO transactions \<dots>\<close> of the repository: a used identifier is an error.\<close>

definition insert_transaction :: "driver \<Rightarrow> Transaction \<Rightarrow> database \<Rightarrow> err + database" where
  "insert_transaction drv t d =
     ebind (new_row drv t d)
       (\<lambda>r. if transactions d (tx_ID t) \<noteq> None then Inl (ErrExt ''duplicate key'')
            else insert_row t r d)"

text \<open>
  \<open>INSERT \<dots> ON CONFLICT (id) DO UPDATE SET status = EXCLUDED.status, updated_at =
  EXCLUDED.updated_at\<close> of the synchronous path.
\<close>

definition upsert_transaction :: "driver \<Rightarrow> Transaction \<Rightarrow> database \<Rightarrow> err + database" where
  "upsert_transaction drv t d =
     ebind (new_row drv t d)
       (\<lambda>r. case transactions d (tx_ID t) of
              Some old \<Rightarrow> Inr (d\<lparr>transactions := (transactions d)(tx_ID t \<mapsto>
                old\<lparr>row_status := row_status r, row_updated := row_updated r\<rparr>)\<rparr>)
            | None \<Rightarrow> insert_row t r d)"

text \<open>\<open>UPDATE transactions SET status = $1, updated_at = NOW() WHERE id = $2\<close>\<close>

definition update_status :: "gotime \<Rightarrow> Status \<Rightarrow> string \<Rightarrow> database \<Rightarrow> err + database" where
  "update_status now st k d =
     (case transactions d k of
        None \<Rightarrow> Inr d
      | Some r \<Rightarrow> if length st > 20 then Inl (ErrExt ''value too long'')
          else Inr (d\<lparr>transactions := (transactions d)(k \<mapsto> r\<lparr>row_status := st, row_updated := now\<rparr>)\<rparr>))"

text \<open>\<open>SELECT id, name, balance, updated_at FROM accounts WHERE id = $1\<close>\<close>

definition select_account :: "database \<Rightarrow> int64 \<Rightarrow> Account option" where
  "select_account d i =
     map_option (\<lambda>r. \<lparr>acc_ID = i, acc_Name = row_name r, acc_Balance = scan_float (row_balance r),
                      acc_UpdatedAt = row_updated_at r\<rparr>) (accounts d i)"

text \<open>\<open>SELECT id, source_account, \<dots>, updated_at FROM transactions WHERE id = $1\<close>\<close>

definition select_transaction :: "database \<Rightarrow> string \<Rightarrow> Transaction option" where
  "select_transaction d k =
     map_option (\<lambda>r. \<lparr>tx_ID = k, tx_SourceAccount = row_source r, tx_DestAccount = row_dest r,
                      tx_Amount = scan_float (row_amount r), tx_Status = row_status r,
                      tx_CreatedAt = row_created r, tx_UpdatedAt = row_updated r\<rparr>) (transactions d k)"

section \<open>Committing\<close>

text \<open>
  A statement outside a transaction commits by itself, and \<open>Commit\<close> commits the working
  copy of a transaction. When that call fails the server may or may not have applied the
  change (\<open>applied\<close>), which the caller cannot tell.
\<close>

record outcomes =
  fault :: faults
  applied :: "site \<Rightarrow> bool"

definition autocommit :: "outcomes \<Rightarrow> site \<Rightarrow> database \<Rightarrow> err + database \<Rightarrow> err option \<times> database" where
  "autocommit orc s old r =
     (case r of
        Inl e \<Rightarrow> (Some (case fault orc s of Some e' \<Rightarrow> e' | None \<Rightarrow> e), old)
      | Inr new \<Rightarrow>
          (case fault orc s of
             None \<Rightarrow> (None, new)
           | Some e \<Rightarrow> (Some e, if applied orc s then new else old)))"

definition commit_tx :: "outcomes \<Rightarrow> database \<Rightarrow> database \<Rightarrow> err option \<times> database" where
  "commit_tx orc old work = autocommit orc CommitTx old (Inr work)"

text \<open>
  What one database transaction meets outside the program: the driver, the faults and the
  server's \<open>NOW()\<close>.
\<close>

record db_call =
  dc_drv :: driver
  dc_orc :: outcomes
  dc_now :: gotime

section \<open>What the statements do\<close>

lemma db_ok_set_row:
  "db_ok d \<Longrightarrow> row_ok (dom (accounts d)) k r \<Longrightarrow> db_ok (d\<lparr>transactions := (transactions d)(k \<mapsto> r)\<rparr>)"
  by (auto simp: db_ok_def)

lemma db_ok_row: "db_ok d \<Longrightarrow> transactions d k = Some r \<Longrightarrow> row_ok (dom (accounts d)) k r"
  by (simp add: db_ok_def)

lemma db_ok_balance: "db_ok d \<Longrightarrow> balance_of d i = Some c \<Longrightarrow> \<bar>c\<bar> < 10 ^ 18"
  by (auto simp: db_ok_def balance_of_def)

lemma balance_of_dom: "balance_of d i \<noteq> None \<longleftrightarrow> i \<in> dom (accounts d)"
  by (auto simp: balance_of_def)

lemma update_balance_frame:
  assumes "update_balance f now i d = Inr d'"
  shows "transactions d' = transactions d" "dom (accounts d') = dom (accounts d)"
    "j \<noteq> i \<Longrightarrow> accounts d' j = accounts d j"
  using assms by (auto simp: update_balance_def split: option.splits if_splits)

lemma update_balance_missing: "accounts d i = None \<Longrightarrow> update_balance f now i d = Inr d"
  by (simp add: update_balance_def)

lemma update_balance_row:
  assumes "update_balance f now i d = Inr d'" "accounts d i = Some r"
  obtains c where "numeric_18_2 (f (numeric_val (row_balance r))) = Some c"
    "accounts d' = (accounts d)(i \<mapsto> r\<lparr>row_balance := c, row_updated_at := now\<rparr>)"
  using assms by (auto simp: update_balance_def split: option.splits)

lemma update_balance_ok:
  assumes "update_balance f now i d = Inr d'" "db_ok d"
  shows "db_ok d'"
proof -
  have "\<bar>row_balance r\<bar> < 10 ^ 18" if "accounts d' j = Some r" for j r
  proof (cases "accounts d i")
    case None
    with assms that show ?thesis by (auto simp: update_balance_missing db_ok_def)
  next
    case (Some r')
    with assms(1) obtain c where c: "numeric_18_2 (f (numeric_val (row_balance r'))) = Some c"
      "accounts d' = (accounts d)(i \<mapsto> r'\<lparr>row_balance := c, row_updated_at := now\<rparr>)"
      by (rule update_balance_row)
    with that assms(2) numeric_18_2_bound [OF c(1)] show ?thesis
      by (auto simp: db_ok_def split: if_splits)
  qed
  with update_balance_frame [OF assms(1)] assms(2) show ?thesis by (auto simp: db_ok_def)
qed

text \<open>The effect on the balances, for a statement that moves a whole number of cents.\<close>

lemma update_balance_whole:
  assumes "update_balance f now i d = Inr d'" "\<And>b. f (numeric_val b) = numeric_val (b + c)"
    "balance_of d i = Some b"
  shows "balance_of d' = (balance_of d)(i \<mapsto> b + c)" "money d' = money d + c"
proof -
  from assms(3) obtain r where r: "accounts d i = Some r" "row_balance r = b"
    by (auto simp: balance_of_def)
  with assms(1) obtain c' where c': "numeric_18_2 (f (numeric_val b)) = Some c'"
    "accounts d' = (accounts d)(i \<mapsto> r\<lparr>row_balance := c', row_updated_at := now\<rparr>)"
    using update_balance_row by metis
  from c'(1) have "c' = b + c" by (simp add: assms(2) numeric_18_2_whole split: if_splits)
  with c' r show "balance_of d' = (balance_of d)(i \<mapsto> b + c)"
    by (simp add: balance_of_def fun_eq_iff)
  from c' r \<open>c' = b + c\<close> show "money d' = money d + c"
    by (simp add: money_def msum_update [where m = "accounts d" and k = i and v = r])
qed

lemma update_debit_whole:
  assumes "update_debit drv now a i d = Inr d'" "sql_num drv a = numeric_val c" "balance_of d i = Some b"
  shows "balance_of d' = (balance_of d)(i \<mapsto> b - c)" "money d' = money d - c"
  using update_balance_whole [OF assms(1) [unfolded update_debit_def], of "- c" b] assms(2,3)
  by (simp_all add: numeric_val_diff)

lemma update_credit_whole:
  assumes "update_credit drv now a i d = Inr d'" "sql_num drv a = numeric_val c" "balance_of d i = Some b"
  shows "balance_of d' = (balance_of d)(i \<mapsto> b + c)" "money d' = money d + c"
  using update_balance_whole [OF assms(1) [unfolded update_credit_def], of c b] assms(2,3)
  by (simp_all add: numeric_val_add)

text \<open>The statements on the table of transactions leave the accounts alone.\<close>

lemma new_row_Inr:
  assumes "new_row drv t d = Inr r"
  shows "length (tx_ID t) \<le> 26" "length (row_status r) \<le> 20" "\<bar>row_amount r\<bar> < 10 ^ 18"
    "row_source r = tx_SourceAccount t" "row_dest r = tx_DestAccount t" "row_status r = tx_Status t"
  using assms by (auto simp: new_row_def dest: numeric_18_2_bound split: if_splits option.splits)

lemma insert_row_Inr:
  assumes "insert_row t r d = Inr d'"
  shows "accounts d' = accounts d" "transactions d' = (transactions d)(tx_ID t \<mapsto> r)"
    "row_source r \<in> dom (accounts d)" "row_dest r \<in> dom (accounts d)"
  using assms by (auto simp: insert_row_def split: if_splits)

lemma insert_row_ok:
  assumes "db_ok d" "new_row drv t d = Inr r" "insert_row t r d = Inr d'"
  shows "db_ok d'"
proof -
  have "row_ok (dom (accounts d)) (tx_ID t) r"
    using new_row_Inr [OF assms(2)] insert_row_Inr [OF assms(3)] by (simp add: row_ok_def)
  with assms(1) have "db_ok (d\<lparr>transactions := (transactions d)(tx_ID t \<mapsto> r)\<rparr>)"
    by (rule db_ok_set_row)
  with assms(3) show ?thesis by (simp add: insert_row_def split: if_splits)
qed

lemma insert_transaction_Inr:
  assumes "insert_transaction drv t d = Inr d'"
  obtains r where "new_row drv t d = Inr r" "transactions d (tx_ID t) = None"
    "insert_row t r d = Inr d'"
  using assms by (auto simp: insert_transaction_def split: if_splits)

lemma insert_transaction_frame: "insert_transaction drv t d = Inr d' \<Longrightarrow> accounts d' = accounts d"
  by (erule insert_transaction_Inr) (rule insert_row_Inr)

lemma insert_transaction_ok:
  assumes "insert_transaction drv t d = Inr d'" "db_ok d"
  shows "db_ok d'"
proof -
  from assms(1) obtain r where "new_row drv t d = Inr r" "insert_row t r d = Inr d'"
    by (rule insert_transaction_Inr)
  with assms(2) show ?thesis by (rule insert_row_ok)
qed

lemma upsert_transaction_frame: "upsert_transaction drv t d = Inr d' \<Longrightarrow> accounts d' = accounts d"
  by (auto simp: upsert_transaction_def insert_row_def split: option.splits if_splits)

lemma upsert_transaction_status:
  assumes "upsert_transaction drv t d = Inr d'"
  shows "\<exists>r. transactions d' (tx_ID t) = Some r \<and> row_status r = tx_Status t"
  using assms new_row_Inr(6) by (fastforce simp: upsert_transaction_def insert_row_def split: option.splits if_splits)

lemma upsert_transaction_ok:
  assumes "upsert_transaction drv t d = Inr d'" "db_ok d"
  shows "db_ok d'"
proof -
  from assms(1) obtain r where r: "new_row drv t d = Inr r"
    by (auto simp: upsert_transaction_def)
  show ?thesis
  proof (cases "transactions d (tx_ID t)")
    case None
    with assms(1) r have "insert_row t r d = Inr d'" by (simp add: upsert_transaction_def)
    with assms(2) r show ?thesis by (rule insert_row_ok)
  next
    case (Some old)
    let ?new = "old\<lparr>row_status := row_status r, row_updated := row_updated r\<rparr>"
    have "row_ok (dom (accounts d)) (tx_ID t) ?new"
      using db_ok_row [OF assms(2) Some] new_row_Inr(2) [OF r] by (simp add: row_ok_def)
    with assms(2) have "db_ok (d\<lparr>transactions := (transactions d)(tx_ID t \<mapsto> ?new)\<rparr>)"
      by (rule db_ok_set_row)
    with assms(1) Some r show ?thesis by (simp add: upsert_transaction_def)
  qed
qed

lemma update_status_frame:
  assumes "update_status now st k d = Inr d'"
  shows "accounts d' = accounts d" "dom (transactions d') = dom (transactions d)"
    "j \<noteq> k \<Longrightarrow> transactions d' j = transactions d j"
  using assms by (auto simp: update_status_def split: option.splits if_splits)

lemma update_status_ok: "update_status now st k d = Inr d' \<Longrightarrow> db_ok d \<Longrightarrow> db_ok d'"
  by (auto simp: update_status_def row_ok_def intro!: db_ok_set_row dest: db_ok_row
      split: option.splits if_splits)

lemma update_status_known:
  "transactions d k = Some r \<Longrightarrow> length st \<le> 20 \<Longrightarrow>
   update_status now st k d = Inr (d\<lparr>transactions := (transactions d)(k \<mapsto> r\<lparr>row_status := st, row_updated := now\<rparr>)\<rparr>)"
  by (simp add: update_status_def)

lemma same_accounts [frame_simps]:
  assumes "accounts d' = accounts d"
  shows "balance_of d' = balance_of d" "money d' = money d"
  using assms by (simp_all add: balance_of_def [abs_def] money_def)

lemma autocommit_cases:
  "autocommit orc s old r = (x, d) \<Longrightarrow> d = old \<or> r = Inr d"
  by (auto simp: autocommit_def split: option.splits if_splits sum.splits)

lemma autocommit_None: "autocommit orc s old r = (None, d) \<longleftrightarrow> fault orc s = None \<and> r = Inr d"
  by (auto simp: autocommit_def split: option.splits sum.splits)

lemma commit_tx_cases: "commit_tx orc old work = (x, d) \<Longrightarrow> d = old \<or> d = work"
  by (auto simp: commit_tx_def dest: autocommit_cases)

lemma commit_tx_None: "commit_tx orc old work = (None, d) \<longleftrightarrow> fault orc CommitTx = None \<and> d = work"
  by (auto simp: commit_tx_def autocommit_None)

end
