(* ===== verification/Ledger.thy ===== *)
theory Ledger
  imports Database
begin

text \<open>
  What a money transfer promises, independent of SQL: an abstract ledger of balances with
  one operation, \<open>transfer\<close>, and the contract that both database transactions of the program
  (\<open>createSync\<close> of the service and \<open>settle\<close> of the worker) provide. The locale
  \<open>transfer_body\<close> states the contract once; its lemmas (conservation, no overdraft, frame,
  refinement of the abstract transfer) hold for each provider through an interpretation.
\<close>

section \<open>The abstract ledger\<close>

type_synonym ledger = "int64 \<rightharpoonup> cents"

definition transfer :: "int64 \<Rightarrow> int64 \<Rightarrow> cents \<Rightarrow> ledger \<Rightarrow> ledger option" where
  "transfer s t c L =
     (case (L s, L t) of
        (Some b, Some _) \<Rightarrow>
          if b < c then None
          else let L1 = L(s \<mapsto> b - c) in Some (L1(t \<mapsto> the (L1 t) + c))
      | _ \<Rightarrow> None)"

definition solvent :: "ledger \<Rightarrow> bool" where
  "solvent L \<longleftrightarrow> (\<forall>i b. L i = Some b \<longrightarrow> 0 \<le> b)"

lemma solventD: "solvent L \<Longrightarrow> L i = Some b \<Longrightarrow> 0 \<le> b"
  by (auto simp: solvent_def)

lemma transfer_conserves: "transfer s t c L = Some L' \<Longrightarrow> msum id L' = msum id L"
  by (auto simp: transfer_def Let_def msum_update split: option.splits if_splits simp del: fun_upd_apply)
     (auto simp: msum_update split: if_splits)

lemma transfer_solvent: "transfer s t c L = Some L' \<Longrightarrow> solvent L \<Longrightarrow> 0 \<le> c \<Longrightarrow> solvent L'"
  by (auto simp: transfer_def solvent_def split: option.splits if_splits)

lemma transfer_self: "transfer s s c L = Some L' \<Longrightarrow> L' = L"
  by (auto simp: transfer_def split: option.splits if_splits)

lemma transfer_frame: "transfer s t c L = Some L' \<Longrightarrow> i \<noteq> s \<Longrightarrow> i \<noteq> t \<Longrightarrow> L' i = L i"
  by (auto simp: transfer_def Let_def split: option.splits if_splits)

lemma money_ledger: "money d = msum id (balance_of d)"
proof -
  have "dom (accounts d) = dom (balance_of d)" by (auto simp: balance_of_def)
  then show ?thesis by (simp add: money_def msum_def balance_of_def [abs_def] option.map_sel domIff)
qed

section \<open>When the two updates go through\<close>

lemma update_balance_total:
  assumes "balance_of d i = Some b" "f (numeric_val b) = numeric_val b'" "\<bar>b'\<bar> < 10 ^ 18"
  shows "\<exists>d'. update_balance f now i d = Inr d'"
  using assms by (auto simp: update_balance_def balance_of_def numeric_18_2_whole)

lemma debit_credit_total:
  assumes c: "sql_num drv a = numeric_val c"
    and src: "balance_of d i = Some b" "\<bar>b - c\<bar> < 10 ^ 18"
    and dst: "balance_of d j = Some b'" "\<bar>b' + c\<bar> < 10 ^ 18" "\<bar>b\<bar> < 10 ^ 18"
  obtains d1 d2 where "update_debit drv now a i d = Inr d1" "update_credit drv now a j d1 = Inr d2"
    "dom (accounts d2) = dom (accounts d)"
proof -
  obtain d1 where d1: "update_debit drv now a i d = Inr d1"
    unfolding update_debit_def using update_balance_total [OF src(1) _ src(2)] c numeric_val_diff by metis
  define b1 where "b1 = (if i = j then b - c else b')"
  have L1: "balance_of d1 j = Some b1"
    using update_debit_whole(1) [OF d1 c src(1)] dst(1) by (simp add: b1_def)
  have "\<bar>b1 + c\<bar> < 10 ^ 18" using dst by (simp add: b1_def)
  then obtain d2 where d2: "update_credit drv now a j d1 = Inr d2"
    unfolding update_credit_def using update_balance_total [OF L1] c numeric_val_add by metis
  have "dom (accounts d2) = dom (accounts d)"
    using update_balance_frame(2) d1 d2 by (metis update_credit_def update_debit_def)
  with d1 d2 show thesis by (rule that)
qed

section \<open>The contract of a transfer inside a database transaction\<close>

text \<open>
  \<open>body q d\<close> runs the statements of request \<open>q\<close> on a working copy of the database \<open>d\<close>
  up to, but not including, \<open>Commit\<close>. The provider shows that a body that does not fail
  read the source balance, compared it with the amount as Go floats, debited the source and
  credited the destination, and otherwise touched only the table of transactions.
\<close>

locale transfer_body =
  fixes body :: "'q \<Rightarrow> database \<Rightarrow> err + database"
    and drv :: "'q \<Rightarrow> driver"
    and src :: "'q \<Rightarrow> int64"
    and dst :: "'q \<Rightarrow> int64"
    and amount :: "'q \<Rightarrow> float64"
  assumes body_moves: "body q d = Inr d' \<Longrightarrow>
      \<exists>b now d1 d2. select_balance_for_update d (src q) = Some b \<and> \<not> b < amount q \<and>
        update_debit (drv q) now (amount q) (src q) d = Inr d1 \<and>
        update_credit (drv q) now (amount q) (dst q) d1 = Inr d2 \<and>
        accounts d' = accounts d2"
    and body_ok: "body q d = Inr d' \<Longrightarrow> db_ok d \<Longrightarrow> db_ok d'"
begin

lemma body_source:
  assumes "body q d = Inr d'"
  obtains b where "balance_of d (src q) = Some b" "\<not> scan_float b < amount q"
  using body_moves [OF assms] by (auto simp: select_balance_for_update_def)

lemma body_dom:
  assumes "body q d = Inr d'"
  shows "dom (accounts d') = dom (accounts d)"
  using body_moves [OF assms] update_balance_frame(2)
  by (metis update_credit_def update_debit_def)

lemma body_frame:
  assumes "body q d = Inr d'" "i \<noteq> src q" "i \<noteq> dst q"
  shows "accounts d' i = accounts d i"
  using body_moves [OF assms(1)] update_balance_frame(3) assms(2,3)
  by (metis update_credit_def update_debit_def)

lemma body_balances:
  assumes run: "body q d = Inr d'" and c: "sql_num (drv q) (amount q) = numeric_val c"
    and dst: "dst q \<in> dom (accounts d)"
  obtains b where "balance_of d (src q) = Some b" "\<not> scan_float b < amount q"
    "balance_of d' = (let L = (balance_of d)(src q \<mapsto> b - c) in L(dst q \<mapsto> the (L (dst q)) + c))"
    "money d' = money d"
proof -
  from body_moves [OF run] obtain f now d1 d2 where
    f: "select_balance_for_update d (src q) = Some f" "\<not> f < amount q" and
    d1: "update_debit (drv q) now (amount q) (src q) d = Inr d1" and
    d2: "update_credit (drv q) now (amount q) (dst q) d1 = Inr d2" and
    acc: "accounts d' = accounts d2" by blast
  from f obtain b where b: "balance_of d (src q) = Some b" "f = scan_float b"
    by (auto simp: select_balance_for_update_def)
  note L1 = update_debit_whole [OF d1 c b(1)]
  have "dst q \<in> dom (accounts d1)"
    using dst update_balance_frame(2) d1 by (metis update_debit_def)
  then obtain b' where b': "balance_of d1 (dst q) = Some b'" by (auto simp: balance_of_def)
  note L2 = update_credit_whole [OF d2 c b']
  have "balance_of d' = (let L = (balance_of d)(src q \<mapsto> b - c) in L(dst q \<mapsto> the (L (dst q)) + c))"
    using L1(1) L2(1) b' same_accounts(1) [OF acc] by (simp add: Let_def)
  moreover have "money d' = money d" using L1(2) L2(2) same_accounts(2) [OF acc] by simp
  ultimately show thesis using that b f(2) by simp
qed

text \<open>Money is neither created nor destroyed.\<close>

lemma body_conserves:
  assumes "body q d = Inr d'" "sql_num (drv q) (amount q) = numeric_val c" "dst q \<in> dom (accounts d)"
  shows "money d' = money d"
  by (rule body_balances [OF assms])

text \<open>In the exact range the float check is the check on cents, so the body is \<open>transfer\<close>.\<close>

lemma body_refines:
  assumes run: "body q d = Inr d'" and c: "sql_num (drv q) (amount q) = numeric_val c"
    and dst: "dst q \<in> dom (accounts d)"
    and fl: "amount q = scan_float c" and pos: "0 < c" and ex: "c < exact_cents"
  shows "transfer (src q) (dst q) c (balance_of d) = Some (balance_of d')"
proof -
  obtain b where b: "balance_of d (src q) = Some b" "\<not> scan_float b < amount q"
    "balance_of d' = (let L = (balance_of d)(src q \<mapsto> b - c) in L(dst q \<mapsto> the (L (dst q)) + c))"
    using body_balances [OF run c dst] by metis
  have "\<not> b < c" using scan_float_strict [OF pos _ ex, of b] b(2) fl by auto
  moreover obtain b' where "balance_of d (dst q) = Some b'" using dst by (auto simp: balance_of_def)
  ultimately show ?thesis using b(1,3) by (simp add: transfer_def Let_def)
qed

lemma body_solvent:
  assumes "body q d = Inr d'" "sql_num (drv q) (amount q) = numeric_val c"
    "dst q \<in> dom (accounts d)" "amount q = scan_float c" "0 < c" "c < exact_cents"
    "solvent (balance_of d)"
  shows "solvent (balance_of d')"
  using transfer_solvent [OF body_refines [OF assms(1-6)] assms(7)] assms(5) by simp

end

end
