(* ===== verification/Logger.thy ===== *)
theory Logger
  imports Domain
begin

text \<open>
  The structured logger, \<open>internal/logger/logger.go\<close>: the wide event a request context carries,
  and the JSON logger \<open>L\<close> on \<open>log/slog\<close>, whose state is the list of records it has written.
\<close>

section \<open>Wide events\<close>

datatype logval = LInt int64 | LFloat float64 | LBool bool | LStr string | LMillis int

type_synonym wide_event = "string \<rightharpoonup> logval"

text \<open>A request context carries at most one wide event; a worker's context carries none.\<close>

type_synonym go_context = "wide_event option"

definition NewEvent :: wide_event where
  "NewEvent = Map.empty"

definition WithEvent :: "go_context \<Rightarrow> wide_event \<Rightarrow> go_context" where
  "WithEvent ctx e = Some e"

definition EventFromContext :: "go_context \<Rightarrow> wide_event option" where
  "EventFromContext ctx = ctx"

definition logger_Set :: "go_context \<Rightarrow> string \<Rightarrow> logval \<Rightarrow> go_context" where
  "logger_Set ctx key val =
     (case EventFromContext ctx of None \<Rightarrow> ctx | Some e \<Rightarrow> WithEvent ctx (e(key \<mapsto> val)))"

lemma logger_Set_simps [simp]:
  "logger_Set None k v = None"
  "logger_Set (Some e) k v = Some (e(k \<mapsto> v))"
  by (simp_all add: logger_Set_def EventFromContext_def WithEvent_def)

section \<open>The JSON logger\<close>

text \<open>The levels of \<open>slog\<close>, ordered by severity.\<close>

datatype level = LevelDebug | LevelInfo | LevelWarn | LevelError

fun level_num :: "level \<Rightarrow> int" where
  "level_num LevelDebug = - 4"
| "level_num LevelInfo = 0"
| "level_num LevelWarn = 4"
| "level_num LevelError = 8"

instantiation level :: linorder
begin

definition less_eq_level :: "level \<Rightarrow> level \<Rightarrow> bool" where
  "less_eq_level a b \<longleftrightarrow> level_num a \<le> level_num b"

definition less_level :: "level \<Rightarrow> level \<Rightarrow> bool" where
  "less_level a b \<longleftrightarrow> level_num a < level_num b"

instance
proof
  fix a b :: level
  assume "a \<le> b" "b \<le> a"
  then show "a = b" by (cases a; cases b) (simp_all add: less_eq_level_def)
qed (auto simp: less_eq_level_def less_level_def)

end

record log_record =
  lr_level :: level
  lr_msg :: string
  lr_attrs :: "(string \<times> logval) list"

record slogger =
  sl_level :: level
  sl_lines :: "log_record list"

definition slog_Log :: "level \<Rightarrow> string \<Rightarrow> (string \<times> logval) list \<Rightarrow> slogger \<Rightarrow> slogger" where
  "slog_Log l msg attrs L =
     (if sl_level L \<le> l then L\<lparr>sl_lines := sl_lines L @ [\<lparr>lr_level = l, lr_msg = msg, lr_attrs = attrs\<rparr>]\<rparr> else L)"

definition logger_Init :: "string \<Rightarrow> slogger" where
  "logger_Init appEnv =
     slog_Log LevelInfo ''logger initialized'' [(''app_env'', LStr appEnv)] \<lparr>sl_level = LevelInfo, sl_lines = []\<rparr>"

definition logger_Error :: "string \<Rightarrow> (string \<times> logval) list \<Rightarrow> slogger \<Rightarrow> slogger" where
  "logger_Error msg args L = slog_Log LevelError msg args L"

text \<open>\<open>order\<close> is the order in which \<open>range\<close> visits a map: each key once, otherwise arbitrary.\<close>

definition Emit :: "(wide_event \<Rightarrow> string list) \<Rightarrow> wide_event \<Rightarrow> slogger \<Rightarrow> slogger" where
  "Emit order e L = slog_Log LevelInfo ''request'' (map (\<lambda>k. (k, the (e k))) (order e)) L"

definition ranges :: "(wide_event \<Rightarrow> string list) \<Rightarrow> bool" where
  "ranges order \<longleftrightarrow> (\<forall>e. finite (dom e) \<longrightarrow> distinct (order e) \<and> set (order e) = dom e)"

text \<open>What is written is exactly the event, as one record.\<close>

lemma Emit_lines:
  assumes "ranges order" "finite (dom e)" "sl_level L \<le> LevelInfo"
  shows "\<exists>attrs. sl_lines (Emit order e L) = sl_lines L @ [\<lparr>lr_level = LevelInfo, lr_msg = ''request'', lr_attrs = attrs\<rparr>] \<and>
    map_of attrs = e \<and> distinct (map fst attrs)"
proof -
  let ?attrs = "map (\<lambda>k. (k, the (e k))) (order e)"
  have o: "distinct (order e)" "set (order e) = dom e" using assms(1,2) by (simp_all add: ranges_def)
  have "map_of (map (\<lambda>k. (k, the (e k))) ks) k = (if k \<in> set ks then Some (the (e k)) else None)" for ks k
    by (induction ks) auto
  then have "map_of ?attrs = e" using o(2) by (auto simp: fun_eq_iff domIff)
  moreover have "distinct (map fst ?attrs)" using o(1) by (simp add: comp_def)
  ultimately show ?thesis using assms(3) by (simp add: Emit_def slog_Log_def)
qed

lemma Emit_level [simp]: "sl_level (Emit order e L) = sl_level L"
  by (simp add: Emit_def slog_Log_def)

lemma logger_Init_ready: "sl_level (logger_Init appEnv) \<le> LevelInfo" "sl_level (logger_Init appEnv) \<le> LevelError"
  by (simp_all add: logger_Init_def slog_Log_def less_eq_level_def)

end
