(* ===== verification/World.thy ===== *)
theory World
  imports Ledger Logger
begin

text \<open>
  The state that requests and workers share, with the wide event of the request in progress
  and the two cache counters of \<open>internal/metrics\<close>, and the interfaces between the components.

  The Go interfaces \<open>account.Repository\<close> and \<open>transaction.Repository\<close> are records of
  methods on the world, as an interface value is a table of methods. Redis and the broker
  are services outside the repository: their state is a type parameter (\<open>'r\<close>, \<open>'b\<close>) and
  their commands are arguments (\<open>redis_client\<close>, a publish function).
\<close>

section \<open>The world\<close>

datatype dbconn = PrimaryDB | ReplicaDB

record ('r, 'b) world =
  primary :: database
  standby :: database
  kv :: 'r
  broker :: 'b
  mem_accounts :: "int64 \<rightharpoonup> Account"
  mem_txs :: "string \<rightharpoonup> Transaction"
  txCounter :: int64
  event :: go_context
  cache_hits :: "string \<Rightarrow> nat"
  cache_misses :: "string \<Rightarrow> nat"

definition db_of :: "dbconn \<Rightarrow> ('r, 'b) world \<Rightarrow> database" where
  "db_of c w = (case c of PrimaryDB \<Rightarrow> primary w | ReplicaDB \<Rightarrow> standby w)"

definition db_set :: "dbconn \<Rightarrow> database \<Rightarrow> ('r, 'b) world \<Rightarrow> ('r, 'b) world" where
  "db_set c d w = (case c of PrimaryDB \<Rightarrow> w\<lparr>primary := d\<rparr> | ReplicaDB \<Rightarrow> w\<lparr>standby := d\<rparr>)"

definition log_set :: "string \<Rightarrow> logval \<Rightarrow> ('r, 'b) world \<Rightarrow> ('r, 'b) world" where
  "log_set k v w = w\<lparr>event := logger_Set (event w) k v\<rparr>"

definition CacheHits_Inc :: "string \<Rightarrow> ('r, 'b) world \<Rightarrow> ('r, 'b) world" where
  "CacheHits_Inc l w = w\<lparr>cache_hits := (cache_hits w)(l := Suc (cache_hits w l))\<rparr>"

definition CacheMisses_Inc :: "string \<Rightarrow> ('r, 'b) world \<Rightarrow> ('r, 'b) world" where
  "CacheMisses_Inc l w = w\<lparr>cache_misses := (cache_misses w)(l := Suc (cache_misses w l))\<rparr>"

text \<open>Everything but the observability fields: what a client of the API can notice.\<close>

definition same_state :: "('r, 'b) world \<Rightarrow> ('r, 'b) world \<Rightarrow> bool" where
  "same_state w w' \<longleftrightarrow>
     primary w' = primary w \<and> standby w' = standby w \<and> kv w' = kv w \<and> broker w' = broker w \<and>
     mem_accounts w' = mem_accounts w \<and> mem_txs w' = mem_txs w \<and> txCounter w' = txCounter w"

lemma db_of_simps [simp]: "db_of PrimaryDB w = primary w" "db_of ReplicaDB w = standby w"
  by (simp_all add: db_of_def)

lemma db_of_set [simp]: "db_of c (db_set c d w) = d"
  by (cases c) (simp_all add: db_set_def)

lemma db_set_primary [simp]: "db_set PrimaryDB d w = w\<lparr>primary := d\<rparr>"
  by (simp add: db_set_def)

lemma db_set_standby [simp]: "db_set ReplicaDB d w = w\<lparr>standby := d\<rparr>"
  by (simp add: db_set_def)

lemma db_set_same [simp]: "db_set c (db_of c w) w = w"
  by (cases c) simp_all

lemma db_set_frame [simp]:
  "kv (db_set c d w) = kv w" "broker (db_set c d w) = broker w" "event (db_set c d w) = event w"
  "mem_txs (db_set c d w) = mem_txs w" "mem_accounts (db_set c d w) = mem_accounts w"
  "txCounter (db_set c d w) = txCounter w"
  "cache_hits (db_set c d w) = cache_hits w" "cache_misses (db_set c d w) = cache_misses w"
  by (cases c; simp add: db_set_def)+

lemma log_set_frame [simp]:
  "primary (log_set k v w) = primary w" "standby (log_set k v w) = standby w"
  "kv (log_set k v w) = kv w" "broker (log_set k v w) = broker w"
  "mem_txs (log_set k v w) = mem_txs w" "mem_accounts (log_set k v w) = mem_accounts w"
  "txCounter (log_set k v w) = txCounter w" "event (log_set k v w) = logger_Set (event w) k v"
  "cache_hits (log_set k v w) = cache_hits w" "cache_misses (log_set k v w) = cache_misses w"
  "db_of c (log_set k v w) = db_of c w"
  by (cases c; simp add: log_set_def)+

lemma cache_inc_frame [simp]:
  "primary (CacheHits_Inc l w) = primary w" "primary (CacheMisses_Inc l w) = primary w"
  "standby (CacheHits_Inc l w) = standby w" "standby (CacheMisses_Inc l w) = standby w"
  "kv (CacheHits_Inc l w) = kv w" "kv (CacheMisses_Inc l w) = kv w"
  "broker (CacheHits_Inc l w) = broker w" "broker (CacheMisses_Inc l w) = broker w"
  "mem_txs (CacheHits_Inc l w) = mem_txs w" "mem_txs (CacheMisses_Inc l w) = mem_txs w"
  "mem_accounts (CacheHits_Inc l w) = mem_accounts w" "mem_accounts (CacheMisses_Inc l w) = mem_accounts w"
  "txCounter (CacheHits_Inc l w) = txCounter w" "txCounter (CacheMisses_Inc l w) = txCounter w"
  "event (CacheHits_Inc l w) = event w" "event (CacheMisses_Inc l w) = event w"
  "cache_misses (CacheHits_Inc l w) = cache_misses w" "cache_hits (CacheMisses_Inc l w) = cache_hits w"
  "cache_hits (CacheHits_Inc l w) = (cache_hits w)(l := Suc (cache_hits w l))"
  "cache_misses (CacheMisses_Inc l w) = (cache_misses w)(l := Suc (cache_misses w l))"
  by (simp_all add: CacheHits_Inc_def CacheMisses_Inc_def)

section \<open>Interfaces\<close>

record 'w account_repository =
  acct_GetByID :: "'w \<Rightarrow> int64 \<Rightarrow> err + Account"

record 'w transaction_repository =
  txn_Save :: "'w \<Rightarrow> Transaction \<Rightarrow> err option \<times> 'w"
  txn_GetByID :: "'w \<Rightarrow> string \<Rightarrow> err + Transaction"
  txn_UpdateStatus :: "'w \<Rightarrow> string \<Rightarrow> Status \<Rightarrow> err option \<times> 'w"

text \<open>
  The commands of the Redis client the code calls. A failed \<open>GET\<close> and a missing key are
  both errors to it; the results of \<open>SET\<close> and \<open>DEL\<close> are ignored, so a failed one is a
  command that did not change the store.
\<close>

record 'r redis_client =
  redis_Get :: "'r \<Rightarrow> string \<Rightarrow> err + bytes"
  redis_Set :: "'r \<Rightarrow> string \<Rightarrow> json \<Rightarrow> duration \<Rightarrow> 'r"
  redis_Del :: "'r \<Rightarrow> string list \<Rightarrow> 'r"

text \<open>\<open>(*queue.Client).Publish\<close> as the service calls it.\<close>

type_synonym 'b publisher = "'b \<Rightarrow> string \<Rightarrow> json \<Rightarrow> err option \<times> 'b"

end
