(* ===== verification/Repos.thy ===== *)
theory Repos
  imports World
begin

text \<open>
  The two implementations of the repository interfaces, \<open>internal/repository/memory\<close> and
  \<open>internal/repository/postgres\<close>, and the contract of the transaction repository as a
  locale, interpreted on both. The memory maps are read and written under a mutex, so each
  method is one step.
\<close>

section \<open>In memory\<close>

definition mem_NewAccountRepository :: "gotime \<Rightarrow> (int64 \<rightharpoonup> Account)" where
  "mem_NewAccountRepository now = map_of
     [(1001, \<lparr>acc_ID = 1001, acc_Name = ''Budi Santoso'', acc_Balance = 10000000, acc_UpdatedAt = now\<rparr>),
      (1002, \<lparr>acc_ID = 1002, acc_Name = ''Siti Rahayu'', acc_Balance = 25000000, acc_UpdatedAt = now\<rparr>),
      (1003, \<lparr>acc_ID = 1003, acc_Name = ''Agus Wijaya'', acc_Balance = 5000000, acc_UpdatedAt = now\<rparr>),
      (1004, \<lparr>acc_ID = 1004, acc_Name = ''Dewi Lestari'', acc_Balance = 50000000, acc_UpdatedAt = now\<rparr>),
      (1005, \<lparr>acc_ID = 1005, acc_Name = ''Rudi Hartono'', acc_Balance = 1000000, acc_UpdatedAt = now\<rparr>)]"

definition account_not_found :: "int64 \<Rightarrow> err" where
  "account_not_found i = ErrText (''account '' @ fmt_d (sint i) @ '' not found'')"

definition transaction_not_found :: "string \<Rightarrow> err" where
  "transaction_not_found k = ErrText (''transaction '' @ k @ '' not found'')"

definition mem_account_GetByID :: "('r, 'b) world \<Rightarrow> int64 \<Rightarrow> err + Account" where
  "mem_account_GetByID w i =
     (case mem_accounts w i of None \<Rightarrow> Inl (account_not_found i) | Some a \<Rightarrow> Inr a)"

definition mem_NewTransactionRepository :: "string \<rightharpoonup> Transaction" where
  "mem_NewTransactionRepository = Map.empty"

definition mem_tx_Save :: "('r, 'b) world \<Rightarrow> Transaction \<Rightarrow> err option \<times> ('r, 'b) world" where
  "mem_tx_Save w t = (None, w\<lparr>mem_txs := (mem_txs w)(tx_ID t \<mapsto> t)\<rparr>)"

definition mem_tx_GetByID :: "('r, 'b) world \<Rightarrow> string \<Rightarrow> err + Transaction" where
  "mem_tx_GetByID w k =
     (case mem_txs w k of None \<Rightarrow> Inl (transaction_not_found k) | Some t \<Rightarrow> Inr t)"

definition mem_tx_UpdateStatus :: "('r, 'b) world \<Rightarrow> string \<Rightarrow> Status \<Rightarrow> err option \<times> ('r, 'b) world" where
  "mem_tx_UpdateStatus w k st =
     (case mem_txs w k of
        None \<Rightarrow> (Some (transaction_not_found k), w)
      | Some t \<Rightarrow> (None, w\<lparr>mem_txs := (mem_txs w)(k \<mapsto> t\<lparr>tx_Status := st\<rparr>)\<rparr>))"

definition mem_account_repo :: "('r, 'b) world account_repository" where
  "mem_account_repo = \<lparr>acct_GetByID = mem_account_GetByID\<rparr>"

definition mem_tx_repo :: "('r, 'b) world transaction_repository" where
  "mem_tx_repo = \<lparr>txn_Save = mem_tx_Save, txn_GetByID = mem_tx_GetByID, txn_UpdateStatus = mem_tx_UpdateStatus\<rparr>"

section \<open>PostgreSQL\<close>

text \<open>Writes go to the primary pool, reads to the replica pool, which defaults to the primary.\<close>

record pg_repo =
  pg_db :: dbconn
  pg_replica :: dbconn

definition pg_NewAccountRepository :: "dbconn \<Rightarrow> dbconn option \<Rightarrow> pg_repo" where
  "pg_NewAccountRepository c rep = \<lparr>pg_db = c, pg_replica = (case rep of None \<Rightarrow> c | Some r \<Rightarrow> r)\<rparr>"

definition pg_NewTransactionRepository :: "dbconn \<Rightarrow> dbconn option \<Rightarrow> pg_repo" where
  "pg_NewTransactionRepository c rep = \<lparr>pg_db = c, pg_replica = (case rep of None \<Rightarrow> c | Some r \<Rightarrow> r)\<rparr>"

definition pg_account_GetByID :: "outcomes \<Rightarrow> pg_repo \<Rightarrow> ('r, 'b) world \<Rightarrow> int64 \<Rightarrow> err + Account" where
  "pg_account_GetByID orc r w i =
     (case query_row (fault orc) RepoGet (select_account (db_of (pg_replica r) w) i) of
        Inl e \<Rightarrow> if errors_Is e ErrNoRows then Inl (account_not_found i) else Inl e
      | Inr a \<Rightarrow> Inr a)"

definition pg_tx_Save ::
  "driver \<Rightarrow> outcomes \<Rightarrow> pg_repo \<Rightarrow> ('r, 'b) world \<Rightarrow> Transaction \<Rightarrow> err option \<times> ('r, 'b) world" where
  "pg_tx_Save drv orc r w t =
     (let (e, d) = autocommit orc RepoSave (db_of (pg_db r) w) (insert_transaction drv t (db_of (pg_db r) w))
      in (e, db_set (pg_db r) d w))"

definition pg_tx_GetByID :: "outcomes \<Rightarrow> pg_repo \<Rightarrow> ('r, 'b) world \<Rightarrow> string \<Rightarrow> err + Transaction" where
  "pg_tx_GetByID orc r w k =
     (case query_row (fault orc) RepoGet (select_transaction (db_of (pg_replica r) w) k) of
        Inl e \<Rightarrow> if errors_Is e ErrNoRows then Inl (transaction_not_found k) else Inl e
      | Inr t \<Rightarrow> Inr t)"

definition pg_tx_UpdateStatus ::
  "gotime \<Rightarrow> outcomes \<Rightarrow> pg_repo \<Rightarrow> ('r, 'b) world \<Rightarrow> string \<Rightarrow> Status \<Rightarrow> err option \<times> ('r, 'b) world" where
  "pg_tx_UpdateStatus now orc r w k st =
     (let (e, d) = autocommit orc RepoUpdate (db_of (pg_db r) w) (update_status now st k (db_of (pg_db r) w))
      in (e, db_set (pg_db r) d w))"

definition pg_account_repo :: "outcomes \<Rightarrow> pg_repo \<Rightarrow> ('r, 'b) world account_repository" where
  "pg_account_repo orc r = \<lparr>acct_GetByID = pg_account_GetByID orc r\<rparr>"

definition pg_tx_repo :: "driver \<Rightarrow> gotime \<Rightarrow> outcomes \<Rightarrow> pg_repo \<Rightarrow> ('r, 'b) world transaction_repository" where
  "pg_tx_repo drv now orc r =
     \<lparr>txn_Save = pg_tx_Save drv orc r, txn_GetByID = pg_tx_GetByID orc r,
      txn_UpdateStatus = pg_tx_UpdateStatus now orc r\<rparr>"

lemmas repo_defs [go_defs] = mem_account_repo_def mem_tx_repo_def pg_account_repo_def pg_tx_repo_def
  mem_account_GetByID_def mem_tx_Save_def mem_tx_GetByID_def mem_tx_UpdateStatus_def
  pg_account_GetByID_def pg_tx_Save_def pg_tx_GetByID_def pg_tx_UpdateStatus_def

section \<open>The contract of a transaction repository\<close>

text \<open>
  What the service and the worker rely on: a read that succeeds after a successful write
  shows the written status and the accounts of the transaction, other identifiers are
  untouched, and the store keeps each transaction under its own identifier.
\<close>

locale tx_repository =
  fixes repo :: "('r, 'b) world transaction_repository"
    and inv :: "('r, 'b) world \<Rightarrow> bool"
  assumes save_inv: "inv w \<Longrightarrow> txn_Save repo w t = (e, w') \<Longrightarrow> inv w'"
    and save_get: "inv w \<Longrightarrow> txn_Save repo w t = (None, w') \<Longrightarrow> txn_GetByID repo w' (tx_ID t) = Inr t' \<Longrightarrow>
        tx_Status t' = tx_Status t \<and> tx_SourceAccount t' = tx_SourceAccount t \<and> tx_DestAccount t' = tx_DestAccount t"
    and save_other: "txn_Save repo w t = (e, w') \<Longrightarrow> k \<noteq> tx_ID t \<Longrightarrow> txn_GetByID repo w' k = txn_GetByID repo w k"
    and update_inv: "inv w \<Longrightarrow> txn_UpdateStatus repo w k st = (e, w') \<Longrightarrow> inv w'"
    and update_get: "inv w \<Longrightarrow> txn_UpdateStatus repo w k st = (None, w') \<Longrightarrow> txn_GetByID repo w' k = Inr t' \<Longrightarrow>
        \<exists>t. txn_GetByID repo w k = Inr t \<and> tx_Status t' = st \<and>
            tx_SourceAccount t' = tx_SourceAccount t \<and> tx_DestAccount t' = tx_DestAccount t \<and> tx_Amount t' = tx_Amount t"
    and update_other: "txn_UpdateStatus repo w k st = (e, w') \<Longrightarrow> j \<noteq> k \<Longrightarrow> txn_GetByID repo w' j = txn_GetByID repo w j"
    and get_id: "inv w \<Longrightarrow> txn_GetByID repo w k = Inr t \<Longrightarrow> tx_ID t = k"
begin

text \<open>A pending transaction that is then marked failed reads as failed, on its own accounts.\<close>

lemma save_then_update:
  assumes "inv w" "txn_Save repo w t = (None, w1)" "txn_UpdateStatus repo w1 (tx_ID t) st = (None, w2)"
    "txn_GetByID repo w2 (tx_ID t) = Inr t'"
  shows "tx_ID t' = tx_ID t \<and> tx_Status t' = st \<and> tx_SourceAccount t' = tx_SourceAccount t \<and>
    tx_DestAccount t' = tx_DestAccount t"
proof -
  have i1: "inv w1" using save_inv [OF assms(1,2)] .
  have i2: "inv w2" using update_inv [OF i1 assms(3)] .
  obtain t1 where t1: "txn_GetByID repo w1 (tx_ID t) = Inr t1" "tx_Status t' = st"
    "tx_SourceAccount t' = tx_SourceAccount t1" "tx_DestAccount t' = tx_DestAccount t1"
    using update_get [OF i1 assms(3,4)] by blast
  from save_get [OF assms(1,2) t1(1)] t1 get_id [OF i2 assms(4)] show ?thesis by simp
qed

end

definition mem_inv :: "('r, 'b) world \<Rightarrow> bool" where
  "mem_inv w \<longleftrightarrow> (\<forall>k t. mem_txs w k = Some t \<longrightarrow> tx_ID t = k)"

interpretation mem_tx: tx_repository mem_tx_repo mem_inv
  by unfold_locales (auto simp: repo_defs mem_inv_def split: option.splits if_splits)

lemma pg_tx_GetByID_Inr:
  "pg_tx_GetByID orc r w k = Inr t \<longleftrightarrow>
     fault orc RepoGet = None \<and> select_transaction (db_of (pg_replica r) w) k = Some t"
  by (auto simp: pg_tx_GetByID_def query_row_def split: option.splits if_splits)

lemma pg_tx_GetByID_cong:
  "transactions (db_of (pg_replica r) w') k = transactions (db_of (pg_replica r) w) k \<Longrightarrow>
   pg_tx_GetByID orc r w' k = pg_tx_GetByID orc r w k"
  by (simp add: pg_tx_GetByID_def select_transaction_def)

lemma insert_transaction_other:
  "insert_transaction drv t d = Inr d' \<Longrightarrow> k \<noteq> tx_ID t \<Longrightarrow> transactions d' k = transactions d k"
  by (erule insert_transaction_Inr) (simp add: insert_row_Inr)

lemma insert_transaction_same:
  assumes "insert_transaction drv t d = Inr d'"
  obtains r where "transactions d' (tx_ID t) = Some r" "row_status r = tx_Status t"
    "row_source r = tx_SourceAccount t" "row_dest r = tx_DestAccount t"
  using assms by (elim insert_transaction_Inr) (metis insert_row_Inr(2) new_row_Inr(4-6) fun_upd_same)

lemma pg_tx_Save_iff:
  "pg_tx_Save drv orc r w t = (e, w') \<longleftrightarrow>
     (\<exists>d. autocommit orc RepoSave (db_of (pg_db r) w) (insert_transaction drv t (db_of (pg_db r) w)) = (e, d) \<and>
          w' = db_set (pg_db r) d w)"
  by (auto simp: pg_tx_Save_def split: prod.splits)

lemma pg_tx_UpdateStatus_iff:
  "pg_tx_UpdateStatus now orc r w k st = (e, w') \<longleftrightarrow>
     (\<exists>d. autocommit orc RepoUpdate (db_of (pg_db r) w) (update_status now st k (db_of (pg_db r) w)) = (e, d) \<and>
          w' = db_set (pg_db r) d w)"
  by (auto simp: pg_tx_UpdateStatus_def split: prod.splits)

lemma pg_tx_repo_sel [simp]:
  "txn_Save (pg_tx_repo drv now orc r) = pg_tx_Save drv orc r"
  "txn_GetByID (pg_tx_repo drv now orc r) = pg_tx_GetByID orc r"
  "txn_UpdateStatus (pg_tx_repo drv now orc r) = pg_tx_UpdateStatus now orc r"
  by (simp_all add: pg_tx_repo_def)

lemma pg_NewTransactionRepository_sel [simp]:
  "pg_db (pg_NewTransactionRepository c rep) = c"
  "pg_replica (pg_NewTransactionRepository c None) = c"
  "pg_replica (pg_NewTransactionRepository c (Some c')) = c'"
  by (simp_all add: pg_NewTransactionRepository_def)

lemma select_transaction_Some:
  "select_transaction d k = Some t \<Longrightarrow> \<exists>r. transactions d k = Some r \<and> tx_ID t = k \<and> tx_Status t = row_status r \<and>
     tx_SourceAccount t = row_source r \<and> tx_DestAccount t = row_dest r \<and> tx_Amount t = scan_float (row_amount r)"
  by (auto simp: select_transaction_def)

lemma update_status_same:
  "update_status now st k d = Inr d' \<Longrightarrow> transactions d' k = Some r' \<Longrightarrow>
   \<exists>r. transactions d k = Some r \<and> r' = r\<lparr>row_status := st, row_updated := now\<rparr>"
  by (auto simp: update_status_def split: option.splits if_splits)

text \<open>Without a replica the PostgreSQL repository keeps the contract, whatever fails.\<close>

interpretation pg_tx: tx_repository
  "pg_tx_repo drv now orc (pg_NewTransactionRepository PrimaryDB None)" "\<lambda>_. True"
  for drv now orc
proof (unfold_locales, simp_all only: pg_tx_repo_sel pg_tx_Save_iff pg_tx_UpdateStatus_iff
    pg_tx_GetByID_Inr pg_NewTransactionRepository_sel db_of_simps db_set_primary, goal_cases)
  case (1 w t w' t')
  then show ?case
    by (auto simp: autocommit_None dest!: select_transaction_Some elim: insert_transaction_same)
next
  case (2 w t e w' k)
  then show ?case
    by (elim exE conjE, intro pg_tx_GetByID_cong)
       (auto dest!: autocommit_cases dest: insert_transaction_other)
next
  case (3 w k st w' t')
  then obtain d where u: "update_status now st k (primary w) = Inr d"
    and w': "w' = w\<lparr>primary := d\<rparr>" and g: "fault orc RepoGet = None" "select_transaction d k = Some t'"
    by (auto simp: autocommit_None)
  from g(2) obtain r' where r': "transactions d k = Some r'" by (auto simp: select_transaction_def)
  with u obtain r where "transactions (primary w) k = Some r" "r' = r\<lparr>row_status := st, row_updated := now\<rparr>"
    using update_status_same by blast
  with g r' show ?case by (auto simp: select_transaction_def)
next
  case (4 w k st e w' j)
  then show ?case
    by (elim exE conjE, intro pg_tx_GetByID_cong)
       (auto dest!: autocommit_cases dest: update_status_frame(3))
next
  case (5 w k t)
  then show ?case by (auto dest: select_transaction_Some)
qed

end
