(* ===== verification/Cache.thy ===== *)
theory Cache
  imports Repos
begin

text \<open>
  The cache-aside layer on Redis. Redis is a service outside the repository, so its client
  is a parameter; the locales state what the code relies on: a \<open>GET\<close> returns only what
  some \<open>SET\<close> stored and nothing deleted since (\<open>redis_service\<close>, true of a server that
  loses, evicts or expires entries at will), and, on a reachable server, that \<open>DEL\<close>
  removes and \<open>SET\<close> stores (\<open>redis_up\<close>), and, as time passes, that an entry is gone when its
  expiration is over (\<open>redis_expiring\<close>). The keyed store with expiry at the end of the
  theory satisfies them.
\<close>

section \<open>Keys\<close>

definition balance_key :: "int64 \<Rightarrow> string" where
  "balance_key i = ''balance:'' @ fmt_d (sint i)"

definition tx_status_key :: "string \<Rightarrow> string" where
  "tx_status_key k = ''tx_status:'' @ k"

lemma balance_key_inj [simp]: "balance_key i = balance_key j \<longleftrightarrow> i = j"
  by (auto simp: balance_key_def intro: signed_word_eqI)

lemma tx_status_key_inj [simp]: "tx_status_key i = tx_status_key j \<longleftrightarrow> i = j"
  by (simp add: tx_status_key_def)

lemma keys_disjoint [simp]: "balance_key i \<noteq> tx_status_key k" "tx_status_key k \<noteq> balance_key i"
  by (simp_all add: balance_key_def tx_status_key_def)

section \<open>What the code relies on\<close>

text \<open>Every entry the client can read satisfies \<open>P\<close>.\<close>

definition cached_sat :: "'r redis_client \<Rightarrow> (string \<Rightarrow> bytes \<Rightarrow> bool) \<Rightarrow> 'r \<Rightarrow> bool" where
  "cached_sat cl P r \<longleftrightarrow> (\<forall>k b. redis_Get cl r k = Inr b \<longrightarrow> P k b)"

locale redis_service =
  fixes cl :: "'r redis_client"
  assumes get_set: "redis_Get cl (redis_Set cl r k v ttl) j = Inr b \<Longrightarrow>
      (j = k \<and> b = Some v) \<or> redis_Get cl r j = Inr b"
    and get_del: "redis_Get cl (redis_Del cl r ks) j = Inr b \<Longrightarrow> redis_Get cl r j = Inr b"
begin

lemma set_sat: "cached_sat cl P r \<Longrightarrow> P k (Some v) \<Longrightarrow> cached_sat cl P (redis_Set cl r k v ttl)"
  unfolding cached_sat_def by (metis get_set)

lemma del_sat: "cached_sat cl P r \<Longrightarrow> cached_sat cl P (redis_Del cl r ks)"
  unfolding cached_sat_def by (metis get_del)

end

locale redis_up = redis_service cl
  for cl :: "'r redis_client" +
  fixes up :: "'r \<Rightarrow> bool"
  assumes del_gone: "up r \<Longrightarrow> j \<in> set ks \<Longrightarrow> redis_Get cl (redis_Del cl r ks) j \<noteq> Inr b"
    and set_there: "up r \<Longrightarrow> 0 < ttl \<Longrightarrow> redis_Get cl (redis_Set cl r k v ttl) k = Inr (Some v)"
    and up_set: "up r \<Longrightarrow> up (redis_Set cl r k v ttl)"
    and up_del: "up r \<Longrightarrow> up (redis_Del cl r ks)"
begin

text \<open>Deleting the keys whose entries went stale restores a property of the cache.\<close>

lemma del_sat_weaken:
  assumes "up r" "cached_sat cl P r" "\<And>k b. k \<notin> set ks \<Longrightarrow> P k b \<Longrightarrow> Q k b"
  shows "cached_sat cl Q (redis_Del cl r ks)"
  unfolding cached_sat_def
proof (intro allI impI)
  fix k b assume g: "redis_Get cl (redis_Del cl r ks) k = Inr b"
  then have "k \<notin> set ks" using del_gone [OF assms(1)] by blast
  moreover have "P k b" using get_del [OF g] assms(2) by (simp add: cached_sat_def)
  ultimately show "Q k b" by (rule assms(3))
qed

end

section \<open>Redis with expiry\<close>

text \<open>
  \<open>expires_in r k x\<close>: the entry of \<open>k\<close> expires in at most \<open>x\<close>; \<open>elapse dt r\<close>: the server \<open>dt\<close> later.
  An entry that is written with an expiration expires by it; nothing else prolongs an entry.
\<close>

locale redis_expiring = redis_service cl
  for cl :: "'r redis_client" +
  fixes expires_in :: "'r \<Rightarrow> string \<Rightarrow> duration \<Rightarrow> bool"
    and elapse :: "duration \<Rightarrow> 'r \<Rightarrow> 'r"
  assumes set_own: "redis_Get cl (redis_Set cl r k v ttl) k = Inr b \<Longrightarrow>
      b = Some v \<and> (0 < ttl \<longrightarrow> expires_in (redis_Set cl r k v ttl) k ttl) \<or>
      redis_Get cl r k = Inr b \<and> (\<forall>x. expires_in r k x \<longrightarrow> expires_in (redis_Set cl r k v ttl) k x)"
    and set_other: "j \<noteq> k \<Longrightarrow> expires_in r j x \<Longrightarrow> expires_in (redis_Set cl r k v ttl) j x"
    and del_expires: "expires_in r j x \<Longrightarrow> expires_in (redis_Del cl r ks) j x"
    and elapse_get: "redis_Get cl (elapse dt r) j = Inr b \<Longrightarrow> redis_Get cl r j = Inr b"
    and elapse_expires: "expires_in r j x \<Longrightarrow> expires_in (elapse dt r) j (x - dt)"
    and expires_mono: "expires_in r j x \<Longrightarrow> x \<le> y \<Longrightarrow> expires_in r j y"
    and expired: "expires_in r j x \<Longrightarrow> x \<le> 0 \<Longrightarrow> redis_Get cl r j \<noteq> Inr b"

section \<open>Invalidation\<close>

text \<open>The same function, once for the service and once for the worker.\<close>

definition invalidateBalanceCache ::
  "'r redis_client option \<Rightarrow> int64 list \<Rightarrow> ('r, 'b) world \<Rightarrow> ('r, 'b) world" where
  "invalidateBalanceCache rc ids w =
     (case rc of None \<Rightarrow> w | Some c \<Rightarrow> w\<lparr>kv := redis_Del c (kv w) (map balance_key ids)\<rparr>)"

lemma invalidateBalanceCache_frame [simp]:
  "primary (invalidateBalanceCache rc ids w) = primary w"
  "standby (invalidateBalanceCache rc ids w) = standby w"
  "broker (invalidateBalanceCache rc ids w) = broker w"
  "mem_txs (invalidateBalanceCache rc ids w) = mem_txs w"
  "mem_accounts (invalidateBalanceCache rc ids w) = mem_accounts w"
  "txCounter (invalidateBalanceCache rc ids w) = txCounter w"
  "event (invalidateBalanceCache rc ids w) = event w"
  by (simp_all add: invalidateBalanceCache_def split: option.splits)

section \<open>A keyed store with expiry\<close>

text \<open>
  A store that keeps the contract: entries with an optional expiry time, a clock, and a
  flag for an unreachable server. An expiration of zero means none.
\<close>

record keyed_store =
  ks_entries :: "string \<rightharpoonup> bytes \<times> gotime option"
  ks_clock :: gotime
  ks_down :: bool

definition ks_get :: "keyed_store \<Rightarrow> string \<Rightarrow> err + bytes" where
  "ks_get s k =
     (if ks_down s then Inl (ErrExt ''connection refused'')
      else case ks_entries s k of
             None \<Rightarrow> Inl (ErrExt ''redis: nil'')
           | Some (b, None) \<Rightarrow> Inr b
           | Some (b, Some ex) \<Rightarrow> if ks_clock s < ex then Inr b else Inl (ErrExt ''redis: nil''))"

definition ks_set :: "keyed_store \<Rightarrow> string \<Rightarrow> json \<Rightarrow> duration \<Rightarrow> keyed_store" where
  "ks_set s k v ttl =
     (if ks_down s then s
      else s\<lparr>ks_entries := (ks_entries s)(k \<mapsto> (Some v, if ttl = 0 then None else Some (ks_clock s + ttl)))\<rparr>)"

definition ks_del :: "keyed_store \<Rightarrow> string list \<Rightarrow> keyed_store" where
  "ks_del s ks =
     (if ks_down s then s else s\<lparr>ks_entries := (\<lambda>k. if k \<in> set ks then None else ks_entries s k)\<rparr>)"

definition ks_client :: "keyed_store redis_client" where
  "ks_client = \<lparr>redis_Get = ks_get, redis_Set = ks_set, redis_Del = ks_del\<rparr>"

lemmas ks_defs = ks_client_def ks_get_def ks_set_def ks_del_def

interpretation ks: redis_up ks_client "\<lambda>s. \<not> ks_down s"
  by unfold_locales (auto simp: ks_defs split: if_splits option.splits)

definition ks_expires_in :: "keyed_store \<Rightarrow> string \<Rightarrow> duration \<Rightarrow> bool" where
  "ks_expires_in s k x \<longleftrightarrow>
     (case ks_entries s k of
        None \<Rightarrow> True
      | Some (_, None) \<Rightarrow> False
      | Some (_, Some ex) \<Rightarrow> ex \<le> ks_clock s + x)"

definition ks_elapse :: "duration \<Rightarrow> keyed_store \<Rightarrow> keyed_store" where
  "ks_elapse dt s = s\<lparr>ks_clock := ks_clock s + max 0 dt\<rparr>"

interpretation kx: redis_expiring ks_client ks_expires_in ks_elapse
  by unfold_locales (auto simp: ks_defs ks_expires_in_def ks_elapse_def split: if_splits option.splits)

end
