(* ===== verification/Samples.thy ===== *)
theory Samples
  imports Cache
begin

text \<open>
  A small concrete bank at which the theorems are instantiated: two funded accounts, an
  empty table of transactions, the keyed store as the cache, and a broker that is the list
  of published messages. The driver writes a float as the number it is.
\<close>

definition drv0 :: driver where
  "drv0 = \<lparr>sql_num = (\<lambda>x. x), sql_time = (\<lambda>t. t)\<rparr>"

definition orc0 :: outcomes where
  "orc0 = \<lparr>fault = (\<lambda>_. None), applied = (\<lambda>_. True)\<rparr>"

definition call0 :: db_call where
  "call0 = \<lparr>dc_drv = drv0, dc_orc = orc0, dc_now = 7\<rparr>"

definition db0 :: database where
  "db0 = \<lparr>accounts = [1001 \<mapsto> \<lparr>row_name = ''A'', row_balance = 10000, row_updated_at = 0\<rparr>,
                       1002 \<mapsto> \<lparr>row_name = ''B'', row_balance = 500, row_updated_at = 0\<rparr>],
          transactions = Map.empty\<rparr>"

definition store0 :: keyed_store where
  "store0 = \<lparr>ks_entries = Map.empty, ks_clock = 0, ks_down = False\<rparr>"

definition world0 :: "(keyed_store, (string \<times> json) list) world" where
  "world0 = \<lparr>primary = db0, standby = db0, kv = store0, broker = [], mem_accounts = Map.empty,
     mem_txs = Map.empty, txCounter = 0, event = Some Map.empty, cache_hits = (\<lambda>_. 0), cache_misses = (\<lambda>_. 0)\<rparr>"

definition pub0 :: "(string \<times> json) list publisher" where
  "pub0 b q body = (None, b @ [(q, body)])"

text \<open>The account 1001 pays 50.00 to the account 1002.\<close>

definition tx0 :: Transaction where
  "tx0 = \<lparr>tx_ID = ''txn1'', tx_SourceAccount = 1001, tx_DestAccount = 1002, tx_Amount = 50,
     tx_Status = '''', tx_CreatedAt = 1, tx_UpdatedAt = 1\<rparr>"

definition msg0 :: TxMessage where
  "msg0 = \<lparr>msg_TXID = ''txn1'', msg_SourceAccount = 1001, msg_DestAccount = 1002, msg_Amount = 50\<rparr>"

lemmas sample_defs = drv0_def orc0_def call0_def db0_def store0_def world0_def pub0_def tx0_def msg0_def

lemma sample_scan [simp]:
  "scan_float 5000 = 50" "scan_float 10000 = 100" "scan_float 500 = 5" "scan_float 5500 = 55"
  by (simp_all add: scan_eval)

lemma sample_sel [simp]:
  "sql_num drv0 x = x" "sql_time drv0 t = t" "fault orc0 st = None" "applied orc0 st"
  "dc_drv call0 = drv0" "dc_orc call0 = orc0" "dc_now call0 = 7"
  "primary world0 = db0" "standby world0 = db0" "kv world0 = store0" "broker world0 = []"
  "mem_accounts world0 = Map.empty" "mem_txs world0 = Map.empty" "txCounter world0 = 0"
  "tx_ID tx0 = ''txn1''" "tx_SourceAccount tx0 = 1001" "tx_DestAccount tx0 = 1002" "tx_Amount tx0 = 50"
  "msg_TXID msg0 = ''txn1''" "msg_SourceAccount msg0 = 1001" "msg_DestAccount msg0 = 1002" "msg_Amount msg0 = 50"
  "transactions db0 = Map.empty" "\<not> ks_down store0"
  by (simp_all add: sample_defs)

lemma sample_balances [simp]: "balance_of db0 = [1001 \<mapsto> 10000, 1002 \<mapsto> 500]"
  by (simp add: balance_of_def db0_def fun_eq_iff)

lemma sample_cents [simp]: "numeric_val 5000 = 50"
  by (simp add: numeric_val_def)

lemma sample_numeric [simp]: "numeric_18_2 50 = Some 5000"
  using numeric_18_2_whole [of 5000] by simp

lemma sample_exact [simp]: "5000 < exact_cents"
  by (simp add: exact_cents_def)

lemma sample_accounts [simp]: "dom (accounts db0) = {1001, 1002}"
  by (auto simp: db0_def split: if_splits)

lemma sample_unknown [simp]: "accounts db0 i = None \<longleftrightarrow> i \<noteq> 1001 \<and> i \<noteq> 1002"
  by (auto simp: db0_def)

lemma sample_money: "money db0 = 10500"
  by (simp add: money_def db0_def msum_insert)

lemma sample_ok: "db_ok db0"
  by (auto simp: db_ok_def db0_def split: if_splits)

lemma sample_solvent: "solvent (balance_of db0)"
  by (auto simp: solvent_def balance_of_def db0_def split: if_splits)

lemmas statement_defs [sql_defs] = select_balance_for_update_def balance_of_def select_account_exists_def
  update_debit_def update_credit_def update_balance_def upsert_transaction_def insert_transaction_def
  new_row_def insert_row_def update_status_def
  StatusCompleted_def StatusPending_def StatusFailed_def

end
