(* ===== verification/AccountService.thy ===== *)
theory AccountService
  imports Samples
begin

text \<open>
  Balance inquiry, \<open>internal/service/account.go\<close>: read the cache, on a miss read the
  repository and fill the cache. The theorems compare it with reading the repository
  directly.
\<close>

section \<open>The service\<close>

record ('r, 'b) accountService =
  as_repo :: "('r, 'b) world account_repository"
  as_redis :: "'r redis_client option"
  as_balanceTTL :: duration

definition NewAccountService ::
  "('r, 'b) world account_repository \<Rightarrow> 'r redis_client option \<Rightarrow> duration \<Rightarrow> ('r, 'b) accountService" where
  "NewAccountService repo rdb ttl = \<lparr>as_repo = repo, as_redis = rdb, as_balanceTTL = ttl\<rparr>"

text \<open>The cached account, when Redis is configured, reachable, holds the key and the value decodes.\<close>

definition cached_account :: "'r redis_client option \<Rightarrow> int64 \<Rightarrow> 'r \<Rightarrow> Account option" where
  "cached_account rc i r =
     (case rc of
        None \<Rightarrow> None
      | Some c \<Rightarrow> (case redis_Get c r (balance_key i) of Inl _ \<Rightarrow> None | Inr b \<Rightarrow> unmarshal_Account b))"

definition GetBalance :: "('r, 'b) accountService \<Rightarrow> int64 \<Rightarrow> ('r, 'b) world \<Rightarrow> (err + Account) \<times> ('r, 'b) world" where
  "GetBalance s i w0 =
     (let w1 = log_set ''account_id'' (LInt i) w0
      in case cached_account (as_redis s) i (kv w1) of
           Some acc \<Rightarrow>
             (Inr acc, CacheHits_Inc ''balance''
                (log_set ''account_balance'' (LFloat (acc_Balance acc)) (log_set ''cache_hit'' (LBool True) w1)))
         | None \<Rightarrow>
             (let w2 = (case as_redis s of
                          None \<Rightarrow> w1
                        | Some _ \<Rightarrow> log_set ''cache_hit'' (LBool False) (CacheMisses_Inc ''balance'' w1))
              in case acct_GetByID (as_repo s) w2 i of
                   Inl e \<Rightarrow> (Inl e, log_set ''account_error'' (LStr (Error e)) w2)
                 | Inr acc \<Rightarrow>
                     (let w3 = (case as_redis s of
                                  None \<Rightarrow> w2
                                | Some c \<Rightarrow>
                                    (case marshal_Account acc of
                                       None \<Rightarrow> w2
                                     | Some data \<Rightarrow>
                                         w2\<lparr>kv := redis_Set c (kv w2) (balance_key i) data (as_balanceTTL s)\<rparr>))
                      in (Inr acc, log_set ''account_balance'' (LFloat (acc_Balance acc)) w3))))"

lemma GetBalance_frame:
  "primary (snd (GetBalance s i w)) = primary w"
  "standby (snd (GetBalance s i w)) = standby w"
  "mem_accounts (snd (GetBalance s i w)) = mem_accounts w"
  "mem_txs (snd (GetBalance s i w)) = mem_txs w"
  "broker (snd (GetBalance s i w)) = broker w"
  "txCounter (snd (GetBalance s i w)) = txCounter w"
  by (simp_all add: GetBalance_def Let_def split: option.split sum.split)

section \<open>Reading accounts\<close>

text \<open>A repository read depends on the stored accounts only, not on the cache or the log.\<close>

locale account_reader =
  fixes repo :: "('r, 'b) world account_repository"
  assumes read_frame: "primary w' = primary w \<Longrightarrow> standby w' = standby w \<Longrightarrow> mem_accounts w' = mem_accounts w \<Longrightarrow>
      acct_GetByID repo w' i = acct_GetByID repo w i"

interpretation mem_acct: account_reader mem_account_repo
  by unfold_locales (simp add: repo_defs)

interpretation pg_acct: account_reader "pg_account_repo orc r" for orc r
  by unfold_locales (cases "pg_replica r"; simp add: repo_defs)

text \<open>
  The cache agrees with the repository: a decodable entry under a balance key is the
  account the repository would return.
\<close>

definition balance_agrees :: "(int64 \<Rightarrow> err + Account) \<Rightarrow> string \<Rightarrow> bytes \<Rightarrow> bool" where
  "balance_agrees get k b \<longleftrightarrow>
     (\<forall>i a. k = balance_key i \<longrightarrow> unmarshal_Account b = Some a \<longrightarrow> get i = Inr a)"

definition balance_coherent ::
  "'r redis_client \<Rightarrow> ('r, 'b) world account_repository \<Rightarrow> ('r, 'b) world \<Rightarrow> bool" where
  "balance_coherent cl repo w \<longleftrightarrow> cached_sat cl (balance_agrees (acct_GetByID repo w)) (kv w)"

lemma cached_account_agrees:
  "balance_coherent cl repo w \<Longrightarrow> cached_account (Some cl) i (kv w) = Some a \<Longrightarrow> acct_GetByID repo w i = Inr a"
  by (auto simp: balance_coherent_def cached_sat_def balance_agrees_def cached_account_def split: sum.splits)

context account_reader
begin

lemma read_log [simp]: "acct_GetByID repo (log_set k v w) i = acct_GetByID repo w i"
  by (rule read_frame) simp_all

lemma read_miss [simp]: "acct_GetByID repo (CacheMisses_Inc l w) i = acct_GetByID repo w i"
  by (rule read_frame) simp_all

lemma read_kv [simp]: "acct_GetByID repo (w\<lparr>kv := r\<rparr>) i = acct_GetByID repo w i"
  by (rule read_frame) simp_all

lemma GetBalance_uncached:
  "fst (GetBalance \<lparr>as_repo = repo, as_redis = None, as_balanceTTL = ttl\<rparr> i w) = acct_GetByID repo w i"
  by (simp add: GetBalance_def Let_def cached_account_def split: sum.splits)

lemma GetBalance_coherent:
  assumes "balance_coherent cl repo w"
  shows "fst (GetBalance \<lparr>as_repo = repo, as_redis = Some cl, as_balanceTTL = ttl\<rparr> i w) = acct_GetByID repo w i"
  using cached_account_agrees [OF assms, of i]
  by (auto simp: GetBalance_def Let_def split: option.splits sum.splits)

lemma GetBalance_kv:
  "kv (snd (GetBalance \<lparr>as_repo = repo, as_redis = Some cl, as_balanceTTL = ttl\<rparr> i w)) = kv w \<or>
   (\<exists>a data. acct_GetByID repo w i = Inr a \<and> marshal_Account a = Some data \<and>
      kv (snd (GetBalance \<lparr>as_repo = repo, as_redis = Some cl, as_balanceTTL = ttl\<rparr> i w))
        = redis_Set cl (kv w) (balance_key i) data ttl)"
  by (simp add: GetBalance_def Let_def split: option.split sum.split)

lemma GetBalance_keeps_coherent:
  assumes "redis_service cl" "balance_coherent cl repo w"
  shows "balance_coherent cl repo (snd (GetBalance \<lparr>as_repo = repo, as_redis = Some cl, as_balanceTTL = ttl\<rparr> i w))"
proof -
  let ?w' = "snd (GetBalance \<lparr>as_repo = repo, as_redis = Some cl, as_balanceTTL = ttl\<rparr> i w)"
  let ?P = "balance_agrees (acct_GetByID repo w)"
  have read: "acct_GetByID repo ?w' = acct_GetByID repo w"
    by (rule ext, rule read_frame) (rule GetBalance_frame)+
  have old: "cached_sat cl ?P (kv w)" using assms(2) by (simp add: balance_coherent_def)
  have "cached_sat cl ?P (redis_Set cl (kv w) (balance_key i) data ttl)"
    if "acct_GetByID repo w i = Inr a" "marshal_Account a = Some data" for a data
    using assms(1) old that unmarshal_marshal_Account [OF that(2)]
    by (intro redis_service.set_sat) (auto simp: balance_agrees_def)
  with old GetBalance_kv [of cl ttl i w] have "cached_sat cl ?P (kv ?w')" by auto
  then show ?thesis by (simp add: balance_coherent_def read)
qed

end

end
