(* ===== verification/TxId.thy ===== *)
theory TxId
  imports Strconv "HOL-Library.List_Lexorder" "HOL-Library.Char_ord"
begin

text \<open>
  Transaction identifiers: \<open>nextTransactionID\<close> of \<open>internal/service/transaction.go\<close>. The
  function loops around a compare-and-swap on the process-wide counter, so it is modelled
  twice: as one atomic update (\<open>nextTransactionID\<close>, what an iteration that wins its swap
  does) and as a step relation in which any number of goroutines load the counter and try
  the swap in any order (\<open>id_step\<close>). The relation keeps the identifiers it returned.
\<close>

section \<open>One iteration\<close>

definition next_value :: "int64 \<Rightarrow> int64 \<Rightarrow> int64" where
  "next_value now prev = (if sint now \<le> sint prev then prev + 1 else now)"

definition txn_id :: "int64 \<Rightarrow> string" where
  "txn_id n = ''txn'' @ fmt_0d 22 (sint n)"

definition nextTransactionID :: "int64 \<Rightarrow> int64 \<Rightarrow> string \<times> int64" where
  "nextTransactionID now prev = (let n = next_value now prev in (txn_id n, n))"

lemma txn_id_inj [simp]: "txn_id m = txn_id n \<longleftrightarrow> m = n"
  by (auto simp: txn_id_def intro: signed_word_eqI)

lemma length_txn_id: "length (txn_id n) = 25"
proof -
  have "nat \<bar>sint n\<bar> \<le> 2 ^ 63" using int64_sint_lt [of n] int64_sint_ge [of n] by (simp add: nat_le_iff abs_le_iff)
  then have "nat \<bar>sint n\<bar> < 10 ^ Suc 20" by simp
  then have "length (fmt_0d (Suc (Suc 20)) (sint n)) = Suc (Suc 20)" by (rule fmt_0d_length)
  then show ?thesis by (simp add: txn_id_def)
qed

lemma next_value_gt:
  assumes "sint prev < 2 ^ 63 - 1"
  shows "sint prev < sint (next_value now prev)"
  using int64_succ [OF assms] by (simp add: next_value_def)

lemma next_value_ge_now:
  assumes "sint prev < 2 ^ 63 - 1"
  shows "sint now \<le> sint (next_value now prev)"
  using int64_succ [OF assms] by (simp add: next_value_def)

lemma next_value_le:
  assumes "sint prev < 2 ^ 63 - 1" "sint prev \<le> B + k" "sint now \<le> B" "0 \<le> k"
  shows "sint (next_value now prev) \<le> B + k + 1"
  using assms int64_succ [OF assms(1)] by (simp add: next_value_def)

section \<open>Interleaved callers\<close>

datatype id_pc = Idle | Loaded int64 int64

record id_state =
  counter :: int64
  pcs :: "nat \<Rightarrow> id_pc"
  issued :: "int64 list"

definition id_init :: id_state where
  "id_init = \<lparr>counter = 0, pcs = (\<lambda>_. Idle), issued = []\<rparr>"

text \<open>\<open>B\<close> bounds the clock readings of the run.\<close>

inductive id_step :: "int \<Rightarrow> id_state \<Rightarrow> id_state \<Rightarrow> bool" for B where
  load: "pcs s i = Idle \<Longrightarrow> sint now \<le> B \<Longrightarrow>
     id_step B s (s\<lparr>pcs := (pcs s)(i := Loaded (counter s) (next_value now (counter s)))\<rparr>)"
| cas_ok: "pcs s i = Loaded prev nx \<Longrightarrow> counter s = prev \<Longrightarrow>
     id_step B s (s\<lparr>counter := nx, pcs := (pcs s)(i := Idle), issued := nx # issued s\<rparr>)"
| cas_fail: "pcs s i = Loaded prev nx \<Longrightarrow> counter s \<noteq> prev \<Longrightarrow>
     id_step B s (s\<lparr>pcs := (pcs s)(i := Idle)\<rparr>)"

inductive id_reach :: "int \<Rightarrow> id_state \<Rightarrow> bool" for B where
  id_start: "id_reach B id_init"
| id_more: "id_reach B s \<Longrightarrow> id_step B s t \<Longrightarrow> id_reach B t"

inductive_cases id_step_cases: "id_step B s t"

text \<open>
  While the clock and the number of identifiers leave room below \<open>2 ^ 63\<close>: the counter is the
  newest identifier, the identifiers decrease strictly from it, and a loaded successor is
  above the value it was computed from.
\<close>

definition id_inv :: "int \<Rightarrow> id_state \<Rightarrow> bool" where
  "id_inv B s \<longleftrightarrow>
     sint (counter s) \<le> B + int (length (issued s)) \<and> 0 \<le> sint (counter s) \<and>
     sorted_wrt (\<lambda>a b. sint b < sint a) (issued s) \<and>
     (\<forall>n \<in> set (issued s). 0 \<le> sint n \<and> sint n \<le> sint (counter s)) \<and>
     (\<forall>i prev nx. pcs s i = Loaded prev nx \<longrightarrow>
        sint prev \<le> sint (counter s) \<and> sint prev < sint nx \<and>
        sint nx \<le> B + int (length (issued s)) + 1)"

lemma id_inv_init: "0 \<le> B \<Longrightarrow> id_inv B id_init"
  by (simp add: id_inv_def id_init_def)

lemma id_inv_load:
  assumes "id_inv B s" "sint now \<le> B" "B + int (length (issued s)) < 2 ^ 63 - 1"
  shows "id_inv B (s\<lparr>pcs := (pcs s)(i := Loaded (counter s) (next_value now (counter s)))\<rparr>)"
proof -
  have lt: "sint (counter s) < 2 ^ 63 - 1" using assms by (simp add: id_inv_def)
  have "sint (counter s) < sint (next_value now (counter s))" by (rule next_value_gt [OF lt])
  moreover have "sint (next_value now (counter s)) \<le> B + int (length (issued s)) + 1"
    using assms by (intro next_value_le [OF lt]) (simp_all add: id_inv_def)
  ultimately show ?thesis using assms(1) by (auto simp: id_inv_def)
qed

lemma id_inv_cas:
  assumes "id_inv B s" "pcs s i = Loaded (counter s) next"
  shows "id_inv B (s\<lparr>counter := next, pcs := (pcs s)(i := Idle), issued := next # issued s\<rparr>)"
proof -
  have n: "sint (counter s) < sint next" "sint next \<le> B + int (length (issued s)) + 1" "0 \<le> sint (counter s)"
    using assms by (auto simp: id_inv_def)
  moreover have "sint m < sint next" if "m \<in> set (issued s)" for m
    using n(1) that assms(1) by (force simp: id_inv_def)
  moreover have "sint prev \<le> sint next \<and> sint prev < sint nx \<and> sint nx \<le> B + int (length (issued s)) + 2"
    if "pcs s j = Loaded prev nx" for j prev nx
    using n(1) that assms(1) by (force simp: id_inv_def)
  ultimately show ?thesis using assms(1) by (fastforce simp: id_inv_def less_imp_le)
qed

lemma id_step_issued: "id_step B s t \<Longrightarrow> length (issued s) \<le> length (issued t)"
  by (erule id_step_cases) simp_all

lemma id_step_inv:
  assumes "id_step B s t" "id_inv B s" "B + int (length (issued t)) < 2 ^ 63 - 1"
  shows "id_inv B t"
  using assms(1)
proof (cases rule: id_step.cases)
  case (load i now)
  with assms show ?thesis by (auto intro: id_inv_load)
next
  case (cas_ok i prev nx)
  with assms show ?thesis by (auto intro: id_inv_cas)
next
  case (cas_fail i prev nx)
  with assms show ?thesis by (auto simp: id_inv_def)
qed

lemma id_reach_inv:
  assumes "id_reach B s" "0 \<le> B" "B + int (length (issued s)) < 2 ^ 63 - 1"
  shows "id_inv B s"
  using assms
proof (induction rule: id_reach.induct)
  case id_start
  then show ?case by (simp add: id_inv_init)
next
  case (id_more s t)
  have "B + int (length (issued s)) < 2 ^ 63 - 1"
    using id_step_issued [OF id_more.hyps(2)] id_more.prems by linarith
  with id_more show ?case by (blast intro: id_step_inv)
qed

lemma sorted_wrt_greater_distinct: "sorted_wrt (\<lambda>a b. sint b < sint a) (ns :: int64 list) \<Longrightarrow> distinct ns"
  by (induction ns) auto

text \<open>A goroutine whose swap meets no interference makes one call of the atomic function.\<close>

lemma id_uncontended:
  assumes "pcs s i = Idle" "sint now \<le> B" "nextTransactionID now (counter s) = (k, n)"
  shows "(id_step B)\<^sup>*\<^sup>* s (s\<lparr>counter := n, pcs := (pcs s)(i := Idle), issued := n # issued s\<rparr>) \<and> k = txn_id n"
proof -
  have n: "n = next_value now (counter s)" "k = txn_id n"
    using assms(3) by (auto simp: nextTransactionID_def Let_def)
  let ?s1 = "s\<lparr>pcs := (pcs s)(i := Loaded (counter s) n)\<rparr>"
  have "id_step B s ?s1" using id_step.load [of s i now B] assms(1,2) n by simp
  moreover have "id_step B ?s1 (?s1\<lparr>counter := n, pcs := (pcs ?s1)(i := Idle), issued := n # issued ?s1\<rparr>)"
    by (rule id_step.cas_ok [of ?s1 i "counter s"]) simp_all
  ultimately show ?thesis using n(2) by (simp add: converse_rtranclp_into_rtranclp)
qed

section \<open>Order\<close>

text \<open>
  Go compares strings byte by byte. For digit strings of the same length that is the order of
  the numbers, so the padding to 22 digits makes the identifiers of non-negative counter
  values sort by value.
\<close>

lemma digit_less_char: "is_digit a \<Longrightarrow> is_digit b \<Longrightarrow> digit_val a < digit_val b \<longleftrightarrow> a < b"
  by (auto simp: digit_val_def is_digit_def less_char_def)

lemma undec_Cons: "undec (c # s) = digit_val c * 10 ^ length s + undec s"
proof (induction s rule: rev_induct)
  case (snoc x s)
  have "undec (c # s @ [x]) = 10 * undec (c # s) + digit_val x" using undec_snoc [of "c # s" x] by simp
  with snoc show ?case by (simp add: undec_snoc algebra_simps)
qed (simp add: undec_def)

lemma undec_bound: "list_all is_digit s \<Longrightarrow> undec s < 10 ^ length s"
proof (induction s)
  case (Cons c s)
  then have "digit_val c \<le> 9" "undec s < 10 ^ length s" by (auto simp: digit_val_def is_digit_def)
  then have "digit_val c * 10 ^ length s + undec s < 9 * 10 ^ length s + 10 ^ length s"
    by (intro add_le_less_mono mult_right_mono) simp_all
  then show ?case by (simp add: undec_Cons)
qed (simp add: undec_def)

lemma undec_less_iff:
  "length s = length t \<Longrightarrow> list_all is_digit s \<Longrightarrow> list_all is_digit t \<Longrightarrow> undec s < undec t \<longleftrightarrow> s < t"
proof (induction s t rule: list_induct2)
  case (Cons a s b t)
  note bd = undec_bound [of s] undec_bound [of t]
  have lt: "undec (x # u) < undec (y # v)"
    if "digit_val x < digit_val y" "length u = length v" "undec u < 10 ^ length u" for x y u v
  proof -
    have "digit_val x * 10 ^ length v + undec u < (digit_val x + 1) * 10 ^ length v" using that by simp
    also have "\<dots> \<le> digit_val y * 10 ^ length v" using that(1) by (intro mult_right_mono) simp_all
    finally show ?thesis using that(2) by (simp add: undec_Cons)
  qed
  consider "a < b" | "a = b" | "b < a" by fastforce
  then show ?case
  proof cases
    case 1
    with Cons digit_less_char [of a b] lt [of a b s t] bd show ?thesis by simp
  next
    case 2
    with Cons show ?thesis by (simp add: undec_Cons)
  next
    case 3
    with Cons digit_less_char [of b a] lt [of b a t s] bd show ?thesis by auto
  qed
qed simp

lemma pad0_digits: "list_all is_digit (pad0 w (dec n))"
  using dec_digits [of _ n] by (auto simp: pad0_def list_all_iff is_digit_def)

lemma txn_id_less:
  assumes "0 \<le> sint m" "0 \<le> sint n"
  shows "txn_id m < txn_id n \<longleftrightarrow> sint m < sint n"
proof -
  have len: "length (pad0 22 (dec (nat (sint k)))) = 22" for k :: int64
    using length_txn_id [of k] length_dec [of "nat (sint k)" 21] int64_sint_lt [of k]
    by (intro length_pad0) simp
  have "pad0 22 (dec (nat (sint m))) < pad0 22 (dec (nat (sint n))) \<longleftrightarrow> nat (sint m) < nat (sint n)"
    using undec_less_iff [OF _ pad0_digits pad0_digits, of 22 "nat (sint m)" 22 "nat (sint n)"] len by simp
  with assms show ?thesis by (auto simp: txn_id_def fmt_0d_def)
qed

section \<open>Uniqueness\<close>

text \<open>
  C9. No two calls return the same identifier, and identifiers sort in the order they were
  handed out: in every interleaving of any number of concurrent calls, while the clock and the
  number of identifiers stay below \<open>2 ^ 63 - 1\<close>, each identifier is greater, as a string, than
  every one returned before it, and is 25 characters long, so it fits the VARCHAR(26) key of
  the table.
\<close>

theorem ids_unique:
  assumes "id_reach B s" and "0 \<le> B" and "B + int (length (issued s)) < 2 ^ 63 - 1"
  shows "distinct (map txn_id (issued s)) \<and> sorted_wrt (>) (map txn_id (issued s)) \<and>
    list_all (\<lambda>k. length k = 25) (map txn_id (issued s))"
proof -
  note inv = id_reach_inv [OF assms, unfolded id_inv_def]
  have nn: "0 \<le> sint n" if "n \<in> set (issued s)" for n using inv that by blast
  have "sorted_wrt (\<lambda>a b. sint b < sint a) (issued s)" using inv by blast
  then have "sorted_wrt (\<lambda>a b. txn_id b < txn_id a) (issued s)"
    by (rule sorted_wrt_mono_rel [rotated]) (simp add: txn_id_less nn)
  moreover have "distinct (issued s)" using inv by (intro sorted_wrt_greater_distinct) simp
  moreover have "inj_on txn_id (set (issued s))" by (simp add: inj_on_def)
  ultimately show ?thesis by (simp add: sorted_wrt_map distinct_map list_all_iff length_txn_id)
qed

text \<open>Two callers at the same clock reading: the second swap fails once and then succeeds.\<close>

definition id_race :: id_state where
  "id_race = \<lparr>counter = 6, pcs = (\<lambda>_. Idle), issued = [6, 5]\<rparr>"

lemma id_race_reach: "id_reach 5 id_race"
proof -
  let ?l = "\<lambda>i s. s\<lparr>pcs := (pcs s)(i := Loaded (counter s) (next_value 5 (counter s)))\<rparr>"
  let ?s1 = "?l 0 id_init"
  let ?s2 = "?l 1 ?s1"
  let ?s3 = "?s2\<lparr>counter := 5, pcs := (pcs ?s2)(0 := Idle), issued := 5 # issued ?s2\<rparr>"
  let ?s4 = "?s3\<lparr>pcs := (pcs ?s3)(1 := Idle)\<rparr>"
  let ?s5 = "?l 1 ?s4"
  let ?s6 = "?s5\<lparr>counter := 6, pcs := (pcs ?s5)(1 := Idle), issued := 6 # issued ?s5\<rparr>"
  have "id_reach 5 ?s1" by (rule id_more [OF id_start], rule id_step.load) (simp_all add: id_init_def)
  then have "id_reach 5 ?s2" by (rule id_more, intro id_step.load) (simp_all add: id_init_def)
  then have "id_reach 5 ?s3"
    by (rule id_more, intro id_step.cas_ok [where prev = 0]) (simp_all add: id_init_def next_value_def)
  then have "id_reach 5 ?s4"
    by (rule id_more, intro id_step.cas_fail [where prev = 0 and nx = 5]) (simp_all add: id_init_def next_value_def)
  then have "id_reach 5 ?s5" by (rule id_more, intro id_step.load) (simp_all add: id_init_def)
  then have "id_reach 5 ?s6"
    by (rule id_more, intro id_step.cas_ok [where prev = 5]) (simp_all add: id_init_def next_value_def)
  moreover have "?s6 = id_race" by (simp add: id_race_def id_init_def fun_eq_iff)
  ultimately show ?thesis by simp
qed

theorem ids_unique_witness: "distinct (map txn_id [6, 5]) \<and> txn_id 5 < txn_id 6"
  using ids_unique [OF id_race_reach] by (simp add: id_race_def)

section \<open>Progress\<close>

text \<open>
  A run of \<open>n\<close> steps in which only the first \<open>N\<close> goroutines move. Every step that does not
  hand out an identifier lowers \<open>id_potential\<close>: a goroutine has at most to fail its swap, load
  again and swap. Only a successful swap can set the others back.
\<close>

inductive id_run :: "nat \<Rightarrow> int \<Rightarrow> nat \<Rightarrow> id_state \<Rightarrow> id_state \<Rightarrow> bool" for N B where
  id_run_refl: "id_run N B 0 s s"
| id_run_step: "id_run N B n s t \<Longrightarrow> id_step B t u \<Longrightarrow> (\<And>i. N \<le> i \<Longrightarrow> pcs u i = pcs t i) \<Longrightarrow>
     id_run N B (Suc n) s u"

fun pc_weight :: "int64 \<Rightarrow> id_pc \<Rightarrow> nat" where
  "pc_weight c Idle = 2"
| "pc_weight c (Loaded prev nx) = (if prev = c then 1 else 3)"

definition id_potential :: "nat \<Rightarrow> id_state \<Rightarrow> nat" where
  "id_potential N s = (\<Sum>i<N. pc_weight (counter s) (pcs s i))"

lemma pc_weight_bounds: "1 \<le> pc_weight c p" "pc_weight c p \<le> 3"
  by (cases p; simp)+

lemma id_potential_le: "id_potential N s \<le> 3 * N"
  using sum_bounded_above [of "{..<N}" "\<lambda>i. pc_weight (counter s) (pcs s i)" 3] pc_weight_bounds(2)
  by (simp add: id_potential_def mult.commute)

lemma id_potential_move:
  assumes "i < N" "counter t = counter s" "\<And>j. j \<noteq> i \<Longrightarrow> pcs t j = pcs s j"
    "pc_weight (counter s) (pcs s i) = Suc (pc_weight (counter s) (pcs t i))"
  shows "id_potential N s = Suc (id_potential N t)"
proof -
  have "(\<Sum>j \<in> {..<N} - {i}. pc_weight (counter t) (pcs t j)) = (\<Sum>j \<in> {..<N} - {i}. pc_weight (counter s) (pcs s j))"
    using assms(2,3) by (intro sum.cong) auto
  then show ?thesis
    using assms(1,2,4) by (simp add: id_potential_def sum.remove [of "{..<N}" i])
qed

lemma id_potential_swap:
  assumes "i < N" "pc_weight (counter s) (pcs s i) = 1" "pcs t i = Idle" "\<And>j. j \<noteq> i \<Longrightarrow> pcs t j = pcs s j"
  shows "Suc (id_potential N t) \<le> id_potential N s + 2 * N"
proof -
  have "pc_weight (counter t) (pcs t j) \<le> pc_weight (counter s) (pcs s j) + 2" for j
    using pc_weight_bounds(2) [of "counter t" "pcs t j"] pc_weight_bounds(1) [of "counter s" "pcs s j"] by linarith
  then have "(\<Sum>j \<in> {..<N} - {i}. pc_weight (counter t) (pcs t j)) \<le> (\<Sum>j \<in> {..<N} - {i}. pc_weight (counter s) (pcs s j) + 2)"
    by (intro sum_mono)
  also have "\<dots> = (\<Sum>j \<in> {..<N} - {i}. pc_weight (counter s) (pcs s j)) + 2 * (N - 1)"
    using assms(1) by (simp only: sum.distrib) simp
  finally show ?thesis
    using assms by (simp add: id_potential_def sum.remove [of "{..<N}" i])
qed

lemma id_step_potential:
  assumes "id_step B s t" "\<And>i. N \<le> i \<Longrightarrow> pcs t i = pcs s i"
  shows "Suc (id_potential N t) \<le> id_potential N s + 2 * N * (length (issued t) - length (issued s))"
  using assms(1)
proof (cases rule: id_step.cases)
  case (load i now)
  then have "i < N" using assms(2) [of i] by (cases "N \<le> i") auto
  with load show ?thesis using id_potential_move [of i N t s] by simp
next
  case (cas_ok i prev nx)
  then have "i < N" using assms(2) [of i] by (cases "N \<le> i") auto
  with cas_ok show ?thesis using id_potential_swap [of i N s t] by simp
next
  case (cas_fail i prev nx)
  then have "i < N" using assms(2) [of i] by (cases "N \<le> i") auto
  with cas_fail show ?thesis using id_potential_move [of i N t s] by simp
qed

lemma id_run_potential:
  "id_run N B n s t \<Longrightarrow> length (issued s) \<le> length (issued t) \<and>
     n + id_potential N t \<le> id_potential N s + 2 * N * (length (issued t) - length (issued s))"
proof (induction rule: id_run.induct)
  case (id_run_step n s t u)
  let ?a = "length (issued t) - length (issued s)" and ?b = "length (issued u) - length (issued t)"
  have le: "length (issued t) \<le> length (issued u)" by (rule id_step_issued) (rule id_run_step.hyps(2))
  then have "length (issued u) - length (issued s) = ?a + ?b" using id_run_step.IH by linarith
  then have "2 * N * (length (issued u) - length (issued s)) = 2 * N * ?a + 2 * N * ?b" by (simp add: distrib_left)
  moreover have "Suc (id_potential N u) \<le> id_potential N t + 2 * N * ?b"
    by (rule id_step_potential [OF id_run_step.hyps(2)]) (rule id_run_step.hyps(3))
  ultimately show ?case using id_run_step.IH le by linarith
qed simp

text \<open>
  C10. The loop is lock-free: with \<open>N\<close> concurrent callers, any run of more than \<open>3 N\<close> steps has
  handed out identifiers, and on average one every \<open>2 N\<close> steps, whatever the scheduler and the
  clock do; a caller loops only because others got their identifiers.
\<close>

theorem ids_lock_free:
  assumes "id_run N B n s t"
  shows "n \<le> 3 * N + 2 * N * (length (issued t) - length (issued s))"
  using id_run_potential [OF assms] id_potential_le [of N s] by linarith

text \<open>One caller alone: load, then swap.\<close>

theorem ids_lock_free_witness:
  "\<exists>t. id_run 1 5 2 id_init t \<and> issued t = [5] \<and> 2 \<le> 3 * 1 + 2 * 1 * (length (issued t) - length (issued id_init))"
proof -
  let ?s1 = "id_init\<lparr>pcs := (pcs id_init)(0 := Loaded (counter id_init) (next_value 5 (counter id_init)))\<rparr>"
  let ?s2 = "?s1\<lparr>counter := 5, pcs := (pcs ?s1)(0 := Idle), issued := 5 # issued ?s1\<rparr>"
  have a: "id_step 5 id_init ?s1" by (rule id_step.load) (simp_all add: id_init_def)
  have b: "id_step 5 ?s1 ?s2" by (rule id_step.cas_ok [where prev = 0]) (simp_all add: id_init_def next_value_def)
  have "id_run 1 5 (Suc 0) id_init ?s1" by (rule id_run_step [OF id_run_refl a]) simp
  then have r: "id_run 1 5 (Suc (Suc 0)) id_init ?s2" by (rule id_run_step [OF _ b]) simp
  from ids_lock_free [OF r] r show ?thesis by (intro exI [of _ ?s2]) (simp add: id_init_def numeral_2_eq_2)
qed

end
