(* ===== verification/TransactionService.thy ===== *)
theory TransactionService
  imports AccountService TxId
begin

text \<open>
  The write path and the status inquiry of \<open>internal/service/transaction.go\<close>: the
  synchronous path (\<open>createSync\<close>: check, debit, credit, insert in one database
  transaction), the asynchronous one (\<open>createAsync\<close>: save pending, publish), the dispatch
  between them (\<open>CreateTransaction\<close>) and the cached status (\<open>GetTransactionStatus\<close>).
\<close>

section \<open>State and environment\<close>

record ('r, 'b) transactionService =
  ts_repo :: "('r, 'b) world transaction_repository"
  ts_db :: "dbconn option"
  ts_queue :: "'b publisher option"
  ts_redis :: "'r redis_client option"
  ts_txStatusTTL :: duration

definition NewTransactionService ::
  "('r, 'b) world transaction_repository \<Rightarrow> dbconn option \<Rightarrow> 'b publisher option \<Rightarrow>
   'r redis_client option \<Rightarrow> duration \<Rightarrow> ('r, 'b) transactionService" where
  "NewTransactionService repo db q rdb ttl =
     \<lparr>ts_repo = repo, ts_db = db, ts_queue = q, ts_redis = rdb, ts_txStatusTTL = ttl\<rparr>"

text \<open>The clock readings of one request and what its database transaction meets.\<close>

record req_env =
  re_db :: db_call
  re_now :: gotime
  re_nano :: int64

section \<open>The synchronous path\<close>

definition sync_body :: "db_call \<Rightarrow> Transaction \<Rightarrow> database \<Rightarrow> err + database" where
  "sync_body e tx d =
     (let flt = fault (dc_orc e); drv = dc_drv e; now = dc_now e
      in ebind (wrapE ''begin transaction'' (exec_stmt flt BeginTx (Inr ()))) (\<lambda>_.
         ebind (case query_row flt QuerySource (select_balance_for_update d (tx_SourceAccount tx)) of
                  Inl x \<Rightarrow> if errors_Is x ErrNoRows then Inl ErrAccountNotFound
                           else Inl (ErrWrap ''query source account'' x)
                | Inr b \<Rightarrow> Inr b) (\<lambda>balance.
         if balance < tx_Amount tx then Inl ErrInsufficientFunds
         else
           ebind (wrapE ''query dest account''
                    (query_row flt QueryDest (Some (select_account_exists d (tx_DestAccount tx))))) (\<lambda>exists.
           if \<not> exists then Inl ErrAccountNotFound
           else
             ebind (wrapE ''debit source''
                      (exec_stmt flt ExecDebit (update_debit drv now (tx_Amount tx) (tx_SourceAccount tx) d))) (\<lambda>d1.
             ebind (wrapE ''credit dest''
                      (exec_stmt flt ExecCredit (update_credit drv now (tx_Amount tx) (tx_DestAccount tx) d1))) (\<lambda>d2.
             wrapE ''insert transaction''
               (exec_stmt flt ExecInsert (upsert_transaction drv (tx\<lparr>tx_Status := StatusCompleted\<rparr>) d2))))))))"

definition createSync ::
  "('r, 'b) transactionService \<Rightarrow> db_call \<Rightarrow> dbconn \<Rightarrow> Transaction \<Rightarrow> ('r, 'b) world \<Rightarrow>
   (err + Transaction) \<times> ('r, 'b) world" where
  "createSync s e conn tx w =
     (case sync_body e tx (db_of conn w) of
        Inl x \<Rightarrow> (Inl x, w)
      | Inr work \<Rightarrow>
          (case commit_tx (dc_orc e) (db_of conn w) work of
             (Some x, d) \<Rightarrow> (Inl (ErrWrap ''commit'' x), db_set conn d w)
           | (None, d) \<Rightarrow>
               (Inr (tx\<lparr>tx_Status := StatusCompleted\<rparr>),
                invalidateBalanceCache (ts_redis s) [tx_SourceAccount tx, tx_DestAccount tx] (db_set conn d w))))"

section \<open>The asynchronous path\<close>

definition tx_message :: "Transaction \<Rightarrow> TxMessage" where
  "tx_message tx = \<lparr>msg_TXID = tx_ID tx, msg_SourceAccount = tx_SourceAccount tx,
     msg_DestAccount = tx_DestAccount tx, msg_Amount = tx_Amount tx\<rparr>"

definition createAsync ::
  "('r, 'b) transactionService \<Rightarrow> 'b publisher \<Rightarrow> Transaction \<Rightarrow> ('r, 'b) world \<Rightarrow>
   (err + Transaction) \<times> ('r, 'b) world" where
  "createAsync s pub tx w =
     (let tx1 = tx\<lparr>tx_Status := StatusPending\<rparr>
      in case txn_Save (ts_repo s) w tx1 of
           (Some x, w1) \<Rightarrow> (Inl (ErrWrap ''save pending transaction'' x), w1)
         | (None, w1) \<Rightarrow>
             (case marshal_TxMessage (tx_message tx1) of
                None \<Rightarrow> (Inl (ErrWrap ''marshal queue message'' (ErrExt ''json: unsupported value'')), w1)
              | Some body \<Rightarrow>
                  (case pub (broker w1) ''transactions'' body of
                     (Some x, b) \<Rightarrow>
                       (Inl (ErrWrap ''publish to queue'' x),
                        snd (txn_UpdateStatus (ts_repo s) (w1\<lparr>broker := b\<rparr>) (tx_ID tx1) StatusFailed))
                   | (None, b) \<Rightarrow> (Inr tx1, w1\<lparr>broker := b\<rparr>))))"

section \<open>Creating a transaction\<close>

definition new_transaction :: "string \<Rightarrow> CreateTransactionInput \<Rightarrow> gotime \<Rightarrow> Transaction" where
  "new_transaction k inp now =
     \<lparr>tx_ID = k, tx_SourceAccount = in_SourceAccount inp, tx_DestAccount = in_DestAccount inp,
      tx_Amount = in_Amount inp, tx_Status = '''', tx_CreatedAt = now, tx_UpdatedAt = zero_time\<rparr>"

definition save_memory ::
  "('r, 'b) transactionService \<Rightarrow> Transaction \<Rightarrow> ('r, 'b) world \<Rightarrow> (err + Transaction) \<times> ('r, 'b) world" where
  "save_memory s tx w =
     (let tx1 = tx\<lparr>tx_Status := StatusCompleted\<rparr>
      in case txn_Save (ts_repo s) w tx1 of (Some x, w1) \<Rightarrow> (Inl x, w1) | (None, w1) \<Rightarrow> (Inr tx1, w1))"

definition CreateTransaction ::
  "('r, 'b) transactionService \<Rightarrow> req_env \<Rightarrow> CreateTransactionInput \<Rightarrow> ('r, 'b) world \<Rightarrow>
   (err + Transaction) \<times> ('r, 'b) world" where
  "CreateTransaction s e inp w0 =
     (let w1 = log_set ''amount'' (LFloat (in_Amount inp))
                 (log_set ''dest_account'' (LInt (in_DestAccount inp))
                   (log_set ''source_account'' (LInt (in_SourceAccount inp)) w0));
          (k, c) = nextTransactionID (re_nano e) (txCounter w1);
          w2 = w1\<lparr>txCounter := c\<rparr>;
          tx = new_transaction k inp (re_now e);
          (res, w3) = (case ts_queue s of
                         Some pub \<Rightarrow> createAsync s pub tx w2
                       | None \<Rightarrow>
                           (case ts_db s of
                              Some conn \<Rightarrow> createSync s (re_db e) conn tx w2
                            | None \<Rightarrow> save_memory s tx w2))
      in case res of
           Inl x \<Rightarrow> (Inl x, log_set ''transaction_error'' (LStr (Error x)) w3)
         | Inr t \<Rightarrow>
             (Inr t, log_set ''transaction_status'' (LStr (tx_Status t))
                       (log_set ''transaction_id'' (LStr (tx_ID t)) w3)))"

section \<open>Status inquiry\<close>

definition cached_transaction :: "'r redis_client option \<Rightarrow> string \<Rightarrow> 'r \<Rightarrow> Transaction option" where
  "cached_transaction rc k r =
     (case rc of
        None \<Rightarrow> None
      | Some c \<Rightarrow> (case redis_Get c r (tx_status_key k) of Inl _ \<Rightarrow> None | Inr b \<Rightarrow> unmarshal_Transaction b))"

definition status_ttl :: "('r, 'b) transactionService \<Rightarrow> Transaction \<Rightarrow> duration" where
  "status_ttl s t = (if tx_Status t = StatusPending then 2 * second else ts_txStatusTTL s)"

definition GetTransactionStatus ::
  "('r, 'b) transactionService \<Rightarrow> string \<Rightarrow> ('r, 'b) world \<Rightarrow> (err + Transaction) \<times> ('r, 'b) world" where
  "GetTransactionStatus s k w0 =
     (let w1 = log_set ''transaction_id'' (LStr k) w0
      in case cached_transaction (ts_redis s) k (kv w1) of
           Some t \<Rightarrow>
             (Inr t, CacheHits_Inc ''tx_status''
                (log_set ''transaction_status'' (LStr (tx_Status t)) (log_set ''cache_hit'' (LBool True) w1)))
         | None \<Rightarrow>
             (let w2 = (case ts_redis s of
                          None \<Rightarrow> w1
                        | Some _ \<Rightarrow> log_set ''cache_hit'' (LBool False) (CacheMisses_Inc ''tx_status'' w1))
              in case txn_GetByID (ts_repo s) w2 k of
                   Inl x \<Rightarrow> (Inl x, log_set ''transaction_error'' (LStr (Error x)) w2)
                 | Inr t \<Rightarrow>
                     (let w3 = (case ts_redis s of
                                  None \<Rightarrow> w2
                                | Some c \<Rightarrow>
                                    (case marshal_Transaction t of
                                       None \<Rightarrow> w2
                                     | Some data \<Rightarrow>
                                         w2\<lparr>kv := redis_Set c (kv w2) (tx_status_key k) data (status_ttl s t)\<rparr>))
                      in (Inr t, log_set ''transaction_status'' (LStr (tx_Status t)) w3))))"

section \<open>The synchronous path moves money correctly\<close>

lemma sync_body_Inr:
  "sync_body e tx d = Inr d' \<longleftrightarrow>
     (\<forall>st \<in> {BeginTx, QuerySource, QueryDest, ExecDebit, ExecCredit, ExecInsert}. fault (dc_orc e) st = None) \<and>
     (\<exists>b d1 d2. select_balance_for_update d (tx_SourceAccount tx) = Some b \<and> \<not> b < tx_Amount tx \<and>
        select_account_exists d (tx_DestAccount tx) \<and>
        update_debit (dc_drv e) (dc_now e) (tx_Amount tx) (tx_SourceAccount tx) d = Inr d1 \<and>
        update_credit (dc_drv e) (dc_now e) (tx_Amount tx) (tx_DestAccount tx) d1 = Inr d2 \<and>
        upsert_transaction (dc_drv e) (tx\<lparr>tx_Status := StatusCompleted\<rparr>) d2 = Inr d')"
  by (auto simp: sync_body_def Let_def Inr_split split: if_splits)

lemma sync_body_dst: "sync_body e tx d = Inr d' \<Longrightarrow> tx_DestAccount tx \<in> dom (accounts d)"
  by (auto simp: sync_body_Inr select_account_exists_def)

lemma sync_body_ok: "sync_body e tx d = Inr d' \<Longrightarrow> db_ok d \<Longrightarrow> db_ok d'"
  by (auto simp: sync_body_Inr update_debit_def update_credit_def
      dest!: update_balance_ok upsert_transaction_ok)

lemma sync_body_recorded:
  assumes "sync_body e tx d = Inr d'"
  shows "\<exists>r. transactions d' (tx_ID tx) = Some r \<and> row_status r = StatusCompleted"
proof -
  from assms obtain d2 where "upsert_transaction (dc_drv e) (tx\<lparr>tx_Status := StatusCompleted\<rparr>) d2 = Inr d'"
    by (auto simp: sync_body_Inr)
  from upsert_transaction_status [OF this] show ?thesis by simp
qed

text \<open>
  \<open>sync\<close> provides the transfer contract: the request is the pair of the environment and the
  transaction.
\<close>

interpretation sync: transfer_body
  "\<lambda>(e, tx). sync_body e tx" "\<lambda>(e, tx). dc_drv e"
  "\<lambda>(e, tx). tx_SourceAccount tx" "\<lambda>(e, tx). tx_DestAccount tx" "\<lambda>(e, tx). tx_Amount tx"
proof (unfold_locales, goal_cases)
  case (1 q d d')
  obtain e tx where q: "q = (e, tx)" by (cases q)
  with 1 have "sync_body e tx d = Inr d'" by simp
  then show ?case unfolding q sync_body_Inr prod.case using upsert_transaction_frame by blast
next
  case (2 q d d')
  then show ?case by (cases q) (auto intro: sync_body_ok)
qed

lemma createSync_Inr:
  "createSync s e conn tx w = (Inr t, w') \<longleftrightarrow>
     (\<exists>d. sync_body e tx (db_of conn w) = Inr d \<and> fault (dc_orc e) CommitTx = None \<and>
        t = tx\<lparr>tx_Status := StatusCompleted\<rparr> \<and>
        w' = invalidateBalanceCache (ts_redis s) [tx_SourceAccount tx, tx_DestAccount tx] (db_set conn d w))"
  by (auto simp: createSync_def commit_tx_def autocommit_def split: sum.splits prod.splits option.splits)

lemma createSync_Inl:
  "createSync s e conn tx w = (Inl x, w') \<Longrightarrow>
     w' = w \<or> (\<exists>d work. sync_body e tx (db_of conn w) = Inr work \<and> (d = db_of conn w \<or> d = work) \<and> w' = db_set conn d w)"
  by (auto simp: createSync_def dest: commit_tx_cases split: sum.splits prod.splits option.splits)

text \<open>All or nothing: the database after the call is the old one or the complete transfer.\<close>

lemma createSync_atomic:
  assumes "createSync s e conn tx w = (res, w')"
  shows "db_of conn w' = db_of conn w \<or> sync_body e tx (db_of conn w) = Inr (db_of conn w')"
proof (cases res)
  case (Inl x)
  with assms createSync_Inl [of s e conn tx w x w'] show ?thesis by auto
next
  case (Inr t)
  with assms show ?thesis by (cases conn) (auto simp: createSync_Inr)
qed

lemma createSync_frame:
  "createSync s e conn tx w = (res, w') \<Longrightarrow>
   broker w' = broker w \<and> mem_txs w' = mem_txs w \<and> mem_accounts w' = mem_accounts w \<and> txCounter w' = txCounter w"
  by (auto simp: createSync_def split: sum.splits prod.splits option.splits)

section \<open>When the synchronous path succeeds\<close>

lemma upsert_transaction_total:
  assumes "sql_num drv (tx_Amount t) = numeric_val c" "\<bar>c\<bar> < 10 ^ 18" "length (tx_ID t) \<le> 26"
    "length (tx_Status t) \<le> 20" "tx_SourceAccount t \<in> dom (accounts d)" "tx_DestAccount t \<in> dom (accounts d)"
  shows "\<exists>d'. upsert_transaction drv t d = Inr d'"
  using assms
  by (auto simp: upsert_transaction_def new_row_def insert_row_def numeric_18_2_whole split: option.splits)

lemma sync_body_total:
  assumes flt: "\<And>st. fault (dc_orc e) st = None"
    and c: "sql_num (dc_drv e) (tx_Amount tx) = numeric_val c" "\<bar>c\<bar> < 10 ^ 18"
    and src: "balance_of d (tx_SourceAccount tx) = Some b" "\<not> scan_float b < tx_Amount tx" "\<bar>b - c\<bar> < 10 ^ 18"
    and dst: "balance_of d (tx_DestAccount tx) = Some b'" "\<bar>b'\<bar> < 10 ^ 18" "\<bar>b' + c\<bar> < 10 ^ 18" "\<bar>b\<bar> < 10 ^ 18"
    and id: "length (tx_ID tx) \<le> 26"
  shows "\<exists>d'. sync_body e tx d = Inr d'"
proof -
  obtain d1 d2 where d1: "update_debit (dc_drv e) (dc_now e) (tx_Amount tx) (tx_SourceAccount tx) d = Inr d1"
    and d2: "update_credit (dc_drv e) (dc_now e) (tx_Amount tx) (tx_DestAccount tx) d1 = Inr d2"
    and "dom (accounts d2) = dom (accounts d)"
    by (rule debit_credit_total [OF c(1) src(1,3) dst(1,3,4)])
  moreover have "tx_SourceAccount tx \<in> dom (accounts d)" "tx_DestAccount tx \<in> dom (accounts d)"
    using src(1) dst(1) balance_of_dom by (metis option.distinct(1))+
  ultimately obtain d' where "upsert_transaction (dc_drv e) (tx\<lparr>tx_Status := StatusCompleted\<rparr>) d2 = Inr d'"
    using upsert_transaction_total [of "dc_drv e" "tx\<lparr>tx_Status := StatusCompleted\<rparr>" c d2] c id
    by (auto simp: StatusCompleted_def)
  with d1 d2 flt src dst(1) show ?thesis
    by (auto simp: sync_body_Inr select_balance_for_update_def select_account_exists_def balance_of_def)
qed

lemma sync_body_no_source:
  "fault (dc_orc e) BeginTx = None \<Longrightarrow> fault (dc_orc e) QuerySource = None \<Longrightarrow>
   accounts d (tx_SourceAccount tx) = None \<Longrightarrow> sync_body e tx d = Inl ErrAccountNotFound"
  by (simp add: sync_body_def Let_def select_balance_for_update_def balance_of_def)

lemma sync_body_short:
  "fault (dc_orc e) BeginTx = None \<Longrightarrow> fault (dc_orc e) QuerySource = None \<Longrightarrow>
   balance_of d (tx_SourceAccount tx) = Some b \<Longrightarrow> scan_float b < tx_Amount tx \<Longrightarrow>
   sync_body e tx d = Inl ErrInsufficientFunds"
  by (simp add: sync_body_def Let_def select_balance_for_update_def)

lemma sync_body_no_dest:
  "fault (dc_orc e) BeginTx = None \<Longrightarrow> fault (dc_orc e) QuerySource = None \<Longrightarrow> fault (dc_orc e) QueryDest = None \<Longrightarrow>
   balance_of d (tx_SourceAccount tx) = Some b \<Longrightarrow> \<not> scan_float b < tx_Amount tx \<Longrightarrow>
   accounts d (tx_DestAccount tx) = None \<Longrightarrow> sync_body e tx d = Inl ErrAccountNotFound"
  by (simp add: sync_body_def Let_def select_balance_for_update_def select_account_exists_def)

lemma createSync_body_Inl: "sync_body e tx (db_of conn w) = Inl x \<Longrightarrow> createSync s e conn tx w = (Inl x, w)"
  by (simp add: createSync_def)

text \<open>Without faults the body is the abstract transfer, and it refuses with a sentinel error.\<close>

lemma sync_body_refused:
  assumes "\<And>st. fault (dc_orc e) st = None" and "tx_Amount tx = scan_float c" "0 < c" "c < exact_cents"
    and "transfer (tx_SourceAccount tx) (tx_DestAccount tx) c (balance_of d) = None"
  shows "sync_body e tx d = Inl ErrAccountNotFound \<or> sync_body e tx d = Inl ErrInsufficientFunds"
proof -
  consider "accounts d (tx_SourceAccount tx) = None"
    | b where "balance_of d (tx_SourceAccount tx) = Some b" "b < c"
    | b where "balance_of d (tx_SourceAccount tx) = Some b" "\<not> b < c" "accounts d (tx_DestAccount tx) = None"
    using assms(5) by (auto simp: transfer_def Let_def balance_of_def split: option.splits if_splits)
  then show ?thesis
  proof cases
    case 1
    then show ?thesis using sync_body_no_source assms(1) by blast
  next
    case 2
    then have "scan_float b < tx_Amount tx" using scan_float_strict [OF assms(3) _ assms(4)] assms(2) by simp
    with 2 show ?thesis using sync_body_short assms(1) by blast
  next
    case 3
    then have "scan_float c \<le> scan_float b" using assms(3) by (intro scan_float_mono) simp_all
    with 3 show ?thesis using sync_body_no_dest [of e d tx b] assms(1,2) by auto
  qed
qed

lemma sync_body_refines:
  assumes flt: "\<And>st. fault (dc_orc e) st = None"
    and c: "sql_num (dc_drv e) (tx_Amount tx) = numeric_val c" "tx_Amount tx = scan_float c" "0 < c" "c < exact_cents"
    and ok: "db_ok d" and id: "length (tx_ID tx) \<le> 26"
    and room: "\<And>b. balance_of d (tx_DestAccount tx) = Some b \<Longrightarrow> b + c < 10 ^ 18"
  shows "case transfer (tx_SourceAccount tx) (tx_DestAccount tx) c (balance_of d) of
      Some L \<Rightarrow> \<exists>d'. sync_body e tx d = Inr d' \<and> balance_of d' = L
    | None \<Rightarrow> sync_body e tx d = Inl ErrAccountNotFound \<or> sync_body e tx d = Inl ErrInsufficientFunds"
proof (cases "transfer (tx_SourceAccount tx) (tx_DestAccount tx) c (balance_of d)")
  case None
  with sync_body_refused [OF flt c(2-4) None] show ?thesis by simp
next
  case (Some L)
  then obtain b b' where b: "balance_of d (tx_SourceAccount tx) = Some b" "\<not> b < c"
    "balance_of d (tx_DestAccount tx) = Some b'"
    by (auto simp: transfer_def split: option.splits if_splits)
  have "scan_float c \<le> scan_float b" using b(2) c(3) by (intro scan_float_mono) simp_all
  then have f: "\<not> scan_float b < tx_Amount tx" using c(2) by simp
  have bd: "\<bar>b\<bar> < 10 ^ 18" "\<bar>b'\<bar> < 10 ^ 18" using db_ok_balance [OF ok] b by blast+
  moreover have "\<bar>c\<bar> < 10 ^ 18" using c(3,4) by (simp add: exact_cents_def)
  moreover have "\<bar>b' + c\<bar> < 10 ^ 18" "\<bar>b - c\<bar> < 10 ^ 18"
    using room [OF b(3)] bd b(2) c(3) by (simp_all add: abs_less_iff)
  ultimately obtain d' where d': "sync_body e tx d = Inr d'"
    using sync_body_total [OF flt c(1) _ b(1) f _ b(3) _ _ _ id] by blast
  with sync.body_refines [of "(e, tx)" d d' c] c sync_body_dst [OF d'] Some show ?thesis by simp
qed

lemma createSync_done:
  "sync_body e tx (db_of conn w) = Inr d \<Longrightarrow> fault (dc_orc e) CommitTx = None \<Longrightarrow>
   \<exists>w'. createSync s e conn tx w = (Inr (tx\<lparr>tx_Status := StatusCompleted\<rparr>), w') \<and> db_of conn w' = d"
  by (cases conn) (auto simp: createSync_Inr)

section \<open>The asynchronous path\<close>

lemma createAsync_Inr:
  assumes "createAsync s pub tx w = (Inr t, w')"
  obtains w1 body b where "t = tx\<lparr>tx_Status := StatusPending\<rparr>" "txn_Save (ts_repo s) w t = (None, w1)"
    "marshal_TxMessage (tx_message tx) = Some body" "pub (broker w1) ''transactions'' body = (None, b)"
    "w' = w1\<lparr>broker := b\<rparr>"
  using assms
  by (auto simp: createAsync_def Let_def tx_message_def split: prod.splits option.splits)

lemma pg_tx_Save_None:
  assumes "pg_tx_Save drv orc r w t = (None, w1)"
  obtains d where "insert_transaction drv t (db_of (pg_db r) w) = Inr d" "w1 = db_set (pg_db r) d w"
  using assms by (auto simp: pg_tx_Save_iff autocommit_None)

section \<open>Properties of the write path\<close>

text \<open>
  A synchronous transfer conserves money: whatever the call returns and whatever fails
  on the way, a commit with an unknown outcome included, the balances of the database sum
  to what they summed to before, for an amount that is a whole number of cents.
\<close>

theorem createSync_conserves_money:
  assumes "createSync s e conn tx w = (res, w')"
    and "sql_num (dc_drv e) (tx_Amount tx) = numeric_val c"
  shows "money (db_of conn w') = money (db_of conn w)"
  using createSync_atomic [OF assms(1)]
proof
  assume run: "sync_body e tx (db_of conn w) = Inr (db_of conn w')"
  show ?thesis
    using sync.body_conserves [of "(e, tx)" "db_of conn w" "db_of conn w'" c] run assms(2) sync_body_dst [OF run]
    by simp
qed simp

definition sync_svc :: "(keyed_store, (string \<times> json) list) transactionService" where
  "sync_svc = \<lparr>ts_repo = mem_tx_repo, ts_db = Some PrimaryDB, ts_queue = None, ts_redis = Some ks_client,
     ts_txStatusTTL = 30 * second\<rparr>"

definition sync_world :: "(keyed_store, (string \<times> json) list) world" where
  "sync_world = snd (createSync sync_svc call0 PrimaryDB tx0 world0)"

lemma sync_run: "createSync sync_svc call0 PrimaryDB tx0 world0 = (Inr (tx0\<lparr>tx_Status := StatusCompleted\<rparr>), sync_world)"
proof -
  have "\<exists>d. sync_body call0 tx0 db0 = Inr d"
    by (rule sync_body_total [where c = 5000 and b = 10000 and b' = 500])
       simp_all
  then have "fst (createSync sync_svc call0 PrimaryDB tx0 world0) = Inr (tx0\<lparr>tx_Status := StatusCompleted\<rparr>)"
    by (auto simp: createSync_def commit_tx_def autocommit_def)
  then show ?thesis by (simp add: sync_world_def prod_eq_iff)
qed

theorem createSync_conserves_money_witness: "money (primary sync_world) = 10500"
  using createSync_conserves_money [OF sync_run, of 5000] sample_money by simp

text \<open>
  No overdraft: if no balance is negative before a synchronous transfer of a positive
  whole number of cents below 2 to the 46 currency units, none is negative after it, again
  on every outcome. In this range Go's float comparison decides exactly as a comparison of
  cents would.
\<close>

theorem createSync_no_overdraft:
  assumes "createSync s e conn tx w = (res, w')"
    and "sql_num (dc_drv e) (tx_Amount tx) = numeric_val c"
    and "tx_Amount tx = scan_float c" and "0 < c" and "c < exact_cents"
    and "solvent (balance_of (db_of conn w))"
  shows "solvent (balance_of (db_of conn w'))"
  using createSync_atomic [OF assms(1)]
proof
  assume run: "sync_body e tx (db_of conn w) = Inr (db_of conn w')"
  show ?thesis
    using sync.body_solvent [of "(e, tx)" "db_of conn w" "db_of conn w'" c] run assms(2-6) sync_body_dst [OF run]
    by simp
qed (use assms(6) in simp)

theorem createSync_no_overdraft_witness: "solvent (balance_of (primary sync_world))"
  using createSync_no_overdraft [OF sync_run, of 5000] sample_solvent by simp

text \<open>
  C4. Without faults the synchronous path is the abstract ledger operation: it succeeds
  exactly when \<open>transfer\<close> is defined on the balances, the new balances are the ones
  \<open>transfer\<close> gives, the transaction is recorded as completed, and a refused transfer
  changes nothing at all. The amount is a whole number of cents in the exact range, and the
  destination has room for it in its column.
\<close>

theorem createSync_refines_transfer:
  assumes flt: "\<And>st. fault (dc_orc e) st = None"
    and c: "sql_num (dc_drv e) (tx_Amount tx) = numeric_val c" "tx_Amount tx = scan_float c" "0 < c" "c < exact_cents"
    and ok: "db_ok (db_of conn w)" and id: "length (tx_ID tx) \<le> 26"
    and room: "\<And>b. balance_of (db_of conn w) (tx_DestAccount tx) = Some b \<Longrightarrow> b + c < 10 ^ 18"
  shows "case transfer (tx_SourceAccount tx) (tx_DestAccount tx) c (balance_of (db_of conn w)) of
      Some L \<Rightarrow> \<exists>w'. createSync s e conn tx w = (Inr (tx\<lparr>tx_Status := StatusCompleted\<rparr>), w') \<and>
                  balance_of (db_of conn w') = L \<and>
                  (\<exists>r. transactions (db_of conn w') (tx_ID tx) = Some r \<and> row_status r = StatusCompleted)
    | None \<Rightarrow> \<exists>x. createSync s e conn tx w = (Inl x, w)"
proof (cases "transfer (tx_SourceAccount tx) (tx_DestAccount tx) c (balance_of (db_of conn w))")
  case None
  with sync_body_refines [OF flt c ok id room] show ?thesis by (auto dest: createSync_body_Inl)
next
  case (Some L)
  with sync_body_refines [OF flt c ok id room] obtain d' where d': "sync_body e tx (db_of conn w) = Inr d'" "balance_of d' = L"
    by auto
  with createSync_done [OF d'(1)] flt Some sync_body_recorded [OF d'(1)] show ?thesis by fastforce
qed

theorem createSync_refines_transfer_witness:
  "\<exists>w'. createSync sync_svc call0 PrimaryDB tx0 world0 = (Inr (tx0\<lparr>tx_Status := StatusCompleted\<rparr>), w') \<and>
     balance_of (primary w') = [1001 \<mapsto> 5000, 1002 \<mapsto> 5500]"
proof -
  have "transfer 1001 1002 5000 [1001 \<mapsto> 10000, 1002 \<mapsto> 500] = Some [1001 \<mapsto> 5000, 1002 \<mapsto> 5500]"
    by (simp add: transfer_def fun_eq_iff)
  with createSync_refines_transfer [of call0 tx0 5000 PrimaryDB world0 sync_svc] sample_ok show ?thesis
    by auto
qed

text \<open>
  C22. The refusals of the synchronous path: an unknown source, a short balance and an
  unknown destination are reported as the sentinel errors the HTTP layer distinguishes, in
  this order, and the world is unchanged.
\<close>

theorem createSync_refusals:
  assumes "fault (dc_orc e) BeginTx = None" "fault (dc_orc e) QuerySource = None" "fault (dc_orc e) QueryDest = None"
  shows "(accounts (db_of conn w) (tx_SourceAccount tx) = None \<longrightarrow>
            createSync s e conn tx w = (Inl ErrAccountNotFound, w)) \<and>
    (\<forall>b. balance_of (db_of conn w) (tx_SourceAccount tx) = Some b \<longrightarrow> scan_float b < tx_Amount tx \<longrightarrow>
            createSync s e conn tx w = (Inl ErrInsufficientFunds, w)) \<and>
    (\<forall>b. balance_of (db_of conn w) (tx_SourceAccount tx) = Some b \<longrightarrow> \<not> scan_float b < tx_Amount tx \<longrightarrow>
            accounts (db_of conn w) (tx_DestAccount tx) = None \<longrightarrow>
            createSync s e conn tx w = (Inl ErrAccountNotFound, w))"
  using assms sync_body_no_source sync_body_short sync_body_no_dest
  by (blast intro: createSync_body_Inl)

theorem createSync_refusals_witness:
  "createSync sync_svc call0 PrimaryDB (tx0\<lparr>tx_SourceAccount := 9\<rparr>) world0 = (Inl ErrAccountNotFound, world0) \<and>
   createSync sync_svc call0 PrimaryDB (tx0\<lparr>tx_Amount := 101\<rparr>) world0 = (Inl ErrInsufficientFunds, world0) \<and>
   createSync sync_svc call0 PrimaryDB (tx0\<lparr>tx_DestAccount := 9\<rparr>) world0 = (Inl ErrAccountNotFound, world0)"
  using createSync_refusals [of call0 PrimaryDB world0 "tx0\<lparr>tx_SourceAccount := 9\<rparr>" sync_svc]
    createSync_refusals [of call0 PrimaryDB world0 "tx0\<lparr>tx_Amount := 101\<rparr>" sync_svc]
    createSync_refusals [of call0 PrimaryDB world0 "tx0\<lparr>tx_DestAccount := 9\<rparr>" sync_svc]
  by simp

section \<open>The caches stay coherent\<close>

definition primary_accounts :: "outcomes \<Rightarrow> ('r, 'b) world account_repository" where
  "primary_accounts orc = pg_account_repo orc (pg_NewAccountRepository PrimaryDB None)"

lemma primary_accounts_cong:
  "accounts (primary w') i = accounts (primary w) i \<Longrightarrow>
   acct_GetByID (primary_accounts orc) w' i = acct_GetByID (primary_accounts orc) w i"
  by (simp add: primary_accounts_def repo_defs pg_NewAccountRepository_def select_account_def)

text \<open>
  Deleting the balance entries of the accounts that changed keeps the balance cache
  coherent: the step shared by the service and the worker.
\<close>

lemma invalidate_keeps_coherent:
  assumes "redis_up cl up" "up (kv w)" "balance_coherent cl (primary_accounts orc) w"
    and "\<And>i. i \<notin> set ids \<Longrightarrow> accounts (primary w') i = accounts (primary w) i" "kv w' = kv w"
  shows "balance_coherent cl (primary_accounts orc) (invalidateBalanceCache (Some cl) ids w')"
proof -
  let ?w = "invalidateBalanceCache (Some cl) ids w'"
  have kv: "kv ?w = redis_Del cl (kv w) (map balance_key ids)"
    by (simp add: invalidateBalanceCache_def assms(5))
  have step: "balance_agrees (acct_GetByID (primary_accounts orc) ?w) k b"
    if "k \<notin> set (map balance_key ids)" "balance_agrees (acct_GetByID (primary_accounts orc) w) k b" for k b
    unfolding balance_agrees_def
  proof (intro allI impI)
    fix i a assume k: "k = balance_key i" and a: "unmarshal_Account b = Some a"
    then have "i \<notin> set ids" using that(1) by auto
    then have "accounts (primary ?w) i = accounts (primary w) i" using assms(4) by simp
    then have "acct_GetByID (primary_accounts orc) ?w i = acct_GetByID (primary_accounts orc) w i"
      by (rule primary_accounts_cong)
    then show "acct_GetByID (primary_accounts orc) ?w i = Inr a"
      using that(2) k a by (simp add: balance_agrees_def)
  qed
  show ?thesis
    unfolding balance_coherent_def kv
    by (rule redis_up.del_sat_weaken [OF assms(1,2) assms(3) [unfolded balance_coherent_def]]) (rule step)
qed

text \<open>
  C19. A committed synchronous transfer leaves the balance cache coherent: with a reachable
  Redis and reads from the primary, every balance entry the cache can serve afterwards is
  what the database holds, because exactly the entries of the two accounts are deleted.
\<close>

theorem createSync_keeps_cache_coherent:
  assumes "redis_up cl up" "up (kv w)" "ts_redis s = Some cl"
    and "balance_coherent cl (primary_accounts orc) w"
    and "createSync s e PrimaryDB tx w = (Inr t, w')"
  shows "balance_coherent cl (primary_accounts orc) w'"
proof -
  from assms(5) obtain d where d: "sync_body e tx (primary w) = Inr d"
    and w': "w' = invalidateBalanceCache (ts_redis s) [tx_SourceAccount tx, tx_DestAccount tx] (w\<lparr>primary := d\<rparr>)"
    by (auto simp: createSync_Inr)
  have "accounts d i = accounts (primary w) i" if "i \<notin> set [tx_SourceAccount tx, tx_DestAccount tx]" for i
    using sync.body_frame [of "(e, tx)" "primary w" d i] d that by simp
  then show ?thesis
    unfolding w' assms(3) by (intro invalidate_keeps_coherent [OF assms(1,2,4)]) simp_all
qed

lemma empty_store_coherent: "balance_coherent ks_client repo world0"
  by (simp add: balance_coherent_def cached_sat_def ks_defs store0_def)

theorem createSync_keeps_cache_coherent_witness:
  "balance_coherent ks_client (primary_accounts orc0) sync_world"
  using createSync_keeps_cache_coherent [OF ks.redis_up_axioms _ _ empty_store_coherent sync_run]
  by (simp add: sync_svc_def)

text \<open>
  C16. A balance inquiry through a coherent cache answers what the database would answer,
  error included, and leaves the cache coherent, for any server that returns only values
  that were stored: it may lose, evict or expire entries and refuse commands.
\<close>

theorem GetBalance_transparent:
  assumes "redis_service cl" "balance_coherent cl (pg_account_repo orc r) w"
    and "GetBalance (NewAccountService (pg_account_repo orc r) (Some cl) ttl) i w = (res, w')"
  shows "res = pg_account_GetByID orc r w i \<and> balance_coherent cl (pg_account_repo orc r) w'"
  using pg_acct.GetBalance_coherent [OF assms(2), of ttl i]
    pg_acct.GetBalance_keeps_coherent [OF assms(1,2), of ttl i] assms(3)
  by (simp add: NewAccountService_def pg_account_repo_def)

theorem GetBalance_transparent_witness:
  "fst (GetBalance (NewAccountService (pg_account_repo orc0 (pg_NewAccountRepository PrimaryDB None))
          (Some ks_client) (10 * second)) 1002 world0)
     = Inr \<lparr>acc_ID = 1002, acc_Name = ''B'', acc_Balance = 5, acc_UpdatedAt = 0\<rparr>"
proof -
  let ?r = "pg_NewAccountRepository PrimaryDB None"
  have "pg_account_GetByID orc0 ?r world0 1002
      = Inr \<lparr>acc_ID = 1002, acc_Name = ''B'', acc_Balance = 5, acc_UpdatedAt = 0\<rparr>"
    by (simp add: pg_account_GetByID_def pg_NewAccountRepository_def select_account_def db0_def)
  with GetBalance_transparent [OF ks.redis_service_axioms empty_store_coherent prod.collapse [symmetric],
      of orc0 ?r "10 * second" 1002] show ?thesis by simp
qed

section \<open>Properties of the asynchronous path\<close>

definition primary_txs :: "driver \<Rightarrow> gotime \<Rightarrow> outcomes \<Rightarrow> ('r, 'b) world transaction_repository" where
  "primary_txs drv now orc = pg_tx_repo drv now orc (pg_NewTransactionRepository PrimaryDB None)"

lemma primary_txs_sel [simp]:
  "txn_Save (primary_txs drv now orc) = pg_tx_Save drv orc (pg_NewTransactionRepository PrimaryDB None)"
  "txn_GetByID (primary_txs drv now orc) = pg_tx_GetByID orc (pg_NewTransactionRepository PrimaryDB None)"
  "txn_UpdateStatus (primary_txs drv now orc) = pg_tx_UpdateStatus now orc (pg_NewTransactionRepository PrimaryDB None)"
  by (simp_all add: primary_txs_def)


definition async_svc :: "(keyed_store, (string \<times> json) list) transactionService" where
  "async_svc = \<lparr>ts_repo = primary_txs drv0 7 orc0, ts_db = Some PrimaryDB, ts_queue = Some pub0,
     ts_redis = Some ks_client, ts_txStatusTTL = 30 * second\<rparr>"

definition async_world :: "(keyed_store, (string \<times> json) list) world" where
  "async_world = snd (createAsync async_svc pub0 tx0 world0)"

lemma async_run: "createAsync async_svc pub0 tx0 world0 = (Inr (tx0\<lparr>tx_Status := StatusPending\<rparr>), async_world)"
proof -
  have "\<exists>d. insert_transaction drv0 (tx0\<lparr>tx_Status := StatusPending\<rparr>) db0 = Inr d"
    by (simp add: statement_defs)
  then have "fst (createAsync async_svc pub0 tx0 world0) = Inr (tx0\<lparr>tx_Status := StatusPending\<rparr>)"
    by (auto simp: createAsync_def Let_def async_svc_def pg_tx_Save_def autocommit_def marshal_TxMessage_def pub0_def)
  then show ?thesis by (simp add: async_world_def prod_eq_iff)
qed


text \<open>
  C21. When the message cannot be published the request fails and, if the repository accepts
  the best-effort update, the saved transaction reads as failed, on its own accounts; the
  balances are untouched.
\<close>

theorem createAsync_publish_failure:
  assumes "ts_repo s = primary_txs drv now orc" and "fault orc RepoUpdate = None"
    and "txn_Save (ts_repo s) w (tx\<lparr>tx_Status := StatusPending\<rparr>) = (None, w1)"
    and "\<And>body. fst (pub (broker w1) ''transactions'' body) = Some x"
  shows "\<exists>w'. createAsync s pub tx w = (Inl (ErrWrap ''publish to queue'' x), w') \<and>
    (\<exists>r. transactions (primary w') (tx_ID tx) = Some r \<and> row_status r = StatusFailed \<and>
       row_source r = tx_SourceAccount tx \<and> row_dest r = tx_DestAccount tx) \<and>
    accounts (primary w') = accounts (primary w)"
proof -
  let ?t = "tx\<lparr>tx_Status := StatusPending\<rparr>"
  obtain body where body: "marshal_TxMessage (tx_message ?t) = Some body" by (simp add: marshal_TxMessage_def)
  obtain b where b: "pub (broker w1) ''transactions'' body = (Some x, b)" using assms(4) by (metis prod.collapse)
  from assms(1,3) obtain d where d: "insert_transaction drv ?t (primary w) = Inr d" and w1: "w1 = w\<lparr>primary := d\<rparr>"
    by (auto elim: pg_tx_Save_None)
  obtain r where r: "transactions d (tx_ID tx) = Some r" "row_source r = tx_SourceAccount tx" "row_dest r = tx_DestAccount tx"
    using insert_transaction_same [OF d] by auto
  let ?d' = "d\<lparr>transactions := (transactions d)(tx_ID tx \<mapsto> r\<lparr>row_status := StatusFailed, row_updated := now\<rparr>)\<rparr>"
  have upd: "update_status now StatusFailed (tx_ID tx) d = Inr ?d'"
    using update_status_known [OF r(1), of StatusFailed] by (simp add: StatusFailed_def)
  have "createAsync s pub tx w = (Inl (ErrWrap ''publish to queue'' x), w1\<lparr>broker := b, primary := ?d'\<rparr>)"
    using assms(1-3) body b upd w1
    by (simp add: createAsync_def pg_tx_UpdateStatus_def autocommit_def)
  with r insert_transaction_frame [OF d] show ?thesis by simp
qed

theorem createAsync_publish_failure_witness:
  "\<exists>w'. createAsync async_svc (\<lambda>b q body. (Some (ErrExt ''down''), b)) tx0 world0
        = (Inl (ErrWrap ''publish to queue'' (ErrExt ''down'')), w') \<and>
      (\<exists>r. transactions (primary w') ''txn1'' = Some r \<and> row_status r = StatusFailed)"
proof -
  obtain w1 where w1: "txn_Save (ts_repo async_svc) world0 (tx0\<lparr>tx_Status := StatusPending\<rparr>) = (None, w1)"
    by (simp add: async_svc_def pg_tx_Save_def autocommit_def statement_defs)
  show ?thesis
    using createAsync_publish_failure [of async_svc drv0 7 orc0, OF _ _ w1, of "\<lambda>b q body. (Some (ErrExt ''down''), b)"]
    by (auto simp: async_svc_def)
qed

end
