(* ===== verification/StatusInquiry.thy ===== *)
theory StatusInquiry
  imports TransactionService
begin

text \<open>
  The status inquiry (\<open>GetTransactionStatus\<close>) compared with reading the repository, and the
  lifetime of what it caches: an entry for a pending transaction lives two seconds.
\<close>

section \<open>Coherence of the status entries\<close>

locale tx_reader =
  fixes repo :: "('r, 'b) world transaction_repository"
  assumes read_frame: "primary w' = primary w \<Longrightarrow> standby w' = standby w \<Longrightarrow> mem_txs w' = mem_txs w \<Longrightarrow>
      txn_GetByID repo w' k = txn_GetByID repo w k"

interpretation mem_txr: tx_reader mem_tx_repo
  by unfold_locales (simp add: repo_defs)

interpretation pg_txr: tx_reader "pg_tx_repo drv now orc r" for drv now orc r
  by unfold_locales (cases "pg_replica r"; simp add: repo_defs)

definition status_agrees :: "(string \<Rightarrow> err + Transaction) \<Rightarrow> string \<Rightarrow> bytes \<Rightarrow> bool" where
  "status_agrees get key b \<longleftrightarrow>
     (\<forall>k t. key = tx_status_key k \<longrightarrow> unmarshal_Transaction b = Some t \<longrightarrow> get k = Inr t)"

definition status_coherent ::
  "'r redis_client \<Rightarrow> ('r, 'b) world transaction_repository \<Rightarrow> ('r, 'b) world \<Rightarrow> bool" where
  "status_coherent cl repo w \<longleftrightarrow> cached_sat cl (status_agrees (txn_GetByID repo w)) (kv w)"

lemma cached_transaction_agrees:
  "status_coherent cl repo w \<Longrightarrow> cached_transaction (Some cl) k (kv w) = Some t \<Longrightarrow> txn_GetByID repo w k = Inr t"
  by (auto simp: status_coherent_def cached_sat_def status_agrees_def cached_transaction_def split: sum.splits)

lemma GetTransactionStatus_frame:
  "primary (snd (GetTransactionStatus s k w)) = primary w"
  "standby (snd (GetTransactionStatus s k w)) = standby w"
  "mem_accounts (snd (GetTransactionStatus s k w)) = mem_accounts w"
  "mem_txs (snd (GetTransactionStatus s k w)) = mem_txs w"
  "broker (snd (GetTransactionStatus s k w)) = broker w"
  "txCounter (snd (GetTransactionStatus s k w)) = txCounter w"
  by (simp_all add: GetTransactionStatus_def Let_def split: option.split sum.split)

context tx_reader
begin

lemma read_log [simp]: "txn_GetByID repo (log_set l v w) k = txn_GetByID repo w k"
  by (rule read_frame) simp_all

lemma read_miss [simp]: "txn_GetByID repo (CacheMisses_Inc l w) k = txn_GetByID repo w k"
  by (rule read_frame) simp_all

lemma status_uncached:
  "ts_repo s = repo \<Longrightarrow> ts_redis s = None \<Longrightarrow> fst (GetTransactionStatus s k w) = txn_GetByID repo w k"
  by (simp add: GetTransactionStatus_def Let_def cached_transaction_def split: sum.splits)

lemma status_transparent:
  assumes "ts_repo s = repo" "ts_redis s = Some cl" "status_coherent cl repo w"
  shows "fst (GetTransactionStatus s k w) = txn_GetByID repo w k"
  using cached_transaction_agrees [OF assms(3), of k] assms(1,2)
  by (auto simp: GetTransactionStatus_def Let_def split: option.splits sum.splits)

lemma status_kv:
  assumes "ts_repo s = repo" "ts_redis s = Some cl"
  shows "kv (snd (GetTransactionStatus s k w)) = kv w \<or>
    (\<exists>t data. txn_GetByID repo w k = Inr t \<and> marshal_Transaction t = Some data \<and>
      kv (snd (GetTransactionStatus s k w)) = redis_Set cl (kv w) (tx_status_key k) data (status_ttl s t))"
  using assms by (simp add: GetTransactionStatus_def Let_def split: option.split sum.split)

lemma status_keeps_coherent:
  assumes s: "ts_repo s = repo" "ts_redis s = Some cl" and cl: "redis_service cl" and co: "status_coherent cl repo w"
  shows "status_coherent cl repo (snd (GetTransactionStatus s k w))"
proof -
  let ?w' = "snd (GetTransactionStatus s k w)"
  let ?P = "status_agrees (txn_GetByID repo w)"
  have read: "txn_GetByID repo ?w' = txn_GetByID repo w"
    by (rule ext, rule read_frame) (rule GetTransactionStatus_frame)+
  have old: "cached_sat cl ?P (kv w)" using co by (simp add: status_coherent_def)
  have "cached_sat cl ?P (redis_Set cl (kv w) (tx_status_key k) data ttl)"
    if "txn_GetByID repo w k = Inr t" "marshal_Transaction t = Some data" for t data ttl
    using cl old that unmarshal_marshal_Transaction [OF that(2)]
    by (intro redis_service.set_sat) (auto simp: status_agrees_def)
  with old status_kv [OF s, of k w] have "cached_sat cl ?P (kv ?w')" by auto
  then show ?thesis by (simp add: status_coherent_def read)
qed

end

section \<open>Properties\<close>

text \<open>
  C17. A status inquiry through a coherent cache answers what the repository would answer and
  leaves the cache coherent, for PostgreSQL repositories with or without a replica and any
  cache server that returns only stored values.
\<close>

theorem GetTransactionStatus_transparent:
  assumes "redis_service cl" "ts_redis s = Some cl" "ts_repo s = pg_tx_repo drv now orc r"
    and "status_coherent cl (pg_tx_repo drv now orc r) w"
    and "GetTransactionStatus s k w = (res, w')"
  shows "res = pg_tx_GetByID orc r w k \<and> status_coherent cl (pg_tx_repo drv now orc r) w'"
  using pg_txr.status_transparent [OF assms(3,2,4), of k]
    pg_txr.status_keeps_coherent [OF assms(3,2,1,4), of k] assms(5)
  by simp

lemma empty_store_status: "kv w = store0 \<Longrightarrow> status_coherent ks_client repo w"
  by (simp add: status_coherent_def cached_sat_def ks_defs store0_def)

lemma async_world_sel: "kv async_world = store0"
  by (simp add: async_world_def createAsync_def Let_def async_svc_def pg_tx_Save_def pub0_def
      marshal_TxMessage_def pg_tx_UpdateStatus_def split: prod.split option.split)

theorem GetTransactionStatus_transparent_witness:
  "fst (GetTransactionStatus async_svc ''txn1'' async_world) =
     pg_tx_GetByID orc0 (pg_NewTransactionRepository PrimaryDB None) async_world ''txn1''"
  using GetTransactionStatus_transparent [OF ks.redis_service_axioms _ _ empty_store_status [OF async_world_sel]
      prod.collapse [symmetric], of async_svc drv0 7 orc0 "pg_NewTransactionRepository PrimaryDB None" "''txn1''"]
  by (simp add: async_svc_def primary_txs_def)

lemma cached_transaction_Some:
  "cached_transaction (Some cl) k r = Some t \<longleftrightarrow>
     (\<exists>b. redis_Get cl r (tx_status_key k) = Inr b \<and> unmarshal_Transaction b = Some t)"
  by (auto simp: cached_transaction_def split: sum.splits)

lemma status_miss:
  assumes "ts_redis s = Some cl" "ts_repo s = pg_tx_repo drv now orc r" "cached_transaction (Some cl) k (kv w) = None"
  shows "fst (GetTransactionStatus s k w) = pg_tx_GetByID orc r w k"
    "GetTransactionStatus s k w = (Inr t, w') \<Longrightarrow> marshal_Transaction t = Some data \<Longrightarrow>
       kv w' = redis_Set cl (kv w) (tx_status_key k) data (status_ttl s t)"
    "GetTransactionStatus s k w = (Inr t, w') \<Longrightarrow> marshal_Transaction t = None \<Longrightarrow> kv w' = kv w"
  using assms
  by (auto simp: GetTransactionStatus_def Let_def pg_txr.read_log [simplified] pg_txr.read_miss [simplified]
      split: sum.splits option.splits)

context redis_expiring
begin

text \<open>An entry written over a miss is no hit any more when its expiration is over.\<close>

lemma set_elapsed_miss:
  assumes "cached_transaction (Some cl) k r = None" "0 < ttl" "ttl \<le> dt"
  shows "cached_transaction (Some cl) k (elapse dt (redis_Set cl r (tx_status_key k) v ttl)) = None"
proof (rule ccontr)
  let ?r = "redis_Set cl r (tx_status_key k) v ttl"
  assume "cached_transaction (Some cl) k (elapse dt ?r) \<noteq> None"
  then obtain t b where b: "redis_Get cl (elapse dt ?r) (tx_status_key k) = Inr b" "unmarshal_Transaction b = Some t"
    by (auto simp: cached_transaction_Some)
  have "\<not> expires_in ?r (tx_status_key k) ttl"
    using expired [OF elapse_expires, of ?r "tx_status_key k" ttl dt b] b(1) assms(3) by auto
  with set_own [OF elapse_get [OF b(1)]] assms(2) have "redis_Get cl r (tx_status_key k) = Inr b" by blast
  with b(2) assms(1) show False by (simp add: cached_transaction_def)
qed

lemma elapse_miss:
  "cached_transaction (Some cl) k r = None \<Longrightarrow> cached_transaction (Some cl) k (elapse dt r) = None"
  using elapse_get [of dt r "tx_status_key k"] by (fastforce simp: cached_transaction_def split: sum.splits)

end


definition row1 :: transaction_row where
  "row1 = \<lparr>row_source = 1001, row_dest = 1002, row_amount = 5000, row_status = StatusPending, row_created = 1, row_updated = 1\<rparr>"

definition stored1 :: Transaction where
  "stored1 = \<lparr>tx_ID = ''txn1'', tx_SourceAccount = 1001, tx_DestAccount = 1002, tx_Amount = 50,
     tx_Status = StatusPending, tx_CreatedAt = 1, tx_UpdatedAt = 1\<rparr>"

lemma async_world_primary: "primary async_world = db0\<lparr>transactions := [''txn1'' \<mapsto> row1]\<rparr>"
  by (simp add: async_world_def createAsync_def Let_def async_svc_def pg_tx_Save_def autocommit_def pub0_def
      marshal_TxMessage_def statement_defs row1_def tx0_def)

lemma async_world_stored:
  "pg_tx_GetByID orc0 (pg_NewTransactionRepository PrimaryDB None) w ''txn1'' = Inr stored1"
  if "transactions (primary w) = [''txn1'' \<mapsto> row1]"
  using that by (simp add: pg_tx_GetByID_Inr select_transaction_def row1_def stored1_def)


end
