(* ===== verification/Worker.thy ===== *)
theory Worker
  imports TransactionService StatusInquiry
begin

text \<open>
  The queue consumer, \<open>internal/worker/transaction.go\<close>: \<open>settle\<close> (debit, credit and mark
  completed in one database transaction) and \<open>process\<close> (decode, skip what is already
  completed, settle, then acknowledge or dead-letter).
\<close>

section \<open>Settling\<close>

text \<open>\<open>wk_queue\<close> is \<open>(*queue.Client).Consume\<close> as the worker calls it.\<close>

record ('r, 'b, 'd) worker =
  wk_db :: dbconn
  wk_queue :: "'b \<Rightarrow> string \<Rightarrow> (err + 'd) \<times> 'b"
  wk_redis :: "'r redis_client option"
  wk_repo :: "('r, 'b) world transaction_repository"

definition NewWorker ::
  "dbconn \<Rightarrow> ('b \<Rightarrow> string \<Rightarrow> (err + 'd) \<times> 'b) \<Rightarrow> 'r redis_client option \<Rightarrow>
   ('r, 'b) world transaction_repository \<Rightarrow> ('r, 'b, 'd) worker" where
  "NewWorker conn q rdb repo = \<lparr>wk_db = conn, wk_queue = q, wk_redis = rdb, wk_repo = repo\<rparr>"

definition settle_body :: "db_call \<Rightarrow> TxMessage \<Rightarrow> database \<Rightarrow> err + database" where
  "settle_body e p d =
     (let flt = fault (dc_orc e); drv = dc_drv e; now = dc_now e
      in ebind (wrapE ''begin transaction'' (exec_stmt flt BeginTx (Inr ()))) (\<lambda>_.
         ebind (case query_row flt QuerySource (select_balance_for_update d (msg_SourceAccount p)) of
                  Inl x \<Rightarrow> if errors_Is x ErrNoRows
                           then Inl (ErrText (''source account '' @ fmt_d (sint (msg_SourceAccount p)) @ '' not found''))
                           else Inl (ErrWrap ''query source account'' x)
                | Inr b \<Rightarrow> Inr b) (\<lambda>balance.
         if balance < msg_Amount p then Inl (ErrShortFunds balance (msg_Amount p))
         else
           ebind (wrapE ''debit source''
                    (exec_stmt flt ExecDebit (update_debit drv now (msg_Amount p) (msg_SourceAccount p) d))) (\<lambda>d1.
           ebind (wrapE ''credit dest''
                    (exec_stmt flt ExecCredit (update_credit drv now (msg_Amount p) (msg_DestAccount p) d1))) (\<lambda>d2.
           wrapE ''update transaction status''
             (exec_stmt flt ExecMark (update_status now StatusCompleted (msg_TXID p) d2)))))))"

definition settle :: "db_call \<Rightarrow> dbconn \<Rightarrow> TxMessage \<Rightarrow> ('r, 'b) world \<Rightarrow> err option \<times> ('r, 'b) world" where
  "settle e conn p w =
     (case settle_body e p (db_of conn w) of
        Inl x \<Rightarrow> (Some x, w)
      | Inr work \<Rightarrow> (let (x, d) = commit_tx (dc_orc e) (db_of conn w) work in (x, db_set conn d w)))"

section \<open>Processing one delivery\<close>

definition invalidateTxStatusCache ::
  "'r redis_client option \<Rightarrow> string \<Rightarrow> ('r, 'b) world \<Rightarrow> ('r, 'b) world" where
  "invalidateTxStatusCache rc k w =
     (case rc of None \<Rightarrow> w | Some c \<Rightarrow> w\<lparr>kv := redis_Del c (kv w) [tx_status_key k]\<rparr>)"

text \<open>\<open>Ack(multiple)\<close> and \<open>Nack(multiple, requeue)\<close>; without requeue the broker dead-letters.\<close>

datatype ack_call = Ack bool | Nack bool bool

definition process ::
  "('r, 'b, 'd) worker \<Rightarrow> db_call \<Rightarrow> bytes \<Rightarrow> ('r, 'b) world \<Rightarrow> ack_call \<times> ('r, 'b) world" where
  "process wk e body w =
     (case unmarshal_TxMessage body of
        None \<Rightarrow> (Nack False False, w)
      | Some p \<Rightarrow>
          (if (case txn_GetByID (wk_repo wk) w (msg_TXID p) of
                 Inl _ \<Rightarrow> False | Inr existing \<Rightarrow> tx_Status existing = StatusCompleted)
           then (Ack False, w)
           else
             (case settle e (wk_db wk) p w of
                (Some x, w1) \<Rightarrow>
                  (Nack False False, snd (txn_UpdateStatus (wk_repo wk) w1 (msg_TXID p) StatusFailed))
              | (None, w1) \<Rightarrow>
                  (Ack False,
                   invalidateTxStatusCache (wk_redis wk) (msg_TXID p)
                     (invalidateBalanceCache (wk_redis wk) [msg_SourceAccount p, msg_DestAccount p] w1)))))"

section \<open>The transfer contract\<close>

lemma settle_body_Inr:
  "settle_body e p d = Inr d' \<longleftrightarrow>
     (\<forall>st \<in> {BeginTx, QuerySource, ExecDebit, ExecCredit, ExecMark}. fault (dc_orc e) st = None) \<and>
     (\<exists>b d1 d2. select_balance_for_update d (msg_SourceAccount p) = Some b \<and> \<not> b < msg_Amount p \<and>
        update_debit (dc_drv e) (dc_now e) (msg_Amount p) (msg_SourceAccount p) d = Inr d1 \<and>
        update_credit (dc_drv e) (dc_now e) (msg_Amount p) (msg_DestAccount p) d1 = Inr d2 \<and>
        update_status (dc_now e) StatusCompleted (msg_TXID p) d2 = Inr d')"
  by (auto simp: settle_body_def Let_def Inr_split split: if_splits)

lemma settle_body_ok: "settle_body e p d = Inr d' \<Longrightarrow> db_ok d \<Longrightarrow> db_ok d'"
  by (auto simp: settle_body_Inr update_debit_def update_credit_def
      dest!: update_balance_ok update_status_ok)

interpretation stl: transfer_body
  "\<lambda>(e, p). settle_body e p" "\<lambda>(e, p). dc_drv e"
  "\<lambda>(e, p). msg_SourceAccount p" "\<lambda>(e, p). msg_DestAccount p" "\<lambda>(e, p). msg_Amount p"
proof (unfold_locales, goal_cases)
  case (1 q d d')
  obtain e p where q: "q = (e, p)" by (cases q)
  with 1 have "settle_body e p d = Inr d'" by simp
  then show ?case unfolding q settle_body_Inr prod.case using update_status_frame(1) by blast
next
  case (2 q d d')
  then show ?case by (cases q) (auto intro: settle_body_ok)
qed

lemma settle_body_transactions:
  assumes "settle_body e p d = Inr d'"
  shows "dom (transactions d') = dom (transactions d)"
    "k \<noteq> msg_TXID p \<Longrightarrow> transactions d' k = transactions d k"
    "transactions d (msg_TXID p) = Some r \<Longrightarrow>
       transactions d' (msg_TXID p) = Some (r\<lparr>row_status := StatusCompleted, row_updated := dc_now e\<rparr>)"
proof -
  from assms obtain d1 d2 where
    d1: "update_debit (dc_drv e) (dc_now e) (msg_Amount p) (msg_SourceAccount p) d = Inr d1" and
    d2: "update_credit (dc_drv e) (dc_now e) (msg_Amount p) (msg_DestAccount p) d1 = Inr d2" and
    d': "update_status (dc_now e) StatusCompleted (msg_TXID p) d2 = Inr d'"
    by (auto simp: settle_body_Inr)
  have t: "transactions d2 = transactions d"
    using update_balance_frame(1) d1 d2 by (metis update_credit_def update_debit_def)
  show "dom (transactions d') = dom (transactions d)"
    "k \<noteq> msg_TXID p \<Longrightarrow> transactions d' k = transactions d k"
    using update_status_frame [OF d'] t by simp_all
  show "transactions d' (msg_TXID p) = Some (r\<lparr>row_status := StatusCompleted, row_updated := dc_now e\<rparr>)"
    if "transactions d (msg_TXID p) = Some r"
    using d' t that by (auto simp: update_status_def split: if_splits)
qed

lemma settle_iff:
  "settle e conn p w = (x, w') \<longleftrightarrow>
     (\<exists>y. settle_body e p (db_of conn w) = Inl y \<and> x = Some y \<and> w' = w) \<or>
     (\<exists>work d. settle_body e p (db_of conn w) = Inr work \<and>
        commit_tx (dc_orc e) (db_of conn w) work = (x, d) \<and> w' = db_set conn d w)"
  by (auto simp: settle_def split: sum.splits prod.splits)

lemma settle_None:
  "settle e conn p w = (None, w') \<longleftrightarrow>
     (\<exists>d. settle_body e p (db_of conn w) = Inr d \<and> fault (dc_orc e) CommitTx = None \<and> w' = db_set conn d w)"
  by (auto simp: settle_iff commit_tx_None)

lemma settle_atomic:
  assumes "settle e conn p w = (x, w')"
  shows "db_of conn w' = db_of conn w \<or> settle_body e p (db_of conn w) = Inr (db_of conn w')"
  using assms by (auto simp: settle_iff dest!: commit_tx_cases)

lemma invalidateTxStatusCache_frame [simp]:
  "primary (invalidateTxStatusCache rc k w) = primary w"
  "standby (invalidateTxStatusCache rc k w) = standby w"
  "broker (invalidateTxStatusCache rc k w) = broker w"
  "mem_txs (invalidateTxStatusCache rc k w) = mem_txs w"
  "mem_accounts (invalidateTxStatusCache rc k w) = mem_accounts w"
  by (simp_all add: invalidateTxStatusCache_def split: option.splits)

end
