(* ===== verification/RowLocks.thy ===== *)
theory RowLocks
  imports TransactionService Worker
begin

text \<open>
  Concurrent database transactions, statement by statement. The other theories run
  \<open>createSync\<close> and \<open>settle\<close> as one step; here their statements interleave with those of other
  requests and workers under \<open>sql.LevelReadCommitted\<close>: a statement sees what is committed when
  it runs and the rows its own transaction wrote, and it waits for the lock of the row it
  updates (or reads \<open>FOR UPDATE\<close>) until no other transaction holds it. The result is that every
  interleaving is equivalent to running the transactions one after another, in the order of
  their commits.
\<close>

section \<open>Programs\<close>

datatype rowlock = AccRow int64 | TxRow string

text \<open>
  A statement with the row it locks; \<open>None\<close> as a result means that the statement, or the check
  the code makes on what it returned, fails, after which the code rolls back.
\<close>

type_synonym stmt = "rowlock option \<times> (database \<Rightarrow> database option)"

definition okay :: "err + 'a \<Rightarrow> 'a option" where
  "okay r = (case r of Inl _ \<Rightarrow> None | Inr x \<Rightarrow> Some x)"

lemma okay_Some [simp]: "okay r = Some x \<longleftrightarrow> r = Inr x"
  by (auto simp: okay_def split: sum.splits)

lemma case_Some_iff [simp]:
  "(case x of None \<Rightarrow> None | Some y \<Rightarrow> f y) = Some z \<longleftrightarrow> (\<exists>y. x = Some y \<and> f y = Some z)"
  by (cases x) auto

text \<open>
  The transactions of the program: the synchronous path, the settlement, and the two
  statements of the repository that commit by themselves, \<open>Save\<close> and \<open>UpdateStatus\<close>.
\<close>

datatype job =
    JSync db_call Transaction
  | JSettle db_call TxMessage
  | JSave driver Transaction
  | JMark gotime Status string

definition begin_stmt :: "db_call \<Rightarrow> stmt" where
  "begin_stmt e = (None, \<lambda>d. okay (exec_stmt (fault (dc_orc e)) BeginTx (Inr d)))"

definition lock_source :: "db_call \<Rightarrow> int64 \<Rightarrow> float64 \<Rightarrow> stmt" where
  "lock_source e i amount = (Some (AccRow i),
     \<lambda>d. case okay (query_row (fault (dc_orc e)) QuerySource (select_balance_for_update d i)) of
           None \<Rightarrow> None
         | Some balance \<Rightarrow> if balance < amount then None else Some d)"

definition debit_stmt :: "db_call \<Rightarrow> int64 \<Rightarrow> float64 \<Rightarrow> stmt" where
  "debit_stmt e i amount = (Some (AccRow i),
     \<lambda>d. okay (exec_stmt (fault (dc_orc e)) ExecDebit (update_debit (dc_drv e) (dc_now e) amount i d)))"

definition credit_stmt :: "db_call \<Rightarrow> int64 \<Rightarrow> float64 \<Rightarrow> stmt" where
  "credit_stmt e i amount = (Some (AccRow i),
     \<lambda>d. okay (exec_stmt (fault (dc_orc e)) ExecCredit (update_credit (dc_drv e) (dc_now e) amount i d)))"

fun prog :: "job \<Rightarrow> stmt list" where
  "prog (JSync e tx) =
     [begin_stmt e,
      lock_source e (tx_SourceAccount tx) (tx_Amount tx),
      (None, \<lambda>d. case okay (query_row (fault (dc_orc e)) QueryDest (Some (select_account_exists d (tx_DestAccount tx)))) of
                   None \<Rightarrow> None
                 | Some exists \<Rightarrow> if \<not> exists then None else Some d),
      debit_stmt e (tx_SourceAccount tx) (tx_Amount tx),
      credit_stmt e (tx_DestAccount tx) (tx_Amount tx),
      (Some (TxRow (tx_ID tx)), \<lambda>d. okay (exec_stmt (fault (dc_orc e)) ExecInsert
         (upsert_transaction (dc_drv e) (tx\<lparr>tx_Status := StatusCompleted\<rparr>) d)))]"
| "prog (JSettle e p) =
     [begin_stmt e,
      lock_source e (msg_SourceAccount p) (msg_Amount p),
      debit_stmt e (msg_SourceAccount p) (msg_Amount p),
      credit_stmt e (msg_DestAccount p) (msg_Amount p),
      (Some (TxRow (msg_TXID p)), \<lambda>d. okay (exec_stmt (fault (dc_orc e)) ExecMark
         (update_status (dc_now e) StatusCompleted (msg_TXID p) d)))]"
| "prog (JSave drv tx) = [(Some (TxRow (tx_ID tx)), \<lambda>d. okay (insert_transaction drv tx d))]"
| "prog (JMark now st k) = [(Some (TxRow k), \<lambda>d. okay (update_status now st k d))]"

text \<open>The same transactions as single steps, as the other theories run them.\<close>

fun job_body :: "job \<Rightarrow> database \<Rightarrow> err + database" where
  "job_body (JSync e tx) d = sync_body e tx d"
| "job_body (JSettle e p) d = settle_body e p d"
| "job_body (JSave drv tx) d = insert_transaction drv tx d"
| "job_body (JMark now st k) d = update_status now st k d"

fun replay :: "job list \<Rightarrow> database \<Rightarrow> err + database" where
  "replay [] d = Inr d"
| "replay (j # js) d = ebind (job_body j d) (replay js)"

lemma replay_append [simp]: "replay (js @ ks) d = ebind (replay js d) (replay ks)"
  by (induction js arbitrary: d) (auto simp: ebind_def split: sum.splits)

fun run_all :: "stmt list \<Rightarrow> database \<Rightarrow> database option" where
  "run_all [] d = Some d"
| "run_all ((l, F) # P) d = (case F d of None \<Rightarrow> None | Some d' \<Rightarrow> run_all P d')"

lemma run_all_append:
  "run_all (P @ R) d = (case run_all P d of None \<Rightarrow> None | Some d' \<Rightarrow> run_all R d')"
  by (induction P d rule: run_all.induct) (auto split: option.splits)

lemma run_all_prefix: "run_all P d = Some d' \<Longrightarrow> \<exists>v. run_all (take n P) d = Some v"
  using run_all_append [of "take n P" "drop n P" d] by (auto split: option.splits)

lemma run_all_prog: "run_all (prog j) d = Some d' \<longleftrightarrow> job_body j d = Inr d'"
  by (cases j)
     (auto simp: begin_stmt_def lock_source_def debit_stmt_def credit_stmt_def sync_body_Inr settle_body_Inr
      split: if_splits)

section \<open>Statements touch only the row they lock\<close>

text \<open>\<open>merge L own c\<close> is the committed state \<open>c\<close> with the versions \<open>own\<close> of the rows in \<open>L\<close>.\<close>

definition merge :: "rowlock set \<Rightarrow> database \<Rightarrow> database \<Rightarrow> database" where
  "merge L own c = c\<lparr>
     accounts := (\<lambda>i. if AccRow i \<in> L then accounts own i else accounts c i),
     transactions := (\<lambda>k. if TxRow k \<in> L then transactions own k else transactions c k)\<rparr>"

lemma merge_sel [simp]:
  "accounts (merge L own c) i = (if AccRow i \<in> L then accounts own i else accounts c i)"
  "transactions (merge L own c) k = (if TxRow k \<in> L then transactions own k else transactions c k)"
  by (simp_all add: merge_def)

lemma database_eqI: "accounts d = accounts d' \<Longrightarrow> transactions d = transactions d' \<Longrightarrow> d = (d' :: database)"
  by simp

lemma eq_merge:
  "d = merge L own c \<longleftrightarrow>
     (\<forall>i. accounts d i = (if AccRow i \<in> L then accounts own i else accounts c i)) \<and>
     (\<forall>k. transactions d k = (if TxRow k \<in> L then transactions own k else transactions c k))"
  by (auto intro!: database_eqI)

lemma self_merge:
  "d = merge L d c \<longleftrightarrow>
     (\<forall>i. AccRow i \<notin> L \<longrightarrow> accounts d i = accounts c i) \<and> (\<forall>k. TxRow k \<notin> L \<longrightarrow> transactions d k = transactions c k)"
  unfolding eq_merge by auto

lemma merge_empty [simp]: "merge {} own c = c"
  by (simp add: merge_def)

lemma merge_merge [simp]: "merge L (merge L own c) c' = merge L own c'"
  by (simp add: merge_def cong: if_cong)

definition agree :: "rowlock set \<Rightarrow> database \<Rightarrow> database \<Rightarrow> bool" where
  "agree L c c' \<longleftrightarrow>
     (\<forall>i. AccRow i \<in> L \<longrightarrow> accounts c i = accounts c' i) \<and>
     (\<forall>k. TxRow k \<in> L \<longrightarrow> transactions c k = transactions c' k)"

lemma agree_refl: "agree L c c"
  by (simp add: agree_def)

text \<open>
  A statement is local when its success and effect depend only on its row and on which
  accounts exist, it changes nothing else, and it keeps the set of accounts.
\<close>

definition stmt_local :: "stmt \<Rightarrow> bool" where
  "stmt_local x \<longleftrightarrow> (case x of (l, F) \<Rightarrow> \<forall>c c' d.
     dom (accounts c) = dom (accounts c') \<longrightarrow> agree (set_option l) c c' \<longrightarrow> F c = Some d \<longrightarrow>
     d = merge (set_option l) d c \<and> F c' = Some (merge (set_option l) d c') \<and> dom (accounts d) = dom (accounts c))"

lemma stmt_localI:
  assumes "\<And>c c' d. dom (accounts c) = dom (accounts c') \<Longrightarrow> agree (set_option l) c c' \<Longrightarrow> F c = Some d \<Longrightarrow>
     d = merge (set_option l) d c \<and> F c' = Some (merge (set_option l) d c') \<and> dom (accounts d) = dom (accounts c)"
  shows "stmt_local (l, F)"
  using assms unfolding stmt_local_def by blast

definition locks :: "stmt list \<Rightarrow> rowlock set" where
  "locks P = (\<Union>x \<in> set P. set_option (fst x))"

lemma locks_simps [simp]:
  "locks [] = {}" "locks (x # P) = set_option (fst x) \<union> locks P" "locks (P @ R) = locks P \<union> locks R"
  by (auto simp: locks_def)

lemma run_local:
  assumes "\<And>x. x \<in> set P \<Longrightarrow> stmt_local x" "run_all P c = Some d"
    "dom (accounts c) = dom (accounts c')" "agree (locks P) c c'"
  shows "d = merge (locks P) d c \<and> run_all P c' = Some (merge (locks P) d c') \<and> dom (accounts d) = dom (accounts c)"
  using assms
proof (induction P arbitrary: c c')
  case Nil
  then show ?case by simp
next
  case (Cons x P)
  obtain l F where x: "x = (l, F)" by (cases x)
  from Cons.prems(2) x obtain d1 where d1: "F c = Some d1" and rest: "run_all P d1 = Some d" by auto
  have "stmt_local (l, F)" using Cons.prems(1) x by simp
  moreover have "agree (set_option l) c c'" using Cons.prems(4) x by (auto simp: agree_def)
  ultimately have loc: "d1 = merge (set_option l) d1 c" "F c' = Some (merge (set_option l) d1 c')"
    "dom (accounts d1) = dom (accounts c)"
    using Cons.prems(3) d1 unfolding stmt_local_def by blast+
  let ?c1 = "merge (set_option l) d1 c'"
  have acc: "AccRow i \<notin> set_option l \<Longrightarrow> accounts d1 i = accounts c i"
    "TxRow k \<notin> set_option l \<Longrightarrow> transactions d1 k = transactions c k" for i k
    using loc(1) unfolding self_merge by blast+
  have ag: "agree (locks P) d1 ?c1"
    using Cons.prems(4) x acc unfolding agree_def by auto
  have "i \<in> dom (accounts d1) \<longleftrightarrow> i \<in> dom (accounts ?c1)" for i
    using loc(3) Cons.prems(3) by (auto simp: domIff)
  then have dm: "dom (accounts d1) = dom (accounts ?c1)" by blast
  have ih: "d = merge (locks P) d d1" "run_all P ?c1 = Some (merge (locks P) d ?c1)" "dom (accounts d) = dom (accounts d1)"
    using Cons.IH [OF _ rest dm ag] Cons.prems(1) by auto
  have acc2: "AccRow i \<notin> locks P \<Longrightarrow> accounts d i = accounts d1 i"
    "TxRow k \<notin> locks P \<Longrightarrow> transactions d k = transactions d1 k" for i k
    using ih(1) unfolding self_merge by blast+
  have "d = merge (set_option l \<union> locks P) d c" unfolding self_merge using acc acc2 by simp
  moreover have "merge (locks P) d ?c1 = merge (set_option l \<union> locks P) d c'"
    unfolding eq_merge using acc2 by auto
  ultimately show ?case using ih loc(2,3) x by simp
qed

lemma local_update_balance:
  "stmt_local (Some (AccRow i), \<lambda>d. okay (exec_stmt flt s (update_balance f now i d)))"
  by (rule stmt_localI) (auto simp: agree_def eq_merge update_balance_def split: option.splits)

lemma local_insert_row:
  assumes "insert_row t r c = Inr d" "dom (accounts c) = dom (accounts c')"
  shows "insert_row t r c' = Inr (merge {TxRow (tx_ID t)} d c')" "d = merge {TxRow (tx_ID t)} d c" "accounts d = accounts c"
proof -
  have "accounts c i = None \<longleftrightarrow> accounts c' i = None" for i using assms(2) by (metis domIff)
  with assms(1) show "insert_row t r c' = Inr (merge {TxRow (tx_ID t)} d c')"
    "d = merge {TxRow (tx_ID t)} d c" "accounts d = accounts c"
    by (auto simp: insert_row_def eq_merge split: if_splits)
qed

lemma new_row_any: "new_row drv t c = new_row drv t c'"
  by (simp add: new_row_def)

lemma local_insert: "stmt_local (Some (TxRow (tx_ID t)), \<lambda>d. okay (insert_transaction drv t d))"
proof (rule stmt_localI)
  fix c c' d
  assume a: "dom (accounts c) = dom (accounts c')" "agree (set_option (Some (TxRow (tx_ID t)))) c c'"
    "okay (insert_transaction drv t c) = Some d"
  from a(3) obtain r where r: "new_row drv t c = Inr r" "transactions c (tx_ID t) = None" "insert_row t r c = Inr d"
    by (auto simp: insert_transaction_def split: if_splits)
  have "new_row drv t c' = Inr r" "transactions c' (tx_ID t) = None"
    using r a(2) by (simp_all add: new_row_any [of drv t c' c] agree_def)
  with local_insert_row [OF r(3) a(1)] show "d = merge (set_option (Some (TxRow (tx_ID t)))) d c \<and>
      okay (insert_transaction drv t c') = Some (merge (set_option (Some (TxRow (tx_ID t)))) d c') \<and>
      dom (accounts d) = dom (accounts c)"
    by (simp add: insert_transaction_def)
qed

lemma local_upsert:
  "stmt_local (Some (TxRow (tx_ID t)), \<lambda>d. okay (exec_stmt flt s (upsert_transaction drv t d)))"
proof (rule stmt_localI)
  fix c c' d
  assume a: "dom (accounts c) = dom (accounts c')" "agree (set_option (Some (TxRow (tx_ID t)))) c c'"
    "okay (exec_stmt flt s (upsert_transaction drv t c)) = Some d"
  from a(3) obtain r where f: "flt s = None" and r: "new_row drv t c = Inr r"
    and u: "(case transactions c (tx_ID t) of
              Some old \<Rightarrow> Inr (c\<lparr>transactions := (transactions c)(tx_ID t \<mapsto>
                old\<lparr>row_status := row_status r, row_updated := row_updated r\<rparr>)\<rparr>)
            | None \<Rightarrow> insert_row t r c) = Inr d"
    by (auto simp: upsert_transaction_def)
  have eq: "transactions c' (tx_ID t) = transactions c (tx_ID t)" using a(2) by (simp add: agree_def)
  have r': "new_row drv t c' = Inr r" using r by (simp add: new_row_any [of drv t c' c])
  show "d = merge (set_option (Some (TxRow (tx_ID t)))) d c \<and>
      okay (exec_stmt flt s (upsert_transaction drv t c')) = Some (merge (set_option (Some (TxRow (tx_ID t)))) d c') \<and>
      dom (accounts d) = dom (accounts c)"
  proof (cases "transactions c (tx_ID t)")
    case None
    with u have "insert_row t r c = Inr d" by simp
    from local_insert_row [OF this a(1)] None eq f r' show ?thesis
      by (simp add: upsert_transaction_def)
  next
    case (Some old)
    with u have "d = c\<lparr>transactions := (transactions c)(tx_ID t \<mapsto>
        old\<lparr>row_status := row_status r, row_updated := row_updated r\<rparr>)\<rparr>" by simp
    with Some eq f r' show ?thesis by (simp add: upsert_transaction_def eq_merge)
  qed
qed

lemma update_status_row:
  assumes "update_status now st k c = Inr d" "transactions c k = transactions c' k"
  shows "d = merge {TxRow k} d c" "update_status now st k c' = Inr (merge {TxRow k} d c')" "accounts d = accounts c"
  using assms by (auto simp: eq_merge update_status_def split: option.splits if_splits)

lemma local_update_status:
  "stmt_local (Some (TxRow k), \<lambda>d. okay (update_status now st k d))"
  "stmt_local (Some (TxRow k), \<lambda>d. okay (exec_stmt flt s (update_status now st k d)))"
proof -
  have "stmt_local (Some (TxRow k), \<lambda>d. okay (g (update_status now st k d)))"
    if "\<And>r x. g r = Inr x \<longleftrightarrow> flt' \<and> r = Inr (x :: database)" for g :: "err + database \<Rightarrow> err + database" and flt'
    by (rule stmt_localI) (use that update_status_row in \<open>simp add: agree_def, metis\<close>)
  from this [of "\<lambda>r. r" True] this [of "exec_stmt flt s" "flt s = None"]
  show "stmt_local (Some (TxRow k), \<lambda>d. okay (update_status now st k d))"
    "stmt_local (Some (TxRow k), \<lambda>d. okay (exec_stmt flt s (update_status now st k d)))" by simp_all
qed

text \<open>
  The interface between the programs and the interleaving below: programs whose statements
  are local.
\<close>

locale row_local =
  fixes pr :: "'j \<Rightarrow> stmt list"
  assumes all_local: "x \<in> set (pr j) \<Longrightarrow> stmt_local x"
begin

lemma prefix_local: "x \<in> set (take n (pr j)) \<Longrightarrow> stmt_local x"
  by (rule all_local) (rule in_set_takeD)

lemma stmt_effect:
  assumes "n < length (pr j)" "pr j ! n = (l, F)" "F c = Some d"
  shows "d = merge (set_option l) d c" "dom (accounts d) = dom (accounts c)"
proof -
  have "stmt_local (l, F)" using all_local [of "(l, F)" j] assms(1,2) by (metis nth_mem)
  then show "d = merge (set_option l) d c" "dom (accounts d) = dom (accounts c)"
    using assms(3) agree_refl unfolding stmt_local_def by blast+
qed

text \<open>What a transaction has done so far is unaffected by changes to rows it has not locked.\<close>

lemma prefix_stable:
  assumes "run_all (take n (pr j)) c = Some (merge (locks (take n (pr j))) own c)"
    "dom (accounts c) = dom (accounts c')" "agree (locks (take n (pr j))) c c'"
  shows "run_all (take n (pr j)) c' = Some (merge (locks (take n (pr j))) own c')"
  using run_local [OF prefix_local assms] by simp

lemma prefix_step:
  assumes "n < length (pr j)" "pr j ! n = (l, F)" "run_all (take n (pr j)) c = Some v" "F v = Some d"
    "v = merge (locks (take n (pr j))) own c"
  shows "run_all (take (Suc n) (pr j)) c = Some (merge (locks (take (Suc n) (pr j))) d c)"
    "locks (take (Suc n) (pr j)) = locks (take n (pr j)) \<union> set_option l"
proof -
  show L: "locks (take (Suc n) (pr j)) = locks (take n (pr j)) \<union> set_option l"
    using assms(1,2) by (simp add: take_Suc_conv_app_nth)
  have "run_all (take (Suc n) (pr j)) c = Some d"
    using assms(1-4) by (simp add: take_Suc_conv_app_nth run_all_append)
  moreover have "d = merge (locks (take n (pr j)) \<union> set_option l) d c"
    using stmt_effect(1) [OF assms(1,2,4)] unfolding self_merge assms(5) by simp
  ultimately show "run_all (take (Suc n) (pr j)) c = Some (merge (locks (take (Suc n) (pr j))) d c)"
    using L by simp
qed

end

interpretation jobs: row_local prog
proof
  fix x j
  assume x: "x \<in> set (prog j)"
  have b: "stmt_local (begin_stmt e)" for e
    unfolding begin_stmt_def by (rule stmt_localI) (auto simp: eq_merge)
  have s: "stmt_local (lock_source e i a)" for e i a
    unfolding lock_source_def
    by (rule stmt_localI)
       (auto simp: agree_def eq_merge select_balance_for_update_def balance_of_def split: if_splits)
  have q: "stmt_local (None, \<lambda>d. case okay (query_row flt st (Some (select_account_exists d i))) of
      None \<Rightarrow> None | Some exists \<Rightarrow> if \<not> exists then None else Some d)" for flt st i
    by (rule stmt_localI) (auto simp: eq_merge select_account_exists_def dom_def set_eq_iff split: if_splits)
  have m: "stmt_local (debit_stmt e i a)" "stmt_local (credit_stmt e i a)" for e i a
    unfolding debit_stmt_def credit_stmt_def update_debit_def update_credit_def by (rule local_update_balance)+
  have u: "stmt_local (Some (TxRow (tx_ID t)), \<lambda>d. okay (exec_stmt flt st (upsert_transaction drv (t\<lparr>tx_Status := y\<rparr>) d)))"
    for t flt st drv y
    using local_upsert [of "t\<lparr>tx_Status := y\<rparr>"] by simp
  show "stmt_local x"
    using x b s q m u local_insert local_update_status by (cases j) auto
qed

section \<open>Interleaving\<close>

text \<open>
  A transaction in progress: how many statements it has run, the row locks it holds until it
  ends, and its own versions of those rows.
\<close>

record session =
  ss_job :: job
  ss_pc :: nat
  ss_held :: "rowlock set"
  ss_own :: database

record iso =
  committed :: database
  sessions :: "nat \<rightharpoonup> session"
  history :: "job list"

abbreviation session_view :: "iso \<Rightarrow> session \<Rightarrow> database" where
  "session_view st s \<equiv> merge (ss_held s) (ss_own s) (committed st)"

text \<open>
  A lock is granted when no other transaction holds it. A statement on an account that does
  not exist locks nothing; accounts are neither inserted nor deleted by the program.
\<close>

definition present :: "database \<Rightarrow> rowlock \<Rightarrow> bool" where
  "present c l \<longleftrightarrow> (case l of AccRow i \<Rightarrow> i \<in> dom (accounts c) | TxRow _ \<Rightarrow> True)"

definition granted :: "iso \<Rightarrow> nat \<Rightarrow> rowlock \<Rightarrow> bool" where
  "granted st i l \<longleftrightarrow> (\<forall>j s. j \<noteq> i \<longrightarrow> sessions st j = Some s \<longrightarrow> l \<in> ss_held s \<longrightarrow> \<not> present (committed st) l)"

text \<open>
  The program marks only transactions whose row is committed: \<open>createAsync\<close> publishes a message,
  and marks it failed, after \<open>Save\<close> has returned. So the lock of a transaction's row is a lock
  on an existing row, or on the key that \<open>INSERT\<close> is about to use.
\<close>

fun job_ready :: "database \<Rightarrow> job \<Rightarrow> bool" where
  "job_ready c (JSettle e p) \<longleftrightarrow> transactions c (msg_TXID p) \<noteq> None"
| "job_ready c (JMark now st k) \<longleftrightarrow> transactions c k \<noteq> None"
| "job_ready c j \<longleftrightarrow> True"

text \<open>
  \<open>rollback\<close> covers every way a transaction can fail: a refused check, a failing statement, a
  lost connection, and being chosen as the victim of a deadlock.
\<close>

inductive iso_step :: "iso \<Rightarrow> iso \<Rightarrow> bool" where
  begin_tx: "sessions st i = None \<Longrightarrow> job_ready (committed st) j \<Longrightarrow>
     iso_step st (st\<lparr>sessions := (sessions st)(i \<mapsto> \<lparr>ss_job = j, ss_pc = 0, ss_held = {}, ss_own = committed st\<rparr>)\<rparr>)"
| statement: "sessions st i = Some s \<Longrightarrow> ss_pc s < length (prog (ss_job s)) \<Longrightarrow>
     prog (ss_job s) ! ss_pc s = (l, F) \<Longrightarrow> (\<And>x. l = Some x \<Longrightarrow> granted st i x) \<Longrightarrow> F (session_view st s) = Some d \<Longrightarrow>
     iso_step st (st\<lparr>sessions := (sessions st)(i \<mapsto>
       s\<lparr>ss_pc := Suc (ss_pc s), ss_held := ss_held s \<union> set_option l, ss_own := d\<rparr>)\<rparr>)"
| commit: "sessions st i = Some s \<Longrightarrow> ss_pc s = length (prog (ss_job s)) \<Longrightarrow>
     iso_step st \<lparr>committed = session_view st s, sessions = (sessions st)(i := None), history = history st @ [ss_job s]\<rparr>"
| rollback: "sessions st i = Some s \<Longrightarrow> iso_step st (st\<lparr>sessions := (sessions st)(i := None)\<rparr>)"

inductive iso_reach :: "database \<Rightarrow> iso \<Rightarrow> bool" for c0 where
  iso_start: "iso_reach c0 \<lparr>committed = c0, sessions = Map.empty, history = []\<rparr>"
| iso_more: "iso_reach c0 st \<Longrightarrow> iso_step st st' \<Longrightarrow> iso_reach c0 st'"

inductive_cases iso_step_cases: "iso_step st st'"

section \<open>Serialisability\<close>

definition session_ok :: "database \<Rightarrow> session \<Rightarrow> bool" where
  "session_ok c s \<longleftrightarrow>
     ss_pc s \<le> length (prog (ss_job s)) \<and>
     ss_held s = locks (take (ss_pc s) (prog (ss_job s))) \<and>
     run_all (take (ss_pc s) (prog (ss_job s))) c = Some (merge (ss_held s) (ss_own s) c)"

definition exclusive :: "iso \<Rightarrow> bool" where
  "exclusive st \<longleftrightarrow> (\<forall>i s j t l. sessions st i = Some s \<longrightarrow> sessions st j = Some t \<longrightarrow> i \<noteq> j \<longrightarrow>
     l \<in> ss_held s \<longrightarrow> l \<in> ss_held t \<longrightarrow> \<not> present (committed st) l)"

definition iso_inv :: "database \<Rightarrow> iso \<Rightarrow> bool" where
  "iso_inv c0 st \<longleftrightarrow>
     replay (history st) c0 = Inr (committed st) \<and> dom (accounts (committed st)) = dom (accounts c0) \<and>
     (\<forall>i s. sessions st i = Some s \<longrightarrow> session_ok (committed st) s) \<and> exclusive st"

lemma present_dom: "dom (accounts c) = dom (accounts c') \<Longrightarrow> present c l = present c' l"
  by (simp add: present_def split: rowlock.split)

lemma session_body:
  assumes "session_ok c s" "ss_pc s = length (prog (ss_job s))"
  shows "job_body (ss_job s) c = Inr (merge (ss_held s) (ss_own s) c)"
  using assms by (simp add: session_ok_def run_all_prog)

lemma session_dom:
  assumes "session_ok c s"
  shows "dom (accounts (merge (ss_held s) (ss_own s) c)) = dom (accounts c)"
proof -
  have "run_all (take (ss_pc s) (prog (ss_job s))) c = Some (merge (ss_held s) (ss_own s) c)"
    using assms by (simp add: session_ok_def)
  from run_local [OF jobs.prefix_local this refl agree_refl] show ?thesis by simp
qed

lemma session_stable:
  assumes ok: "session_ok c t" and c': "c' = merge (ss_held s) (ss_own s) c"
    and dm: "dom (accounts c') = dom (accounts c)"
    and ex: "\<And>l. l \<in> ss_held s \<Longrightarrow> l \<in> ss_held t \<Longrightarrow> \<not> present c l"
  shows "session_ok c' t"
proof -
  have "agree (ss_held t) c c'"
    unfolding agree_def
  proof (intro conjI allI impI)
    fix i assume i: "AccRow i \<in> ss_held t"
    have "accounts c i = None \<longleftrightarrow> accounts c' i = None" using dm by (metis domIff)
    then show "accounts c i = accounts c' i"
      using i ex [of "AccRow i"] by (cases "AccRow i \<in> ss_held s") (auto simp: present_def domIff c')
  next
    fix k assume "TxRow k \<in> ss_held t"
    then show "transactions c k = transactions c' k"
      using ex [of "TxRow k"] c' by (auto simp: present_def)
  qed
  with ok dm show ?thesis
    using jobs.prefix_stable [of "ss_pc t" "ss_job t" c "ss_own t" c'] by (simp add: session_ok_def)
qed

lemma iso_inv_begin:
  assumes "iso_inv c0 st" "sessions st i = None"
  shows "iso_inv c0 (st\<lparr>sessions := (sessions st)(i \<mapsto> \<lparr>ss_job = j, ss_pc = 0, ss_held = {}, ss_own = d\<rparr>)\<rparr>)"
  using assms by (auto simp: iso_inv_def session_ok_def exclusive_def)

lemma iso_inv_rollback:
  assumes "iso_inv c0 st"
  shows "iso_inv c0 (st\<lparr>sessions := (sessions st)(i := None)\<rparr>)"
  using assms by (auto simp: iso_inv_def exclusive_def)

lemma iso_inv_statement:
  assumes inv: "iso_inv c0 st" and s: "sessions st i = Some s"
    and st: "ss_pc s < length (prog (ss_job s))" "prog (ss_job s) ! ss_pc s = (l, F)"
    and g: "\<And>x. l = Some x \<Longrightarrow> granted st i x" and F: "F (session_view st s) = Some d"
  shows "iso_inv c0 (st\<lparr>sessions := (sessions st)(i \<mapsto>
       s\<lparr>ss_pc := Suc (ss_pc s), ss_held := ss_held s \<union> set_option l, ss_own := d\<rparr>)\<rparr>)" (is "iso_inv c0 (st\<lparr>sessions := (sessions st)(i \<mapsto> ?s)\<rparr>)")
proof -
  have ok: "session_ok (committed st) s" and ex: "exclusive st" using inv s by (auto simp: iso_inv_def)
  then have "run_all (take (ss_pc s) (prog (ss_job s))) (committed st) = Some (session_view st s)"
    and h: "ss_held s = locks (take (ss_pc s) (prog (ss_job s)))" by (simp_all add: session_ok_def)
  from jobs.prefix_step [OF st this(1) F] h st(1) have "session_ok (committed st) ?s"
    by (simp add: session_ok_def)
  moreover have "exclusive (st\<lparr>sessions := (sessions st)(i \<mapsto> ?s)\<rparr>)"
  proof -
    have "\<not> present (committed st) x"
      if "j \<noteq> i" "sessions st j = Some t" "x \<in> ss_held t" "x \<in> ss_held s \<or> l = Some x" for j t x
      using that g [of x] s ex unfolding granted_def exclusive_def by blast
    then show ?thesis using ex unfolding exclusive_def by simp
  qed
  ultimately show ?thesis using inv by (auto simp: iso_inv_def)
qed

lemma iso_inv_commit:
  assumes inv: "iso_inv c0 st" and s: "sessions st i = Some s" and pc: "ss_pc s = length (prog (ss_job s))"
  shows "iso_inv c0 \<lparr>committed = session_view st s, sessions = (sessions st)(i := None), history = history st @ [ss_job s]\<rparr>"
proof -
  have ok: "session_ok (committed st) s" and ex: "exclusive st" using inv s by (auto simp: iso_inv_def)
  note dm = session_dom [OF ok]
  have "session_ok (session_view st s) t" if "j \<noteq> i" "sessions st j = Some t" for j t
    using session_stable [OF _ refl dm, of t] inv ex s that unfolding iso_inv_def exclusive_def by blast
  moreover have "exclusive \<lparr>committed = session_view st s, sessions = (sessions st)(i := None), history = history st @ [ss_job s]\<rparr>"
    using ex present_dom [OF dm] unfolding exclusive_def by simp
  ultimately show ?thesis using inv session_body [OF ok pc] dm by (auto simp: iso_inv_def)
qed

lemma iso_reach_inv: "iso_reach c0 st \<Longrightarrow> iso_inv c0 st"
proof (induction rule: iso_reach.induct)
  case iso_start
  then show ?case by (simp add: iso_inv_def exclusive_def)
next
  case (iso_more st st')
  from iso_more.hyps(2) iso_more.IH show ?case
    by (cases rule: iso_step_cases)
       (auto intro: iso_inv_begin iso_inv_statement iso_inv_commit iso_inv_rollback)
qed

section \<open>Reaching a state\<close>

lemma iso_reach_steps: "iso_step\<^sup>*\<^sup>* st st' \<Longrightarrow> iso_reach c0 st \<Longrightarrow> iso_reach c0 st'"
  by (induction rule: rtranclp_induct) (auto intro: iso_more)

definition fresh :: "job \<Rightarrow> database \<Rightarrow> session" where
  "fresh j c = \<lparr>ss_job = j, ss_pc = 0, ss_held = {}, ss_own = c\<rparr>"

definition ran_to :: "job \<Rightarrow> nat \<Rightarrow> database \<Rightarrow> session" where
  "ran_to j n d = \<lparr>ss_job = j, ss_pc = n, ss_held = locks (take n (prog j)), ss_own = d\<rparr>"

lemma session_defs [simp]:
  "ss_job (fresh j c) = j" "ss_pc (fresh j c) = 0" "ss_held (fresh j c) = {}"
  "ss_job (ran_to j n c) = j" "ss_pc (ran_to j n c) = n" "ss_held (ran_to j n c) = locks (take n (prog j))"
  "ran_to j 0 c = fresh j c"
  by (simp_all add: fresh_def ran_to_def)

definition put :: "iso \<Rightarrow> nat \<Rightarrow> session \<Rightarrow> iso" where
  "put st i s = st\<lparr>sessions := (sessions st)(i \<mapsto> s)\<rparr>"

lemma begins:
  assumes "sessions st i = None" "job_ready (committed st) j"
  shows "iso_step st (put st i (fresh j (committed st)))"
  using begin_tx [OF assms] by (simp add: fresh_def put_def)

text \<open>
  A transaction that finds the locks of its first \<open>n\<close> statements free, and whose statements
  succeed on what is committed, can run them; in particular it can run and commit alone.
\<close>

lemma advance:
  assumes s: "sessions st i = Some (fresh j c)"
    and run: "n \<le> length (prog j)" "run_all (take n (prog j)) (committed st) = Some d"
    and free: "\<And>l. l \<in> locks (take n (prog j)) \<Longrightarrow> granted st i l"
  shows "\<exists>own. merge (locks (take n (prog j))) own (committed st) = d \<and>
    iso_step\<^sup>*\<^sup>* st (put st i (ran_to j n own))"
  using run free
proof (induction n arbitrary: d)
  case 0
  have "put st i (fresh j c) = st" using s by (simp add: put_def fun_upd_idem)
  with 0 show ?case by (intro exI [of _ c]) simp
next
  case (Suc n)
  obtain l F where lF: "prog j ! n = (l, F)" by (cases "prog j ! n")
  have n: "n < length (prog j)" using Suc.prems(1) by simp
  have tk: "take (Suc n) (prog j) = take n (prog j) @ [(l, F)]" using n lF by (simp add: take_Suc_conv_app_nth)
  from Suc.prems(2) tk obtain v where v: "run_all (take n (prog j)) (committed st) = Some v" "F v = Some d"
    by (auto simp: run_all_append)
  have "\<And>x. x \<in> locks (take n (prog j)) \<Longrightarrow> granted st i x" using Suc.prems(3) tk by simp
  with Suc.IH [OF _ v(1)] n obtain own where own: "merge (locks (take n (prog j))) own (committed st) = v"
    "iso_step\<^sup>*\<^sup>* st (put st i (ran_to j n own))" by auto
  let ?st = "put st i (ran_to j n own)"
  have "granted ?st i x" if "l = Some x" for x
    using Suc.prems(3) [of x] tk that by (simp add: granted_def put_def)
  then have "iso_step ?st (?st\<lparr>sessions := (sessions ?st)(i \<mapsto> (ran_to j n own)\<lparr>ss_pc := Suc (ss_pc (ran_to j n own)),
      ss_held := ss_held (ran_to j n own) \<union> set_option l, ss_own := d\<rparr>)\<rparr>)"
    by (intro statement [where F = F]) (use n lF v own(1) in \<open>simp_all add: ran_to_def put_def\<close>)
  then have "iso_step ?st (put st i (ran_to j (Suc n) d))"
    using tk by (simp add: ran_to_def put_def)
  moreover have "merge (locks (take (Suc n) (prog j))) d (committed st) = d"
    using run_local [OF jobs.prefix_local Suc.prems(2) refl agree_refl] by simp
  ultimately show ?case using own(2) by (auto intro: rtranclp.rtrancl_into_rtrancl)
qed

lemma runs_and_commits:
  assumes "sessions st i = Some (fresh j c)" "\<And>l. l \<in> locks (prog j) \<Longrightarrow> granted st i l"
    "job_body j (committed st) = Inr d"
  shows "iso_step\<^sup>*\<^sup>* st \<lparr>committed = d, sessions = (sessions st)(i := None), history = history st @ [j]\<rparr>"
proof -
  have run: "run_all (prog j) (committed st) = Some d" using assms(3) by (simp add: run_all_prog)
  obtain own where own: "merge (locks (prog j)) own (committed st) = d"
    "iso_step\<^sup>*\<^sup>* st (put st i (ran_to j (length (prog j)) own))"
    using advance [OF assms(1) order_refl, of d] run assms(2) by auto
  let ?st = "put st i (ran_to j (length (prog j)) own)"
  have "iso_step ?st \<lparr>committed = d, sessions = (sessions st)(i := None), history = history st @ [j]\<rparr>"
    using commit [of ?st i "ran_to j (length (prog j)) own"] own(1) by (simp add: ran_to_def put_def)
  with own(2) show ?thesis by (rule rtranclp.rtrancl_into_rtrancl)
qed

section \<open>Waiting\<close>

definition waits_for :: "iso \<Rightarrow> nat \<Rightarrow> rowlock \<Rightarrow> bool" where
  "waits_for st i l \<longleftrightarrow> (\<exists>s F. sessions st i = Some s \<and> ss_pc s < length (prog (ss_job s)) \<and>
     prog (ss_job s) ! ss_pc s = (Some l, F) \<and> \<not> granted st i l)"

definition deadlocked :: "iso \<Rightarrow> bool" where
  "deadlocked st \<longleftrightarrow> sessions st \<noteq> Map.empty \<and> (\<forall>i \<in> dom (sessions st). \<exists>l. waits_for st i l)"

text \<open>Jobs that lock accounts in ascending order.\<close>

fun ascending :: "job \<Rightarrow> bool" where
  "ascending (JSync e tx) \<longleftrightarrow> tx_SourceAccount tx \<le> tx_DestAccount tx"
| "ascending (JSettle e p) \<longleftrightarrow> msg_SourceAccount p \<le> msg_DestAccount p"
| "ascending j \<longleftrightarrow> True"

fun lock_rank :: "rowlock \<Rightarrow> nat" where
  "lock_rank (AccRow i) = unat i"
| "lock_rank (TxRow k) = 2 ^ 64"

lemma lock_rank_AccRow: "lock_rank (AccRow i) < 2 ^ 64"
  using unsigned_less [of i] by simp

lemma ascending_locks:
  assumes "ascending j" "n < length (prog j)" "prog j ! n = (Some l, F)" "l \<notin> locks (take n (prog j))" "x \<in> locks (take n (prog j))"
  shows "lock_rank x < lock_rank l"
proof -
  have n: "n = 0 \<or> n = 1 \<or> n = 2 \<or> n = 3 \<or> n = 4 \<or> n = 5" using assms(2) by (cases j) auto
  have lt: "k = i" if "i \<le> k" "\<not> lock_rank (AccRow i) < lock_rank (AccRow k)" for i k
    using that by (simp add: word_le_nat_alt word_unat_eq_iff)
  show ?thesis
    using assms n lock_rank_AccRow
    by (cases j) (auto simp: begin_stmt_def lock_source_def debit_stmt_def credit_stmt_def
        simp del: lock_rank.simps(1) dest: lt)
qed

end
