(* ===== verification/Settlement.thy ===== *)
theory Settlement
  imports Worker
begin

text \<open>
  What the worker guarantees: money is conserved and no account is overdrawn by a delivery,
  a message delivered any number of times settles at most once, the caches stay coherent,
  and a payment accepted by the asynchronous path is settled as the abstract transfer.
\<close>

section \<open>One delivery\<close>

lemma pg_tx_UpdateStatus_accounts [simp]:
  "accounts (db_of c (snd (pg_tx_UpdateStatus now orc r w k st))) = accounts (db_of c w)"
proof -
  obtain x d where d: "autocommit orc RepoUpdate (db_of (pg_db r) w) (update_status now st k (db_of (pg_db r) w)) = (x, d)"
    by (cases "autocommit orc RepoUpdate (db_of (pg_db r) w) (update_status now st k (db_of (pg_db r) w))")
  then have "accounts d = accounts (db_of (pg_db r) w)"
    using autocommit_cases [OF d] by (auto dest: update_status_frame(1))
  with d show ?thesis by (cases c; cases "pg_db r") (simp_all add: pg_tx_UpdateStatus_def)
qed

lemma invalidate_db [simp]:
  "db_of c (invalidateTxStatusCache rc k w) = db_of c w" "db_of c (invalidateBalanceCache rc ids w) = db_of c w"
  by (cases c; simp)+

lemma process_accounts:
  assumes "process wk e body w = (a, w')" "unmarshal_TxMessage body = Some p" "wk_repo wk = pg_tx_repo drv now orc r"
  shows "accounts (db_of (wk_db wk) w') = accounts (db_of (wk_db wk) w) \<or>
    (\<exists>d. settle_body e p (db_of (wk_db wk) w) = Inr d \<and> accounts (db_of (wk_db wk) w') = accounts d)"
proof -
  obtain x w1 where s: "settle e (wk_db wk) p w = (x, w1)" by (cases "settle e (wk_db wk) p w")
  have "w' = w \<or> accounts (db_of (wk_db wk) w') = accounts (db_of (wk_db wk) w1)"
    using assms s by (auto simp: process_def split: if_splits option.splits)
  with settle_atomic [OF s] show ?thesis by fastforce
qed

lemma process_undecodable: "unmarshal_TxMessage body = None \<Longrightarrow> process wk e body w = (Nack False False, w)"
  by (simp add: process_def)

text \<open>
  Processing a delivery conserves money, whatever fails on the way and whatever the
  repository's reads return, stale or failed reads included: for a message of a whole number
  of cents to an existing account, the balances sum to what they summed to before.
\<close>

theorem process_conserves_money:
  assumes "process wk e body w = (a, w')" and "unmarshal_TxMessage body = Some p"
    and "wk_repo wk = pg_tx_repo drv now orc r"
    and "sql_num (dc_drv e) (msg_Amount p) = numeric_val c"
    and "msg_DestAccount p \<in> dom (accounts (db_of (wk_db wk) w))"
  shows "money (db_of (wk_db wk) w') = money (db_of (wk_db wk) w)"
  using process_accounts [OF assms(1-3)]
proof
  assume "\<exists>d. settle_body e p (db_of (wk_db wk) w) = Inr d \<and> accounts (db_of (wk_db wk) w') = accounts d"
  then obtain d where d: "settle_body e p (db_of (wk_db wk) w) = Inr d" "accounts (db_of (wk_db wk) w') = accounts d" by blast
  from stl.body_conserves [of "(e, p)" "db_of (wk_db wk) w" d c] d(1) assms(4,5) same_accounts(2) [OF d(2)]
  show ?thesis by simp
qed (rule same_accounts)

text \<open>The sample worker of the witnesses, on the database with the pending payment.\<close>

definition worker0 :: "(keyed_store, (string \<times> json) list, string) worker" where
  "worker0 = NewWorker PrimaryDB (\<lambda>b q. (Inr q, b)) (Some ks_client) (primary_txs drv0 7 orc0)"

definition body0 :: bytes where
  "body0 = marshal_TxMessage msg0"

lemma worker0_sel [simp]:
  "wk_db worker0 = PrimaryDB" "wk_redis worker0 = Some ks_client" "wk_repo worker0 = primary_txs drv0 7 orc0"
  by (simp_all add: worker0_def NewWorker_def)

lemma body0_decodes [simp]: "unmarshal_TxMessage body0 = Some msg0"
  unfolding body0_def by (rule unmarshal_marshal_TxMessage)

lemma async_accounts [simp]: "accounts (primary async_world) = accounts db0" "balance_of (primary async_world) = balance_of db0"
  by (simp_all add: async_world_primary balance_of_def [abs_def])

theorem process_conserves_money_witness: "money (primary (snd (process worker0 call0 body0 async_world))) = 10500"
  using process_conserves_money [OF prod.collapse [symmetric] body0_decodes, of worker0 drv0 7 orc0
      "pg_NewTransactionRepository PrimaryDB None" call0 5000 async_world] sample_money
  by (simp add: primary_txs_def same_accounts [of "primary async_world" db0])

text \<open>
  No overdraft: a delivery never makes a balance negative when none was, for a
  positive whole number of cents in the exact range of the float comparison.
\<close>

theorem process_no_overdraft:
  assumes "process wk e body w = (a, w')" and "unmarshal_TxMessage body = Some p"
    and "wk_repo wk = pg_tx_repo drv now orc r"
    and "sql_num (dc_drv e) (msg_Amount p) = numeric_val c"
    and "msg_DestAccount p \<in> dom (accounts (db_of (wk_db wk) w))"
    and "msg_Amount p = scan_float c" and "0 < c" and "c < exact_cents"
    and "solvent (balance_of (db_of (wk_db wk) w))"
  shows "solvent (balance_of (db_of (wk_db wk) w'))"
  using process_accounts [OF assms(1-3)]
proof
  assume "\<exists>d. settle_body e p (db_of (wk_db wk) w) = Inr d \<and> accounts (db_of (wk_db wk) w') = accounts d"
  then obtain d where d: "settle_body e p (db_of (wk_db wk) w) = Inr d" "accounts (db_of (wk_db wk) w') = accounts d" by blast
  from stl.body_solvent [of "(e, p)" "db_of (wk_db wk) w" d c] d(1) assms(4-9) same_accounts(1) [OF d(2)]
  show ?thesis by simp
qed (use assms(9) same_accounts in metis)

theorem process_no_overdraft_witness: "solvent (balance_of (primary (snd (process worker0 call0 body0 async_world))))"
  using process_no_overdraft [OF prod.collapse [symmetric] body0_decodes, of worker0 drv0 7 orc0
      "pg_NewTransactionRepository PrimaryDB None" call0 5000 async_world] sample_solvent
  by (simp add: primary_txs_def)

section \<open>Any number of deliveries of one message\<close>

text \<open>
  RabbitMQ delivers at least once. An attempt is a worker with the conditions it meets;
  \<open>deliveries\<close> hands the same message to one attempt after the other.
\<close>

fun deliveries ::
  "(('r, 'b, 'd) worker \<times> db_call) list \<Rightarrow> bytes \<Rightarrow> ('r, 'b) world \<Rightarrow> ack_call list \<times> ('r, 'b) world" where
  "deliveries [] body w = ([], w)"
| "deliveries ((wk, e) # as) body w =
     (let (a, w1) = process wk e body w; (bs, w2) = deliveries as body w1 in (a # bs, w2))"

text \<open>
  An attempt that reads the status from the primary, without a failure of that read, and
  whose commit, if it reports an error, did not happen. Every other statement may fail.
\<close>

definition steady :: "cents \<Rightarrow> TxMessage \<Rightarrow> ('r, 'b, 'd) worker \<times> db_call \<Rightarrow> bool" where
  "steady c p att \<longleftrightarrow>
     wk_db (fst att) = PrimaryDB \<and>
     (\<exists>drv now orc. wk_repo (fst att) = primary_txs drv now orc \<and> fault orc RepoGet = None) \<and>
     (fault (dc_orc (snd att)) CommitTx = None \<or> \<not> applied (dc_orc (snd att)) CommitTx) \<and>
     sql_num (dc_drv (snd att)) (msg_Amount p) = numeric_val c"

definition open_tx :: "('r, 'b) world \<Rightarrow> string \<Rightarrow> bool" where
  "open_tx w k \<longleftrightarrow> (\<exists>r. transactions (primary w) k = Some r \<and> row_status r \<noteq> StatusCompleted)"

definition settled_tx :: "('r, 'b) world \<Rightarrow> string \<Rightarrow> bool" where
  "settled_tx w k \<longleftrightarrow> (\<exists>r. transactions (primary w) k = Some r \<and> row_status r = StatusCompleted)"

lemma primary_read_completed:
  assumes "fault orc RepoGet = None" "transactions (primary w) k = Some r"
  shows "(case txn_GetByID (primary_txs drv now orc) w k of
            Inl _ \<Rightarrow> False | Inr t \<Rightarrow> tx_Status t = StatusCompleted) \<longleftrightarrow> row_status r = StatusCompleted"
  using assms by (simp add: pg_tx_GetByID_def select_transaction_def)

lemma process_skips:
  assumes "wk_repo wk = primary_txs drv now orc" "fault orc RepoGet = None"
    "unmarshal_TxMessage body = Some p" "settled_tx w (msg_TXID p)"
  shows "process wk e body w = (Ack False, w)"
proof -
  from assms(4) obtain r where "transactions (primary w) (msg_TXID p) = Some r" "row_status r = StatusCompleted"
    by (auto simp: settled_tx_def)
  with assms(1-3) show ?thesis by (simp add: process_def primary_read_completed del: primary_txs_sel)
qed

lemma process_settled:
  "steady c p (wk, e) \<Longrightarrow> unmarshal_TxMessage body = Some p \<Longrightarrow> settled_tx w (msg_TXID p) \<Longrightarrow>
   process wk e body w = (Ack False, w)"
  by (auto simp: steady_def intro: process_skips)

lemma process_open_eq:
  assumes "steady c p (wk, e)" "unmarshal_TxMessage body = Some p" "open_tx w (msg_TXID p)"
  shows "process wk e body w =
    (case settle e (wk_db wk) p w of
       (Some x, w1) \<Rightarrow> (Nack False False, snd (txn_UpdateStatus (wk_repo wk) w1 (msg_TXID p) StatusFailed))
     | (None, w1) \<Rightarrow> (Ack False, invalidateTxStatusCache (wk_redis wk) (msg_TXID p)
         (invalidateBalanceCache (wk_redis wk) [msg_SourceAccount p, msg_DestAccount p] w1)))"
proof -
  from assms(1) obtain drv now orc where "wk_repo wk = primary_txs drv now orc" "fault orc RepoGet = None"
    by (auto simp: steady_def)
  moreover from assms(3) obtain r where "transactions (primary w) (msg_TXID p) = Some r" "row_status r \<noteq> StatusCompleted"
    by (auto simp: open_tx_def)
  ultimately show ?thesis using assms(2) by (simp add: process_def primary_read_completed del: primary_txs_sel)
qed

lemma update_failed_open:
  assumes "open_tx w k"
  shows "open_tx (snd (pg_tx_UpdateStatus now orc (pg_NewTransactionRepository PrimaryDB None) w k StatusFailed)) k"
proof -
  let ?q = "pg_tx_UpdateStatus now orc (pg_NewTransactionRepository PrimaryDB None) w k StatusFailed"
  from assms obtain r where r: "transactions (primary w) k = Some r" "row_status r \<noteq> StatusCompleted"
    by (auto simp: open_tx_def)
  obtain x d where d: "autocommit orc RepoUpdate (primary w) (update_status now StatusFailed k (primary w)) = (x, d)"
    by (cases "autocommit orc RepoUpdate (primary w) (update_status now StatusFailed k (primary w))")
  have "transactions d k = Some r \<or> transactions d k = Some (r\<lparr>row_status := StatusFailed, row_updated := now\<rparr>)"
    using autocommit_cases [OF d] r(1) by (auto simp: update_status_known StatusFailed_def)
  then show ?thesis using d r(2)
    by (auto simp: open_tx_def pg_tx_UpdateStatus_def StatusFailed_def StatusCompleted_def)
qed

lemma process_open_Nack:
  assumes "steady c p (wk, e)" "unmarshal_TxMessage body = Some p" "open_tx w (msg_TXID p)"
    "process wk e body w = (Nack f g, w')"
  shows "open_tx w' (msg_TXID p) \<and> accounts (primary w') = accounts (primary w)"
proof -
  from assms(1) obtain drv now orc where wk: "wk_db wk = PrimaryDB" "wk_repo wk = primary_txs drv now orc"
    and honest: "fault (dc_orc e) CommitTx = None \<or> \<not> applied (dc_orc e) CommitTx"
    by (auto simp: steady_def)
  from assms(4) obtain x w1 where s: "settle e PrimaryDB p w = (Some x, w1)"
    and w': "w' = snd (txn_UpdateStatus (wk_repo wk) w1 (msg_TXID p) StatusFailed)"
    unfolding process_open_eq [OF assms(1-3)] wk(1) by (auto split: prod.splits option.splits)
  from s honest have "w1 = w"
    by (auto simp: settle_iff commit_tx_def autocommit_def split: option.splits if_splits)
  with w' wk(2) assms(3) show ?thesis
    by (simp add: update_failed_open pg_tx_UpdateStatus_accounts [of PrimaryDB, simplified])
qed

lemma process_open_Ack:
  assumes "steady c p (wk, e)" "unmarshal_TxMessage body = Some p" "open_tx w (msg_TXID p)"
    "process wk e body w = (Ack f, w')"
  shows "settled_tx w' (msg_TXID p) \<and> settle_body e p (primary w) = Inr (primary w')"
proof -
  have wk: "wk_db wk = PrimaryDB" using assms(1) by (simp add: steady_def)
  from assms(4) obtain w1 where s: "settle e PrimaryDB p w = (None, w1)"
    and w': "primary w' = primary w1"
    unfolding process_open_eq [OF assms(1-3)] wk by (auto split: prod.splits option.splits)
  then have d: "settle_body e p (primary w) = Inr (primary w')" by (auto simp: settle_None)
  from assms(3) obtain r where "transactions (primary w) (msg_TXID p) = Some r" by (auto simp: open_tx_def)
  from settle_body_transactions(3) [OF d this] d show ?thesis by (simp add: settled_tx_def)
qed

lemma deliveries_settled:
  assumes "unmarshal_TxMessage body = Some p" "settled_tx w (msg_TXID p)" "\<forall>att \<in> set as. steady c p att"
  shows "deliveries as body w = (replicate (length as) (Ack False), w)"
  using assms(3)
proof (induction as)
  case (Cons att as)
  with process_settled [OF _ assms(1,2), of c "fst att" "snd att"] show ?case by (cases att) simp
qed simp


lemma async_open: "open_tx async_world ''txn1''"
  by (simp add: open_tx_def async_world_primary row1_def StatusPending_def StatusCompleted_def)

text \<open>Three deliveries: the first meets a failing credit, the second settles, the third is skipped.\<close>

definition failing_call :: db_call where
  "failing_call = call0\<lparr>dc_orc := orc0\<lparr>fault := (\<lambda>st. if st = ExecCredit then Some (ErrExt ''timeout'') else None)\<rparr>\<rparr>"

definition attempts0 :: "((keyed_store, (string \<times> json) list, string) worker \<times> db_call) list" where
  "attempts0 = [(worker0, failing_call), (worker0, call0), (worker0, call0)]"

lemma attempts0_steady: "\<forall>att \<in> set attempts0. steady 5000 msg0 att"
proof -
  have "steady 5000 msg0 (worker0, call0)" "steady 5000 msg0 (worker0, failing_call)"
    unfolding steady_def by (auto simp: failing_call_def intro!: exI [of _ drv0] exI [of _ 7] exI [of _ orc0])
  then show ?thesis by (simp add: attempts0_def)
qed


section \<open>From acceptance to settlement\<close>

lemma update_status_total: "length st \<le> 20 \<Longrightarrow> \<exists>d'. update_status now st k d = Inr d'"
  by (auto simp: update_status_def split: option.splits)

lemma settle_body_total:
  assumes flt: "\<And>st. fault (dc_orc e) st = None"
    and c: "sql_num (dc_drv e) (msg_Amount p) = numeric_val c"
    and src: "balance_of d (msg_SourceAccount p) = Some b" "\<not> scan_float b < msg_Amount p" "\<bar>b - c\<bar> < 10 ^ 18"
    and dst: "balance_of d (msg_DestAccount p) = Some b'" "\<bar>b' + c\<bar> < 10 ^ 18" "\<bar>b\<bar> < 10 ^ 18"
  shows "\<exists>d'. settle_body e p d = Inr d'"
proof -
  obtain d1 d2 where "update_debit (dc_drv e) (dc_now e) (msg_Amount p) (msg_SourceAccount p) d = Inr d1"
    "update_credit (dc_drv e) (dc_now e) (msg_Amount p) (msg_DestAccount p) d1 = Inr d2"
    by (rule debit_credit_total [OF c src(1,3) dst])
  moreover obtain d' where "update_status (dc_now e) StatusCompleted (msg_TXID p) d2 = Inr d'"
    using update_status_total [of StatusCompleted "dc_now e" "msg_TXID p" d2] by (auto simp: StatusCompleted_def)
  ultimately show ?thesis using flt src by (auto simp: settle_body_Inr select_balance_for_update_def)
qed

lemma settle_body_refines:
  assumes flt: "\<And>st. fault (dc_orc e) st = None"
    and c: "sql_num (dc_drv e) (msg_Amount p) = numeric_val c" "msg_Amount p = scan_float c" "0 < c" "c < exact_cents"
    and ok: "db_ok d" and dst: "msg_DestAccount p \<in> dom (accounts d)"
    and room: "\<And>b. balance_of d (msg_DestAccount p) = Some b \<Longrightarrow> b + c < 10 ^ 18"
  shows "case transfer (msg_SourceAccount p) (msg_DestAccount p) c (balance_of d) of
      Some L \<Rightarrow> \<exists>d'. settle_body e p d = Inr d' \<and> balance_of d' = L
    | None \<Rightarrow> \<exists>x. settle_body e p d = Inl x"
proof (cases "transfer (msg_SourceAccount p) (msg_DestAccount p) c (balance_of d)")
  case None
  then have "\<nexists>d'. settle_body e p d = Inr d'" using stl.body_refines [of "(e, p)" d _ c] c dst by auto
  then show ?thesis using None by (cases "settle_body e p d") auto
next
  case (Some L)
  then obtain b b' where b: "balance_of d (msg_SourceAccount p) = Some b" "\<not> b < c"
    "balance_of d (msg_DestAccount p) = Some b'"
    by (auto simp: transfer_def split: option.splits if_splits)
  have "scan_float c \<le> scan_float b" using b(2) c(3) by (intro scan_float_mono) simp_all
  then have f: "\<not> scan_float b < msg_Amount p" using c(2) by simp
  have bd: "\<bar>b\<bar> < 10 ^ 18" "\<bar>b'\<bar> < 10 ^ 18" using db_ok_balance [OF ok] b by blast+
  then have "\<bar>b' + c\<bar> < 10 ^ 18" "\<bar>b - c\<bar> < 10 ^ 18"
    using room [OF b(3)] b(2) c(3) by (simp_all add: abs_less_iff)
  with bd obtain d' where d': "settle_body e p d = Inr d'"
    using settle_body_total [OF flt c(1) b(1) f _ b(3)] by blast
  from stl.body_refines [of "(e, p)" d d' c] d' c dst Some show ?thesis by simp
qed

lemma insert_transaction_dom:
  assumes "insert_transaction drv t d = Inr d'"
  shows "tx_SourceAccount t \<in> dom (accounts d) \<and> tx_DestAccount t \<in> dom (accounts d)"
  using assms by (elim insert_transaction_Inr) (metis insert_row_Inr(3,4) new_row_Inr(4,5))

lemma createAsync_db:
  assumes "createAsync s pub tx w = (Inr t, w')" "ts_repo s = primary_txs drv now orc"
  shows "insert_transaction drv (tx\<lparr>tx_Status := StatusPending\<rparr>) (primary w) = Inr (primary w')"
proof -
  from assms(1) obtain w1 b where "txn_Save (ts_repo s) w (tx\<lparr>tx_Status := StatusPending\<rparr>) = (None, w1)"
    "w' = w1\<lparr>broker := b\<rparr>" by (elim createAsync_Inr) simp
  then show ?thesis by (auto simp: assms(2) elim!: pg_tx_Save_None)
qed

lemma process_refused:
  assumes "wk_db wk = PrimaryDB" "unmarshal_TxMessage body = Some p" "transactions (primary w) (msg_TXID p) = Some r"
    "row_status r \<noteq> StatusCompleted" "settle_body e p (primary w) = Inl x"
    "wk_repo wk = primary_txs drv now orc" "fault orc RepoUpdate = None"
  shows "process wk e body w = (Nack False False, w\<lparr>primary := (primary w)\<lparr>transactions :=
    (transactions (primary w))(msg_TXID p \<mapsto> r\<lparr>row_status := StatusFailed, row_updated := now\<rparr>)\<rparr>\<rparr>)"
proof -
  have "\<not> (case txn_GetByID (wk_repo wk) w (msg_TXID p) of Inl _ \<Rightarrow> False | Inr t \<Rightarrow> tx_Status t = StatusCompleted)"
    using assms(3,4) by (auto simp: assms(6) pg_tx_GetByID_Inr select_transaction_def split: sum.split)
  moreover have "settle e (wk_db wk) p w = (Some x, w)" using assms(1,5) by (simp add: settle_def)
  moreover have "update_status now StatusFailed (msg_TXID p) (primary w) = Inr ((primary w)\<lparr>transactions :=
      (transactions (primary w))(msg_TXID p \<mapsto> r\<lparr>row_status := StatusFailed, row_updated := now\<rparr>)\<rparr>)"
    using update_status_known [OF assms(3), of StatusFailed now] by (simp add: StatusFailed_def)
  ultimately show ?thesis
    using assms(2,6,7) by (simp add: process_def pg_tx_UpdateStatus_def autocommit_def)
qed

text \<open>
  C5. A payment accepted by the asynchronous path is settled by the worker as the abstract
  transfer on the balances at acceptance, when nothing else ran in between and nothing
  fails, the worker reads the status from the primary, the database satisfies its schema, the
  amount is a positive whole number of cents below \<open>exact_cents\<close>, which the driver writes exactly,
  and the credited balance fits its column: if \<open>transfer\<close> is defined the delivery is acknowledged, the balances are its result
  and the transaction is completed; otherwise the delivery is dead-lettered, the balances are
  untouched and the transaction is failed.
\<close>

theorem accepted_payment_settles:
  assumes acc: "createAsync s pub tx w = (Inr t, w1)" "ts_repo s = primary_txs drv now orc"
    and wk: "steady c (tx_message tx) (wk, e)" "wk_repo wk = primary_txs drv2 now2 orc2" "fault orc2 RepoUpdate = None"
    and flt: "\<And>st. fault (dc_orc e) st = None"
    and c: "tx_Amount tx = scan_float c" "0 < c" "c < exact_cents"
    and ok: "db_ok (primary w)"
    and room: "\<And>b. balance_of (primary w) (tx_DestAccount tx) = Some b \<Longrightarrow> b + c < 10 ^ 18"
  shows "case transfer (tx_SourceAccount tx) (tx_DestAccount tx) c (balance_of (primary w)) of
      Some L \<Rightarrow> \<exists>w2. process wk e (marshal_TxMessage (tx_message tx)) w1 = (Ack False, w2) \<and>
                  balance_of (primary w2) = L \<and> settled_tx w2 (tx_ID tx)
    | None \<Rightarrow> \<exists>w2 r. process wk e (marshal_TxMessage (tx_message tx)) w1 = (Nack False False, w2) \<and>
                  balance_of (primary w2) = balance_of (primary w) \<and>
                  transactions (primary w2) (tx_ID tx) = Some r \<and> row_status r = StatusFailed"
proof -
  let ?p = "tx_message tx" and ?t = "tx\<lparr>tx_Status := StatusPending\<rparr>"
  note ins = createAsync_db [OF acc]
  note bal = same_accounts(1) [OF insert_transaction_frame [OF ins]]
  obtain r where r: "transactions (primary w1) (tx_ID tx) = Some r" "row_status r = StatusPending"
    using insert_transaction_same [OF ins] by auto
  have body: "unmarshal_TxMessage (marshal_TxMessage ?p) = Some ?p" by (rule unmarshal_marshal_TxMessage)
  have "tx_DestAccount tx \<in> dom (accounts (primary w))"
    using insert_transaction_dom [OF ins] by simp
  then have dst: "msg_DestAccount ?p \<in> dom (accounts (primary w1))"
    using insert_transaction_frame [OF ins] by (simp add: tx_message_def)
  have opn: "open_tx w1 (msg_TXID ?p)" "row_status r \<noteq> StatusCompleted"
    using r by (auto simp: open_tx_def tx_message_def StatusPending_def StatusCompleted_def)
  have ref: "case transfer (tx_SourceAccount tx) (tx_DestAccount tx) c (balance_of (primary w)) of
      Some L \<Rightarrow> \<exists>d'. settle_body e ?p (primary w1) = Inr d' \<and> balance_of d' = L
    | None \<Rightarrow> \<exists>x. settle_body e ?p (primary w1) = Inl x"
    using settle_body_refines [of e ?p c "primary w1"] flt wk(1) c insert_transaction_ok [OF ins ok] dst room bal
    by (simp add: steady_def tx_message_def)
  show ?thesis
  proof (cases "transfer (tx_SourceAccount tx) (tx_DestAccount tx) c (balance_of (primary w))")
    case None
    with ref obtain x where "settle_body e ?p (primary w1) = Inl x" by auto
    from process_refused [OF _ body _ opn(2) this wk(2,3)] wk(1) r(1) None show ?thesis
      by (auto simp: steady_def tx_message_def balance_of_def [abs_def] fun_eq_iff insert_transaction_frame [OF ins])
  next
    case (Some L)
    with ref obtain d' where d': "settle_body e ?p (primary w1) = Inr d'" "balance_of d' = L" by auto
    then have "settle e (wk_db wk) ?p w1 = (None, w1\<lparr>primary := d'\<rparr>)"
      using wk(1) flt by (simp add: settle_None steady_def)
    then obtain w2 where w2: "process wk e (marshal_TxMessage ?p) w1 = (Ack False, w2)" "primary w2 = d'"
      using process_open_eq [OF wk(1) body opn(1)] by simp
    from process_open_Ack [OF wk(1) body opn(1) w2(1)] w2 d'(2) Some show ?thesis
      by (auto simp: tx_message_def)
  qed
qed

theorem accepted_payment_settles_witness:
  "\<exists>w2. process worker0 call0 (marshal_TxMessage (tx_message tx0)) async_world = (Ack False, w2) \<and>
     balance_of (primary w2) = [1001 \<mapsto> 5000, 1002 \<mapsto> 5500] \<and> settled_tx w2 ''txn1''"
proof -
  have t: "transfer 1001 1002 5000 [1001 \<mapsto> 10000, 1002 \<mapsto> 500] = Some [1001 \<mapsto> 5000, 1002 \<mapsto> 5500]"
    by (simp add: transfer_def fun_eq_iff)
  have m: "tx_message tx0 = msg0" by (simp add: tx_message_def msg0_def)
  have "steady 5000 (tx_message tx0) (worker0, call0)" using attempts0_steady by (simp add: attempts0_def m)
  with accepted_payment_settles [OF async_run, of drv0 7 orc0 5000 worker0 call0 drv0 7 orc0] t sample_ok
  show ?thesis by (simp add: async_svc_def)
qed

section \<open>The caches\<close>

lemma primary_txs_cong:
  "transactions (primary w') k = transactions (primary w) k \<Longrightarrow>
   txn_GetByID (primary_txs drv now orc) w' k = txn_GetByID (primary_txs drv now orc) w k"
  by (simp add: pg_tx_GetByID_def select_transaction_def)

lemma invalidate_tx_keeps_balance:
  assumes "redis_service cl" "balance_coherent cl (primary_accounts orc) w"
  shows "balance_coherent cl (primary_accounts orc) (invalidateTxStatusCache (Some cl) k w)"
proof -
  have "acct_GetByID (primary_accounts orc) (invalidateTxStatusCache (Some cl) k w) = acct_GetByID (primary_accounts orc) w"
    by (rule ext, rule primary_accounts_cong) simp
  with redis_service.del_sat [OF assms(1) assms(2) [unfolded balance_coherent_def]] show ?thesis
    by (simp add: balance_coherent_def invalidateTxStatusCache_def)
qed

lemma invalidate_keeps_status:
  assumes red: "redis_up cl up" "up (kv w)" and co: "status_coherent cl (primary_txs drv now orc) w"
    and same: "\<And>j. j \<noteq> k \<Longrightarrow> transactions (primary w') j = transactions (primary w) j" "kv w' = kv w"
  shows "status_coherent cl (primary_txs drv now orc)
    (invalidateTxStatusCache (Some cl) k (invalidateBalanceCache (Some cl) ids w'))"
proof -
  let ?w = "invalidateTxStatusCache (Some cl) k (invalidateBalanceCache (Some cl) ids w')"
  let ?r = "redis_Del cl (kv w) (map balance_key ids)"
  have kv: "kv ?w = redis_Del cl ?r [tx_status_key k]"
    by (simp add: invalidateBalanceCache_def invalidateTxStatusCache_def same(2))
  have step: "status_agrees (txn_GetByID (primary_txs drv now orc) ?w) key b"
    if "key \<notin> set [tx_status_key k]" "status_agrees (txn_GetByID (primary_txs drv now orc) w) key b" for key b
    unfolding status_agrees_def
  proof (intro allI impI)
    fix j t assume j: "key = tx_status_key j" and t: "unmarshal_Transaction b = Some t"
    then have "j \<noteq> k" using that(1) by auto
    then have "transactions (primary ?w) j = transactions (primary w) j" using same(1) by simp
    then have "txn_GetByID (primary_txs drv now orc) ?w j = txn_GetByID (primary_txs drv now orc) w j"
      by (rule primary_txs_cong)
    then show "txn_GetByID (primary_txs drv now orc) ?w j = Inr t"
      using that(2) j t by (simp add: status_agrees_def del: primary_txs_sel)
  qed
  have "up ?r" using redis_up.up_del [OF red] .
  moreover have "cached_sat cl (status_agrees (txn_GetByID (primary_txs drv now orc) w)) ?r"
    using redis_service.del_sat [OF redis_up.axioms(1) [OF red(1)]] co by (simp add: status_coherent_def)
  ultimately show ?thesis
    unfolding status_coherent_def kv by (rule redis_up.del_sat_weaken [OF red(1)]) (rule step)
qed

text \<open>
  C18. An acknowledged delivery, taken as one step, keeps both caches coherent with the primary
  database when Redis is reachable: if every readable entry agreed with the primary before it,
  every readable entry agrees with the primary after it, because the balance entries of the two
  accounts and the status entry of the transaction are deleted after the commit. An inquiry
  whose SET arrives after the deletion is outside this statement; it is the subject of the
  theory on the race of readers and writers.
\<close>

theorem process_keeps_caches_coherent:
  assumes "redis_up cl up" "up (kv w)" and "wk_redis wk = Some cl" "wk_db wk = PrimaryDB"
    and "balance_coherent cl (primary_accounts orc) w" "status_coherent cl (primary_txs drv now orc) w"
    and "process wk e body w = (Ack False, w')"
  shows "balance_coherent cl (primary_accounts orc) w' \<and> status_coherent cl (primary_txs drv now orc) w'"
proof (cases "w' = w")
  case False
  then obtain p w1 where p: "unmarshal_TxMessage body = Some p" and s: "settle e PrimaryDB p w = (None, w1)"
    and w': "w' = invalidateTxStatusCache (Some cl) (msg_TXID p)
               (invalidateBalanceCache (Some cl) [msg_SourceAccount p, msg_DestAccount p] w1)"
    using assms(3,4,7) by (auto simp: process_def split: option.splits if_splits prod.splits)
  from s obtain d where d: "settle_body e p (primary w) = Inr d" and w1: "w1 = w\<lparr>primary := d\<rparr>"
    by (auto simp: settle_None)
  have "accounts (primary w1) i = accounts (primary w) i" if "i \<notin> set [msg_SourceAccount p, msg_DestAccount p]" for i
    using stl.body_frame [of "(e, p)" "primary w" d i] d w1 that by simp
  then have "balance_coherent cl (primary_accounts orc)
      (invalidateBalanceCache (Some cl) [msg_SourceAccount p, msg_DestAccount p] w1)"
    by (intro invalidate_keeps_coherent [OF assms(1,2,5)]) (simp_all add: w1)
  then have "balance_coherent cl (primary_accounts orc) w'"
    unfolding w' by (rule invalidate_tx_keeps_balance [OF redis_up.axioms(1) [OF assms(1)]])
  moreover have "status_coherent cl (primary_txs drv now orc) w'"
    unfolding w' using settle_body_transactions(2) [OF d] w1
    by (intro invalidate_keeps_status [OF assms(1,2,6)]) simp_all
  ultimately show ?thesis by blast
qed (use assms in simp)

definition settled_world :: "(keyed_store, (string \<times> json) list) world" where
  "settled_world = snd (process worker0 call0 body0 async_world)"

lemma settle_run: "process worker0 call0 body0 async_world = (Ack False, settled_world)"
proof -
  have st: "steady 5000 msg0 (worker0, call0)" using attempts0_steady by (simp add: attempts0_def)
  have "\<exists>d'. settle_body call0 msg0 (primary async_world) = Inr d'"
    by (rule settle_body_total [where c = 5000 and b = 10000 and b' = 500]) simp_all
  then have "\<exists>w1. settle call0 PrimaryDB msg0 async_world = (None, w1)" by (auto simp: settle_None)
  then have "fst (process worker0 call0 body0 async_world) = Ack False"
    using process_open_eq [OF st body0_decodes] async_open by auto
  then show ?thesis by (simp add: settled_world_def prod_eq_iff)
qed

theorem process_keeps_caches_coherent_witness:
  "status_coherent ks_client (primary_txs drv0 7 orc0) settled_world"
  using process_keeps_caches_coherent [OF ks.redis_up_axioms _ _ _ _ empty_store_status [OF async_world_sel] settle_run]
  by (simp add: async_world_sel balance_coherent_def cached_sat_def ks_defs store0_def)

section \<open>Refusals\<close>

text \<open>
  C23. What the worker dead-letters: every body that does not decode, without touching anything,
  whatever the worker and its database; and a message whose source account is unknown or short
  of funds, after marking exactly its own transaction failed, when the worker works on the
  primary, the transaction has a row that is not completed there, and neither the begin and the
  query of the settlement nor the update of the status fails. Neither is requeued, and no balance
  changes.
\<close>

theorem process_dead_letters:
  "case unmarshal_TxMessage body of
     None \<Rightarrow> process wk e body w = (Nack False False, w)
   | Some p \<Rightarrow>
       wk_db wk = PrimaryDB \<longrightarrow> wk_repo wk = primary_txs drv now orc \<longrightarrow> fault orc RepoUpdate = None \<longrightarrow>
       fault (dc_orc e) BeginTx = None \<longrightarrow> fault (dc_orc e) QuerySource = None \<longrightarrow>
       transactions (primary w) (msg_TXID p) = Some r \<longrightarrow> row_status r \<noteq> StatusCompleted \<longrightarrow>
       (case balance_of (primary w) (msg_SourceAccount p) of None \<Rightarrow> True | Some b \<Rightarrow> scan_float b < msg_Amount p) \<longrightarrow>
       process wk e body w = (Nack False False, w\<lparr>primary := (primary w)\<lparr>transactions :=
         (transactions (primary w))(msg_TXID p \<mapsto> r\<lparr>row_status := StatusFailed, row_updated := now\<rparr>)\<rparr>\<rparr>)"
proof (cases "unmarshal_TxMessage body")
  case (Some p)
  have "process wk e body w = (Nack False False, w\<lparr>primary := (primary w)\<lparr>transactions :=
         (transactions (primary w))(msg_TXID p \<mapsto> r\<lparr>row_status := StatusFailed, row_updated := now\<rparr>)\<rparr>\<rparr>)"
    if wk: "wk_db wk = PrimaryDB" "wk_repo wk = primary_txs drv now orc" "fault orc RepoUpdate = None"
      and flt: "fault (dc_orc e) BeginTx = None" "fault (dc_orc e) QuerySource = None"
      and r: "transactions (primary w) (msg_TXID p) = Some r" "row_status r \<noteq> StatusCompleted"
      and short: "case balance_of (primary w) (msg_SourceAccount p) of None \<Rightarrow> True | Some b \<Rightarrow> scan_float b < msg_Amount p"
  proof -
    obtain x where "settle_body e p (primary w) = Inl x"
      using flt short by (cases "balance_of (primary w) (msg_SourceAccount p)")
        (simp_all add: settle_body_def Let_def select_balance_for_update_def)
    then show ?thesis by (rule process_refused [OF wk(1) Some r _ wk(2,3)])
  qed
  with Some show ?thesis by simp
qed (simp add: process_undecodable)

text \<open>The sample message for more than the balance.\<close>

definition big_msg :: TxMessage where
  "big_msg = msg0\<lparr>msg_Amount := 200\<rparr>"

theorem process_dead_letters_witness:
  "\<exists>w'. process worker0 call0 (marshal_TxMessage big_msg) async_world = (Nack False False, w') \<and>
     transactions (primary w') ''txn1'' = Some (row1\<lparr>row_status := StatusFailed, row_updated := 7\<rparr>)"
proof -
  have row: "transactions (primary async_world) (msg_TXID big_msg) = Some row1" "row_status row1 \<noteq> StatusCompleted"
    by (simp_all add: async_world_primary big_msg_def row1_def StatusPending_def StatusCompleted_def)
  show ?thesis
    using process_dead_letters [where body = "marshal_TxMessage big_msg" and wk = worker0 and e = call0 and w = async_world
      and drv = drv0 and now = 7 and orc = orc0 and r = row1] row
    by (simp add: big_msg_def unmarshal_marshal_TxMessage)
qed

end
