(* ===== verification/System.thy ===== *)
theory System
  imports Settlement
begin

text \<open>
  The parts together: any number of clients and workers whose requests and deliveries
  interleave, over one primary database, a broker that may deliver a message any number of
  times, a cache and a replica that may change at any moment, and statements that may fail
  anywhere. Each request and each delivery is one step; what keeps their database
  transactions apart is PostgreSQL.
\<close>

section \<open>What the system relies on\<close>

text \<open>
  The driver writes the float nearest to a whole number of cents so that PostgreSQL reads
  that number of cents: true of the shortest decimal text, which pgx sends.
\<close>

definition exact_driver :: "driver \<Rightarrow> bool" where
  "exact_driver drv \<longleftrightarrow> (\<forall>c. 0 < c \<longrightarrow> c < exact_cents \<longrightarrow> sql_num drv (scan_float c) = numeric_val c)"

text \<open>Publishing appends the body to the log of the broker, or does nothing, whatever it reports.\<close>

definition log_publisher :: "bytes list publisher \<Rightarrow> bool" where
  "log_publisher pub \<longleftrightarrow> (\<forall>b q body. snd (pub b q body) = b \<or> snd (pub b q body) = b @ [Some body])"

definition service_ok :: "('r, bytes list) transactionService \<Rightarrow> bool" where
  "service_ok s \<longleftrightarrow>
     (\<exists>drv now orc. ts_repo s = primary_txs drv now orc) \<and> ts_db s = Some PrimaryDB \<and>
     (case ts_queue s of None \<Rightarrow> True | Some pub \<Rightarrow> log_publisher pub)"

definition whole_amount :: "float64 \<Rightarrow> bool" where
  "whole_amount x \<longleftrightarrow> (\<exists>c. 0 < c \<and> c < exact_cents \<and> x = scan_float c)"

section \<open>Steps\<close>

inductive bank_step :: "('r, bytes list) world \<Rightarrow> ('r, bytes list) world \<Rightarrow> bool" where
  pay: "service_ok s \<Longrightarrow> exact_driver (dc_drv (re_db e)) \<Longrightarrow> whole_amount (in_Amount inp) \<Longrightarrow>
     CreateTransaction s e inp w = (res, w') \<Longrightarrow> bank_step w w'"
| deliver: "wk_db (wk :: ('r, bytes list, string) worker) = PrimaryDB \<Longrightarrow> wk_repo wk = pg_tx_repo drv now orc r \<Longrightarrow> exact_driver (dc_drv e) \<Longrightarrow>
     body \<in> set (broker w) \<Longrightarrow> process wk e body w = (a, w') \<Longrightarrow> bank_step w w'"
| balance: "GetBalance svc i w = (res, w') \<Longrightarrow> bank_step w w'"
| status: "GetTransactionStatus s k w = (res, w') \<Longrightarrow> bank_step w w'"
| cache: "bank_step w (w\<lparr>kv := r\<rparr>)"
| replicate_lag: "bank_step w (w\<lparr>standby := d\<rparr>)"

inductive bank_reach :: "('r, bytes list) world \<Rightarrow> ('r, bytes list) world \<Rightarrow> bool" for w0 where
  bank_start: "bank_reach w0 w0"
| bank_more: "bank_reach w0 w \<Longrightarrow> bank_step w w' \<Longrightarrow> bank_reach w0 w'"

text \<open>A queued message pays a whole number of cents to an existing account.\<close>

definition queued_ok :: "int64 set \<Rightarrow> bytes \<Rightarrow> bool" where
  "queued_ok ids body \<longleftrightarrow>
     (\<forall>p. unmarshal_TxMessage body = Some p \<longrightarrow> msg_DestAccount p \<in> ids \<and> whole_amount (msg_Amount p))"

definition bank_inv :: "cents \<Rightarrow> ('r, bytes list) world \<Rightarrow> bool" where
  "bank_inv M w \<longleftrightarrow>
     db_ok (primary w) \<and> solvent (balance_of (primary w)) \<and> money (primary w) = M \<and>
     (\<forall>body \<in> set (broker w). queued_ok (dom (accounts (primary w))) body)"

section \<open>Payments\<close>

lemma CreateTransaction_run:
  assumes "CreateTransaction s e inp w = (res, w')" "ts_db s = Some conn"
  obtains tx w2 r w3 where "tx_Amount tx = in_Amount inp" "primary w2 = primary w" "broker w2 = broker w"
    "tx_ID tx = txn_id (next_value (re_nano e) (txCounter w))"
    "(case ts_queue s of Some pub \<Rightarrow> createAsync s pub tx w2 | None \<Rightarrow> createSync s (re_db e) conn tx w2) = (r, w3)"
    "primary w' = primary w3" "broker w' = broker w3"
proof -
  let ?tx = "new_transaction (txn_id (next_value (re_nano e) (txCounter w))) inp (re_now e)"
  let ?w2 = "(log_set ''amount'' (LFloat (in_Amount inp)) (log_set ''dest_account'' (LInt (in_DestAccount inp))
      (log_set ''source_account'' (LInt (in_SourceAccount inp)) w)))\<lparr>txCounter := next_value (re_nano e) (txCounter w)\<rparr>"
  obtain r w3 where run: "(case ts_queue s of Some pub \<Rightarrow> createAsync s pub ?tx ?w2 | None \<Rightarrow> createSync s (re_db e) conn ?tx ?w2) = (r, w3)"
    by (cases "case ts_queue s of Some pub \<Rightarrow> createAsync s pub ?tx ?w2 | None \<Rightarrow> createSync s (re_db e) conn ?tx ?w2")
  have "primary w' = primary w3" "broker w' = broker w3"
    using assms run
    by (auto simp: CreateTransaction_def nextTransactionID_def Let_def split: sum.splits option.splits)
  from that [OF _ _ _ _ run this] show thesis by (simp add: new_transaction_def)
qed

lemma pg_tx_Save_db:
  assumes "pg_tx_Save drv orc (pg_NewTransactionRepository PrimaryDB None) w t = (x, w')"
  shows "broker w' = broker w \<and> (primary w' = primary w \<or> insert_transaction drv t (primary w) = Inr (primary w'))"
  using assms by (auto simp: pg_tx_Save_iff dest!: autocommit_cases)

lemma pg_tx_UpdateStatus_db:
  assumes "pg_tx_UpdateStatus now orc (pg_NewTransactionRepository PrimaryDB c) w k st = (x, w')"
  shows "broker w' = broker w \<and> (primary w' = primary w \<or> update_status now st k (primary w) = Inr (primary w'))"
  using assms by (auto simp: pg_tx_UpdateStatus_iff dest!: autocommit_cases)

lemma createAsync_effect:
  assumes "createAsync s pub tx w = (res, w')" "ts_repo s = primary_txs drv now orc" "log_publisher pub"
    and "db_ok (primary w)"
  shows "accounts (primary w') = accounts (primary w) \<and> db_ok (primary w') \<and>
    (broker w' = broker w \<or>
     broker w' = broker w @ [marshal_TxMessage (tx_message tx)] \<and> tx_DestAccount tx \<in> dom (accounts (primary w)))"
proof -
  let ?t = "tx\<lparr>tx_Status := StatusPending\<rparr>"
  obtain x w1 where sv: "txn_Save (ts_repo s) w ?t = (x, w1)" by (cases "txn_Save (ts_repo s) w ?t")
  then have save: "pg_tx_Save drv orc (pg_NewTransactionRepository PrimaryDB None) w ?t = (x, w1)" by (simp add: assms(2))
  have w1: "broker w1 = broker w" "accounts (primary w1) = accounts (primary w)" "db_ok (primary w1)"
    using pg_tx_Save_db [OF save] assms(4) insert_transaction_frame insert_transaction_ok by metis+
  show ?thesis
  proof (cases x)
    case (Some y)
    with assms(1) sv w1 show ?thesis by (simp add: createAsync_def)
  next
    case None
    then obtain d where ins: "insert_transaction drv ?t (primary w) = Inr d" using save by (auto elim: pg_tx_Save_None)
    have dst: "tx_DestAccount tx \<in> dom (accounts (primary w))" using insert_transaction_dom [OF ins] by simp
    have msg: "tx_message ?t = tx_message tx" by (simp add: tx_message_def)
    obtain body where body: "marshal_TxMessage (tx_message tx) = Some body" by (simp add: marshal_TxMessage_def)
    obtain y b where pub: "pub (broker w1) ''transactions'' body = (y, b)" by (cases "pub (broker w1) ''transactions'' body")
    then have b: "b = broker w \<or> b = broker w @ [Some body]"
      using assms(3) w1(1) by (metis log_publisher_def snd_conv)
    show ?thesis
    proof (cases y)
      case None
      with assms(1) sv \<open>x = None\<close> body pub msg w1 b dst show ?thesis by (auto simp: createAsync_def)
    next
      case (Some z)
      let ?u = "pg_tx_UpdateStatus now orc (pg_NewTransactionRepository PrimaryDB None) (w1\<lparr>broker := b\<rparr>) (tx_ID tx) StatusFailed"
      have w': "w' = snd ?u"
        using assms(1,2) sv \<open>x = None\<close> body pub msg Some by (simp add: createAsync_def)
      have "broker w' = b \<and> (primary w' = primary w1 \<or> update_status now StatusFailed (tx_ID tx) (primary w1) = Inr (primary w'))"
        using pg_tx_UpdateStatus_db [of now orc None "w1\<lparr>broker := b\<rparr>" "tx_ID tx" StatusFailed "fst ?u" w'] w' by simp
      with w1 b dst body show ?thesis using update_status_frame(1) update_status_ok by metis
    qed
  qed
qed

lemma whole_amount_cents:
  assumes "whole_amount x" "exact_driver drv"
  obtains c where "0 < c" "c < exact_cents" "x = scan_float c" "sql_num drv x = numeric_val c"
  using assms by (auto simp: whole_amount_def exact_driver_def)

lemma bank_inv_accounts:
  assumes "bank_inv M w" "accounts (primary w') = accounts (primary w)" "db_ok (primary w')"
    "\<forall>body \<in> set (broker w'). body \<in> set (broker w) \<or> queued_ok (dom (accounts (primary w))) body"
  shows "bank_inv M w'"
  using assms same_accounts [OF assms(2)] by (auto simp: bank_inv_def)

lemma pay_inv:
  assumes "service_ok s" "exact_driver (dc_drv (re_db e))" "whole_amount (in_Amount inp)"
    "CreateTransaction s e inp w = (res, w')" "bank_inv M w"
  shows "bank_inv M w'"
proof -
  from assms(1) obtain drv now orc where s: "ts_repo s = primary_txs drv now orc" "ts_db s = Some PrimaryDB"
    by (auto simp: service_ok_def)
  obtain tx w2 r w3 where tx: "tx_Amount tx = in_Amount inp" and w2: "primary w2 = primary w" "broker w2 = broker w"
    and run: "(case ts_queue s of Some pub \<Rightarrow> createAsync s pub tx w2 | None \<Rightarrow> createSync s (re_db e) PrimaryDB tx w2) = (r, w3)"
    and w': "primary w' = primary w3" "broker w' = broker w3"
    using CreateTransaction_run [OF assms(4) s(2)] by metis
  show ?thesis
  proof (cases "ts_queue s")
    case (Some pub)
    then have "log_publisher pub" using assms(1) by (simp add: service_ok_def)
    with run Some s(1) assms(5) w2 have eff: "accounts (primary w') = accounts (primary w)" "db_ok (primary w')"
      "broker w' = broker w \<or> broker w' = broker w @ [marshal_TxMessage (tx_message tx)] \<and> tx_DestAccount tx \<in> dom (accounts (primary w))"
      using createAsync_effect [of s pub tx w2 r w3 drv now orc] w' by (auto simp: bank_inv_def)
    have "queued_ok (dom (accounts (primary w))) (marshal_TxMessage (tx_message tx))"
      if "tx_DestAccount tx \<in> dom (accounts (primary w))"
      using that assms(3) tx by (simp add: queued_ok_def unmarshal_marshal_TxMessage) (simp add: tx_message_def)
    with eff(3) have "\<forall>body \<in> set (broker w'). body \<in> set (broker w) \<or> queued_ok (dom (accounts (primary w))) body"
      by (elim disjE conjE) (simp_all add: ball_Un)
    with eff(1,2) show ?thesis by (rule bank_inv_accounts [OF assms(5)])
  next
    case None
    obtain c where c: "0 < c" "c < exact_cents" "tx_Amount tx = scan_float c"
      "sql_num (dc_drv (re_db e)) (tx_Amount tx) = numeric_val c"
      using whole_amount_cents [OF assms(3,2)] tx by metis
    have sync: "createSync s (re_db e) PrimaryDB tx w2 = (r, w3)" using run None by simp
    have br: "broker w' = broker w" using createSync_frame [OF sync] w' w2 by simp
    from createSync_atomic [OF sync] consider "primary w3 = primary w" | "sync_body (re_db e) tx (primary w) = Inr (primary w3)"
      using w2 by auto
    then show ?thesis
    proof cases
      case 1
      with assms(5) w' br show ?thesis by (simp add: bank_inv_def)
    next
      case 2
      note dst = sync_body_dst [OF 2]
      have "money (primary w3) = money (primary w)" "solvent (balance_of (primary w3))"
        "dom (accounts (primary w3)) = dom (accounts (primary w))"
        using sync.body_conserves [of "(re_db e, tx)" "primary w" "primary w3" c]
          sync.body_solvent [of "(re_db e, tx)" "primary w" "primary w3" c]
          sync.body_dom [of "(re_db e, tx)" "primary w" "primary w3"] 2 c dst assms(5)
        by (simp_all add: bank_inv_def)
      with sync_body_ok [OF 2] assms(5) w' br show ?thesis by (simp add: bank_inv_def)
    qed
  qed
qed

section \<open>Deliveries and inquiries\<close>

lemma process_effect:
  assumes "process wk e body w = (a, w')" "unmarshal_TxMessage body = Some p"
    "wk_repo wk = pg_tx_repo drv now orc r" "wk_db wk = PrimaryDB" "db_ok (primary w)"
  shows "broker w' = broker w \<and> db_ok (primary w') \<and>
    (accounts (primary w') = accounts (primary w) \<or>
     (\<exists>d. settle_body e p (primary w) = Inr d \<and> accounts (primary w') = accounts d))"
proof -
  obtain x w1 where s: "settle e PrimaryDB p w = (x, w1)" by (cases "settle e PrimaryDB p w")
  have w1: "broker w1 = broker w" "db_ok (primary w1)"
    using s settle_atomic [OF s] settle_body_ok [OF _ assms(5)] assms(5) by (auto simp: settle_iff)
  have upd: "broker (snd (pg_tx_UpdateStatus now orc r w1 k st)) = broker w1 \<and>
      db_ok (primary (snd (pg_tx_UpdateStatus now orc r w1 k st)))" for k st
  proof -
    obtain y d where d: "autocommit orc RepoUpdate (db_of (pg_db r) w1) (update_status now st k (db_of (pg_db r) w1)) = (y, d)"
      by (cases "autocommit orc RepoUpdate (db_of (pg_db r) w1) (update_status now st k (db_of (pg_db r) w1))")
    then show ?thesis using autocommit_cases [OF d] w1(2)
      by (cases "pg_db r") (auto simp: pg_tx_UpdateStatus_def dest: update_status_ok)
  qed
  have "broker w' = broker w \<and> db_ok (primary w')"
    using assms s w1 upd by (auto simp: process_def split: if_splits option.splits)
  with process_accounts [OF assms(1-3)] assms(4) show ?thesis by simp
qed

lemma deliver_inv:
  assumes "wk_db wk = PrimaryDB" "wk_repo wk = pg_tx_repo drv now orc r" "exact_driver (dc_drv e)"
    "body \<in> set (broker w)" "process wk e body w = (a, w')" "bank_inv M w"
  shows "bank_inv M w'"
proof (cases "unmarshal_TxMessage body")
  case None
  with assms(5,6) show ?thesis by (simp add: process_undecodable)
next
  case (Some p)
  have ok: "db_ok (primary w)" and q: "msg_DestAccount p \<in> dom (accounts (primary w))" "whole_amount (msg_Amount p)"
    using assms(4,6) Some by (auto simp: bank_inv_def queued_ok_def)
  obtain c where c: "0 < c" "c < exact_cents" "msg_Amount p = scan_float c" "sql_num (dc_drv e) (msg_Amount p) = numeric_val c"
    using whole_amount_cents [OF q(2) assms(3)] by metis
  have eff: "broker w' = broker w" "db_ok (primary w')"
    and acc: "accounts (primary w') = accounts (primary w) \<or>
     (\<exists>d. settle_body e p (primary w) = Inr d \<and> accounts (primary w') = accounts d)"
    using process_effect [OF assms(5) Some assms(2,1) ok] by blast+
  from acc show ?thesis
  proof
    assume "accounts (primary w') = accounts (primary w)"
    with eff show ?thesis by (intro bank_inv_accounts [OF assms(6)]) auto
  next
    assume "\<exists>d. settle_body e p (primary w) = Inr d \<and> accounts (primary w') = accounts d"
    then obtain d where d: "settle_body e p (primary w) = Inr d" "accounts (primary w') = accounts d" by blast
    have "money d = money (primary w)" "solvent (balance_of d)" "dom (accounts d) = dom (accounts (primary w))"
      using stl.body_conserves [of "(e, p)" "primary w" d c] stl.body_solvent [of "(e, p)" "primary w" d c]
        stl.body_dom [of "(e, p)" "primary w" d] d(1) c q(1) assms(6)
      by (simp_all add: bank_inv_def)
    with eff assms(6) same_accounts [OF d(2)] d(2) show ?thesis by (simp add: bank_inv_def)
  qed
qed

lemma bank_step_inv: "bank_step w w' \<Longrightarrow> bank_inv M w \<Longrightarrow> bank_inv M w'"
proof (induction rule: bank_step.induct)
  case (balance svc i w res w')
  then show ?case using GetBalance_frame [of svc i w] by (simp add: bank_inv_def)
next
  case (status s k w res w')
  then show ?case using GetTransactionStatus_frame [of s k w] by (simp add: bank_inv_def)
next
  case (pay s e inp w res w')
  then show ?case by (rule pay_inv)
next
  case (deliver wk drv now orc r e body w a w')
  then show ?case by (rule deliver_inv)
qed (simp_all add: bank_inv_def)

lemma bank_reach_inv: "bank_reach w0 w \<Longrightarrow> bank_inv M w0 \<Longrightarrow> bank_inv M w"
  by (induction rule: bank_reach.induct) (auto intro: bank_step_inv)

section \<open>Properties\<close>

text \<open>
  C1. The bank is sound for payments of whole cents: in every state the system can reach, from a
  database that satisfies its schema and has no negative balance, with an empty queue, the
  money in all accounts is what it was at the start, no balance is negative and the schema's
  invariant holds. The steps are payments on both paths, each of a positive whole number of
  cents below \<open>exact_cents\<close> (the amounts the handler also accepts beyond these are excluded), the
  deliveries of published messages, repeated at will, inquiries, a lagging replica and a cache
  that may change arbitrarily, in any order, each request or delivery as one step; any statement
  and commit may fail. Payments and settlements run on the primary, publishing appends the message
  to the queue or does nothing, whatever it reports, and the driver writes such an amount as the
  number it is.
\<close>

theorem bank_conserves_money:
  assumes "bank_reach w0 w" and "db_ok (primary w0)" "solvent (balance_of (primary w0))" "broker w0 = []"
  shows "money (primary w) = money (primary w0) \<and> solvent (balance_of (primary w)) \<and> db_ok (primary w)"
  using bank_reach_inv [OF assms(1), of "money (primary w0)"] assms(2-4) by (simp add: bank_inv_def)

text \<open>A driver that keeps the promise: it writes the number rounded to two decimals.\<close>

definition drv2 :: driver where
  "drv2 = \<lparr>sql_num = (\<lambda>x. numeric_val \<lfloor>x * 100 + 1 / 2\<rfloor>), sql_time = (\<lambda>t. t)\<rparr>"

lemma drv2_exact: "exact_driver drv2"
  unfolding exact_driver_def
proof (intro allI impI)
  fix c assume c: "0 < c" "c < exact_cents"
  have "nat c * 64 < 100 * 2 ^ 52" using c by (simp add: exact_cents_def)
  then have "ulp_shift (nat c) \<le> 52" by (simp add: ulp_shift_le)
  then have "(2 :: rat) ^ ulp_shift (nat c) / 2 ^ 60 \<le> 2 ^ 52 / 2 ^ 60"
    by (intro divide_right_mono power_increasing) simp_all
  moreover have "\<bar>scan_float c - of_int c / 100\<bar> \<le> 2 ^ ulp_shift (nat c) / 2 ^ 60"
    using float_nat_error [of "nat c"] c(1) by (simp add: scan_float_def)
  ultimately have "\<bar>scan_float c - of_int c / 100\<bar> \<le> 1 / 256" by simp
  then have "scan_float c - of_int c / 100 \<le> 1 / 256" "of_int c / 100 - scan_float c \<le> 1 / 256"
    by linarith+
  then have "of_int c \<le> scan_float c * 100 + 1 / 2" "scan_float c * 100 + 1 / 2 < of_int c + 1" by linarith+
  then have "\<lfloor>scan_float c * 100 + 1 / 2\<rfloor> = c" by (rule floor_unique)
  then show "sql_num drv2 (scan_float c) = numeric_val c" by (simp add: drv2_def)
qed

definition bank_world :: "(keyed_store, bytes list) world" where
  "bank_world = \<lparr>primary = db0, standby = db0, kv = store0, broker = [], mem_accounts = Map.empty,
     mem_txs = Map.empty, txCounter = 0, event = None, cache_hits = (\<lambda>_. 0), cache_misses = (\<lambda>_. 0)\<rparr>"

definition bank_svc :: "(keyed_store, bytes list) transactionService" where
  "bank_svc = \<lparr>ts_repo = primary_txs drv2 7 orc0, ts_db = Some PrimaryDB, ts_queue = Some (\<lambda>b q body. (None, b @ [Some body])),
     ts_redis = None, ts_txStatusTTL = 0\<rparr>"

definition bank_env :: req_env where
  "bank_env = \<lparr>re_db = call0\<lparr>dc_drv := drv2\<rparr>, re_now = 1, re_nano = 9\<rparr>"

definition inp0 :: CreateTransactionInput where
  "inp0 = \<lparr>in_SourceAccount = 1001, in_DestAccount = 1002, in_Amount = 50\<rparr>"

text \<open>A payment is accepted and its message, or an earlier copy of it, delivered.\<close>

definition paid_world :: "(keyed_store, bytes list) world" where
  "paid_world = snd (CreateTransaction bank_svc bank_env inp0 bank_world)"

lemma paid_reach: "bank_reach bank_world paid_world"
proof -
  have "whole_amount (in_Amount inp0)" unfolding whole_amount_def by (rule exI [of _ 5000]) (simp add: inp0_def)
  moreover have "service_ok bank_svc" by (auto simp: service_ok_def bank_svc_def log_publisher_def)
  ultimately have "bank_step bank_world paid_world"
    using bank_step.pay [of bank_svc bank_env inp0 bank_world "fst (CreateTransaction bank_svc bank_env inp0 bank_world)" paid_world]
      drv2_exact by (simp add: paid_world_def) (simp add: bank_env_def)
  then show ?thesis by (rule bank_more [OF bank_start])
qed

theorem bank_conserves_money_witness: "money (primary paid_world) = 10500 \<and> solvent (balance_of (primary paid_world))"
  using bank_conserves_money [OF paid_reach] sample_money sample_ok sample_solvent by (simp add: bank_world_def)

section \<open>Completed is final\<close>

text \<open>Steps in which the worker reads the status from the primary and that read succeeds.\<close>

inductive primary_step :: "('r, bytes list) world \<Rightarrow> ('r, bytes list) world \<Rightarrow> bool" where
  p_pay: "service_ok s \<Longrightarrow> CreateTransaction s e inp w = (res, w') \<Longrightarrow> primary_step w w'"
| p_deliver: "wk_db (wk :: ('r, bytes list, string) worker) = PrimaryDB \<Longrightarrow> wk_repo wk = primary_txs drv now orc \<Longrightarrow>
     fault orc RepoGet = None \<Longrightarrow> process wk e body w = (a, w') \<Longrightarrow> primary_step w w'"
| p_balance: "GetBalance svc i w = (res, w') \<Longrightarrow> primary_step w w'"
| p_status: "GetTransactionStatus s k w = (res, w') \<Longrightarrow> primary_step w w'"
| p_cache: "primary_step w (w\<lparr>kv := r\<rparr>)"

lemma settled_cong: "transactions (primary w') k = transactions (primary w) k \<Longrightarrow> settled_tx w k \<Longrightarrow> settled_tx w' k"
  by (simp add: settled_tx_def)

lemma insert_settled: "settled_tx w (tx_ID t) \<Longrightarrow> insert_transaction drv t (primary w) \<noteq> Inr d"
  by (auto simp: settled_tx_def elim!: insert_transaction_Inr)

lemma createAsync_final:
  assumes "createAsync s pub tx w = (res, w')" "ts_repo s = primary_txs drv now orc" "settled_tx w k"
  shows "settled_tx w' k"
proof -
  let ?t = "tx\<lparr>tx_Status := StatusPending\<rparr>"
  obtain x w1 where sv: "txn_Save (ts_repo s) w ?t = (x, w1)" by (cases "txn_Save (ts_repo s) w ?t")
  then have save: "pg_tx_Save drv orc (pg_NewTransactionRepository PrimaryDB None) w ?t = (x, w1)" by (simp add: assms(2))
  show ?thesis
  proof (cases "tx_ID tx = k")
    case True
    then have "\<nexists>d. insert_transaction drv ?t (primary w) = Inr d" using insert_settled [of w ?t drv] assms(3) by auto
    moreover from this have "x \<noteq> None"
      using save pg_tx_Save_None [of drv orc "pg_NewTransactionRepository PrimaryDB None" w ?t w1] by fastforce
    ultimately have "primary w1 = primary w" "x \<noteq> None" using pg_tx_Save_db [OF save] by blast+
    with assms(1,3) sv show ?thesis by (auto simp: createAsync_def settled_tx_def)
  next
    case False
    have w1: "transactions (primary w1) k = transactions (primary w) k"
      using pg_tx_Save_db [OF save] insert_transaction_other [of drv ?t "primary w" "primary w1" k] False by auto
    have upd: "transactions (primary (snd (pg_tx_UpdateStatus now orc (pg_NewTransactionRepository PrimaryDB None)
        (w1\<lparr>broker := b\<rparr>) (tx_ID tx) StatusFailed))) k = transactions (primary w1) k" for b
      using pg_tx_UpdateStatus_db [OF prod.collapse [symmetric], of now orc None "w1\<lparr>broker := b\<rparr>" "tx_ID tx" StatusFailed]
        update_status_frame(3) [of now StatusFailed "tx_ID tx" "primary w1"] False by fastforce
    have "transactions (primary w') k = transactions (primary w1) k"
      using assms(1,2) sv upd by (auto simp: createAsync_def Let_def split: option.splits prod.splits)
    with w1 assms(3) show ?thesis by (metis settled_cong)
  qed
qed

lemma upsert_transaction_other:
  assumes "upsert_transaction drv t d = Inr d'" "k \<noteq> tx_ID t"
  shows "transactions d' k = transactions d k"
proof -
  from assms(1) obtain r where "transactions d' = (transactions d)(tx_ID t \<mapsto> r)"
    by (fastforce simp: upsert_transaction_def insert_row_def split: option.splits if_splits)
  with assms(2) show ?thesis by simp
qed

lemma createSync_final:
  assumes "createSync s e PrimaryDB tx w = (res, w')" "settled_tx w k"
  shows "settled_tx w' k"
proof -
  from createSync_atomic [OF assms(1)] consider "primary w' = primary w" | "sync_body e tx (primary w) = Inr (primary w')" by auto
  then show ?thesis
  proof cases
    case 1
    with assms(2) show ?thesis by (simp add: settled_tx_def)
  next
    case 2
    show ?thesis
    proof (cases "tx_ID tx = k")
      case True
      with sync_body_recorded [OF 2] show ?thesis by (auto simp: settled_tx_def)
    next
      case False
      from 2 obtain d1 d2 where "update_debit (dc_drv e) (dc_now e) (tx_Amount tx) (tx_SourceAccount tx) (primary w) = Inr d1"
        "update_credit (dc_drv e) (dc_now e) (tx_Amount tx) (tx_DestAccount tx) d1 = Inr d2"
        and up: "upsert_transaction (dc_drv e) (tx\<lparr>tx_Status := StatusCompleted\<rparr>) d2 = Inr (primary w')"
        by (auto simp: sync_body_Inr)
      then have "transactions d2 = transactions (primary w)"
        using update_balance_frame(1) by (metis update_credit_def update_debit_def)
      moreover have "transactions (primary w') k = transactions d2 k"
        using upsert_transaction_other [OF up] False by simp
      ultimately show ?thesis using assms(2) by (simp add: settled_tx_def)
    qed
  qed
qed

lemma process_final:
  assumes "process wk e body w = (a, w')" "wk_db wk = PrimaryDB" "wk_repo wk = primary_txs drv now orc"
    "fault orc RepoGet = None" "settled_tx w k"
  shows "settled_tx w' k"
proof (cases "unmarshal_TxMessage body")
  case None
  with assms show ?thesis by (simp add: process_undecodable)
next
  case (Some p)
  show ?thesis
  proof (cases "msg_TXID p = k")
    case True
    with process_skips [OF assms(3,4) Some] assms(1,5) show ?thesis by simp
  next
    case False
    obtain x w1 where s: "settle e PrimaryDB p w = (x, w1)" by (cases "settle e PrimaryDB p w")
    have w1: "transactions (primary w1) k = transactions (primary w) k"
      using settle_atomic [OF s] settle_body_transactions(2) [of e p "primary w" "primary w1" k] False by auto
    have upd: "transactions (primary (snd (pg_tx_UpdateStatus now orc (pg_NewTransactionRepository PrimaryDB None)
        w1 (msg_TXID p) StatusFailed))) k = transactions (primary w1) k"
      using pg_tx_UpdateStatus_db [OF prod.collapse [symmetric], of now orc None w1 "msg_TXID p" StatusFailed]
        update_status_frame(3) [of now StatusFailed "msg_TXID p" "primary w1"] False by fastforce
    have "w' = w \<or> transactions (primary w') k = transactions (primary w1) k"
      using assms(1-3) Some s upd by (auto simp: process_def split: if_splits option.splits)
    with w1 assms(5) show ?thesis by (metis settled_cong)
  qed
qed

lemma primary_step_final: "primary_step w w' \<Longrightarrow> settled_tx w k \<Longrightarrow> settled_tx w' k"
proof (induction rule: primary_step.induct)
  case (p_pay s e inp w res w')
  then obtain drv now orc where s: "ts_repo s = primary_txs drv now orc" "ts_db s = Some PrimaryDB" by (auto simp: service_ok_def)
  obtain tx w2 r w3 where "primary w2 = primary w" "primary w' = primary w3"
    and run: "(case ts_queue s of Some pub \<Rightarrow> createAsync s pub tx w2 | None \<Rightarrow> createSync s (re_db e) PrimaryDB tx w2) = (r, w3)"
    using CreateTransaction_run [OF p_pay.hyps(2) s(2)] by metis
  then have "settled_tx w2 k" "settled_tx w3 k \<Longrightarrow> settled_tx w' k" using p_pay.prems by (simp_all add: settled_tx_def)
  then show ?case
    using createAsync_final [of s _ tx w2 r w3, OF _ s(1)] createSync_final [of s "re_db e" tx w2 r w3] run
    by (cases "ts_queue s") auto
next
  case (p_deliver wk drv now orc e body w a w')
  then show ?case by (blast intro: process_final)
next
  case (p_balance svc i w res w')
  then show ?case using GetBalance_frame [of svc i w] by (simp add: settled_tx_def)
next
  case (p_status s j w res w')
  then show ?case using GetTransactionStatus_frame [of s j w] by (simp add: settled_tx_def)
qed (simp add: settled_tx_def)

text \<open>
  C8. Completed is final: while the workers read the status from the primary and can read
  it, no sequence of payments, deliveries (of any message, of the same transaction too) and
  inquiries turns a completed transaction into anything else.
\<close>

theorem completed_is_final:
  assumes "primary_step\<^sup>*\<^sup>* w w'" and "settled_tx w k"
  shows "settled_tx w' k"
  using assms by (induction rule: rtranclp_induct) (auto intro: primary_step_final)

definition done_world :: "(keyed_store, bytes list) world" where
  "done_world = bank_world\<lparr>primary := db0\<lparr>transactions := [''txn1'' \<mapsto> row1\<lparr>row_status := StatusCompleted\<rparr>]\<rparr>\<rparr>"

definition bank_worker :: "(keyed_store, bytes list, string) worker" where
  "bank_worker = NewWorker PrimaryDB (\<lambda>b q. (Inr q, b)) None (primary_txs drv2 7 orc0)"

theorem completed_is_final_witness: "settled_tx (snd (process bank_worker call0 body0 done_world)) ''txn1''"
proof -
  have "primary_step done_world (snd (process bank_worker call0 body0 done_world))"
    using primary_step.p_deliver [OF _ _ _ prod.collapse [symmetric], of bank_worker drv2 7 orc0]
    by (simp add: bank_worker_def NewWorker_def)
  then have "primary_step\<^sup>*\<^sup>* done_world (snd (process bank_worker call0 body0 done_world))" by simp
  moreover have "settled_tx done_world ''txn1''" by (simp add: settled_tx_def done_world_def)
  ultimately show ?thesis by (rule completed_is_final)
qed

end
