(* ===== verification/Isolation.thy ===== *)
theory Isolation
  imports RowLocks System
begin

text \<open>
  What the row locks give the program: concurrent transactions behave as if they ran one
  after another, so the guarantees of the atomic model hold for every interleaving of their
  statements; and where they do not help: transfers in opposite directions can deadlock, and
  two workers that both found a message unsettled settle it twice.
\<close>

section \<open>A sample run\<close>

text \<open>
  Two transactions that both begin before either has run a statement, and then run one after
  the other. In the sample bank 1001 pays 50.00 to 1002 while 1002 pays 5.00 to 1001.
\<close>

lemma both_begin_both_commit:
  assumes "job_body j c = Inr c1" "job_body j' c1 = Inr c2" "job_ready c j" "job_ready c j'"
  shows "\<exists>st1 st2. iso_reach c st1 \<and> committed st1 = c \<and> sessions st1 = [0 \<mapsto> fresh j c, 1 \<mapsto> fresh j' c] \<and>
    iso_step\<^sup>*\<^sup>* st1 st2 \<and> committed st2 = c2 \<and> history st2 = [j, j']"
proof -
  define st0 where "st0 = \<lparr>committed = c, sessions = Map.empty, history = []\<rparr>"
  define st1 where "st1 = put (put st0 0 (fresh j c)) 1 (fresh j' c)"
  have st1: "committed st1 = c" "sessions st1 = [0 \<mapsto> fresh j c, 1 \<mapsto> fresh j' c]" "history st1 = []"
    by (simp_all add: st1_def st0_def put_def)
  have "iso_step st0 (put st0 0 (fresh j c))" "iso_step (put st0 0 (fresh j c)) st1"
    using begins [of st0 0 j] begins [of "put st0 0 (fresh j c)" 1 j'] assms(3,4)
    by (simp_all add: st1_def) (simp_all add: st0_def put_def)
  then have reach: "iso_reach c st1" unfolding st0_def using iso_start iso_more by blast
  let ?st = "\<lparr>committed = c1, sessions = (sessions st1)(0 := None), history = [j]\<rparr>"
  have "iso_step\<^sup>*\<^sup>* st1 ?st"
    using runs_and_commits [of st1 0 j c c1] assms(1) by (simp add: st1 granted_def)
  moreover have "iso_step\<^sup>*\<^sup>* ?st \<lparr>committed = c2, sessions = (sessions ?st)(1 := None), history = [j, j']\<rparr>"
    using runs_and_commits [of ?st 1 j' c c2] assms(2) by (simp add: st1 granted_def)
  ultimately have "iso_step\<^sup>*\<^sup>* st1 \<lparr>committed = c2, sessions = (sessions ?st)(1 := None), history = [j, j']\<rparr>"
    by (rule rtranclp_trans)
  with reach st1 show ?thesis by (intro exI conjI) (assumption | simp)+
qed

definition tx_back :: Transaction where
  "tx_back = tx0\<lparr>tx_ID := ''txn2'', tx_SourceAccount := 1002, tx_DestAccount := 1001, tx_Amount := 5\<rparr>"

definition call2 :: db_call where
  "call2 = call0\<lparr>dc_drv := drv2\<rparr>"

lemma call2_sel [simp]:
  "dc_drv call2 = drv2" "fault (dc_orc call2) x = None" "sql_num drv2 50 = numeric_val 5000" "sql_num drv2 5 = numeric_val 500"
  using drv2_exact [unfolded exact_driver_def, rule_format, of 5000] drv2_exact [unfolded exact_driver_def, rule_format, of 500]
  by (simp_all add: call2_def exact_cents_def)

lemma tx_back_sel [simp]:
  "tx_ID tx_back = ''txn2''" "tx_SourceAccount tx_back = 1002" "tx_DestAccount tx_back = 1001" "tx_Amount tx_back = 5"
  by (simp_all add: tx_back_def)

lemma sample_pays: "\<exists>d. sync_body call2 tx0 db0 = Inr d"
  by (rule sync_body_total [where c = 5000 and b = 10000 and b' = 500]) (simp_all del: sample_cents)

lemma sample_pays_back:
  assumes "balance_of c 1002 = Some b" "balance_of c 1001 = Some b'" "500 \<le> b" "\<bar>b\<bar> < 10 ^ 6" "\<bar>b'\<bar> < 10 ^ 6" "\<not> scan_float b < 5"
  shows "\<exists>d. sync_body call2 tx_back c = Inr d"
  by (rule sync_body_total [where c = 500 and b = b and b' = b']) (use assms in auto)

lemma sample_both:
  obtains d1 d2 where "sync_body call2 tx0 db0 = Inr d1" "sync_body call2 tx_back d1 = Inr d2"
proof -
  obtain d1 where d1: "sync_body call2 tx0 db0 = Inr d1" using sample_pays by blast
  obtain x where "balance_of db0 1001 = Some x"
    "balance_of d1 = (let L = (balance_of db0)(1001 \<mapsto> x - 5000) in L(1002 \<mapsto> the (L 1002) + 5000))"
    using sync.body_balances [of "(call2, tx0)" db0 d1 5000] d1 by (auto simp del: sample_cents)
  then have "balance_of d1 1002 = Some 5500" "balance_of d1 1001 = Some 5000" by (auto simp: Let_def)
  from sample_pays_back [OF this] d1 that show thesis by auto
qed

lemma sample_run:
  obtains st where "iso_reach db0 st" "history st = [JSync call2 tx0, JSync call2 tx_back]"
proof -
  obtain d1 d2 where "job_body (JSync call2 tx0) db0 = Inr d1" "job_body (JSync call2 tx_back) d1 = Inr d2"
    using sample_both by auto
  from both_begin_both_commit [OF this] show thesis using iso_reach_steps that by auto
qed

section \<open>Serialisability\<close>

text \<open>
  C3. Row locks serialise: whatever the interleaving of statements, the committed database is
  the result of running the committed transactions one after another, each as one step, in
  the order of their commits; transactions that were rolled back or are still running left
  no trace, and one that has run all its statements is about to commit exactly what it would
  have done alone on the current state.
\<close>

theorem row_locks_serialise:
  assumes "iso_reach c0 st"
  shows "replay (history st) c0 = Inr (committed st) \<and>
    (\<forall>i s. sessions st i = Some s \<longrightarrow> ss_pc s = length (prog (ss_job s)) \<longrightarrow>
       job_body (ss_job s) (committed st) = Inr (session_view st s))"
  using iso_reach_inv [OF assms] session_body by (auto simp: iso_inv_def)

theorem row_locks_serialise_witness:
  "\<exists>st. iso_reach db0 st \<and> length (history st) = 2 \<and> replay (history st) db0 = Inr (committed st)"
proof -
  obtain st where "iso_reach db0 st" "history st = [JSync call2 tx0, JSync call2 tx_back]" by (rule sample_run)
  with row_locks_serialise [of db0 st] show ?thesis by (intro exI [of _ st]) (simp del: replay.simps)
qed

section \<open>Money under concurrency\<close>

text \<open>Whole amounts, written exactly, to existing accounts.\<close>

fun whole_job :: "int64 set \<Rightarrow> job \<Rightarrow> bool" where
  "whole_job ids (JSync e tx) \<longleftrightarrow> exact_driver (dc_drv e) \<and> whole_amount (tx_Amount tx)"
| "whole_job ids (JSettle e p) \<longleftrightarrow>
     exact_driver (dc_drv e) \<and> whole_amount (msg_Amount p) \<and> msg_DestAccount p \<in> ids"
| "whole_job ids j \<longleftrightarrow> True"

definition sound :: "database \<Rightarrow> database \<Rightarrow> bool" where
  "sound c0 c \<longleftrightarrow> money c = money c0 \<and> solvent (balance_of c) \<and> db_ok c \<and> dom (accounts c) = dom (accounts c0)"

lemma sound_accounts: "sound c0 c \<Longrightarrow> accounts c' = accounts c \<Longrightarrow> db_ok c' \<Longrightarrow> sound c0 c'"
  by (simp add: sound_def same_accounts [of c' c])

lemma job_sound:
  assumes "job_body j c = Inr c'" "whole_job (dom (accounts c0)) j" "sound c0 c"
  shows "sound c0 c'"
proof (cases j)
  case (JSync e tx)
  with assms(2) obtain k where k: "0 < k" "k < exact_cents" "tx_Amount tx = scan_float k"
    "sql_num (dc_drv e) (tx_Amount tx) = numeric_val k" by (auto simp: whole_amount_def exact_driver_def)
  have b: "(\<lambda>(e, tx). sync_body e tx) (e, tx) c = Inr c'" using assms(1) JSync by simp
  have dst: "(\<lambda>(e, tx). tx_DestAccount tx) (e, tx) \<in> dom (accounts c)"
    using assms(1) JSync sync_body_dst by simp
  show ?thesis
    using sync.body_conserves [OF b _ dst, of k] sync.body_solvent [OF b _ dst, of k] sync.body_dom [OF b]
      sync.body_ok [OF b] k assms(3) by (simp add: sound_def)
next
  case (JSettle e p)
  with assms(2) obtain k where k: "0 < k" "k < exact_cents" "msg_Amount p = scan_float k"
    "sql_num (dc_drv e) (msg_Amount p) = numeric_val k" by (auto simp: whole_amount_def exact_driver_def)
  have b: "(\<lambda>(e, p). settle_body e p) (e, p) c = Inr c'" using assms(1) JSettle by simp
  have dst: "(\<lambda>(e, p). msg_DestAccount p) (e, p) \<in> dom (accounts c)"
    using assms(2,3) JSettle by (simp add: sound_def)
  show ?thesis
    using stl.body_conserves [OF b _ dst, of k] stl.body_solvent [OF b _ dst, of k] stl.body_dom [OF b]
      stl.body_ok [OF b] k assms(3) by (simp add: sound_def)
next
  case (JSave drv tx)
  with assms show ?thesis
    using sound_accounts [OF assms(3) insert_transaction_frame] insert_transaction_ok [of drv tx c c']
    by (simp add: sound_def)
next
  case (JMark now st k)
  with assms show ?thesis
    using sound_accounts [OF assms(3) update_status_frame(1)] update_status_ok [of now st k c c']
    by (simp add: sound_def)
qed

lemma replay_sound:
  "replay js c = Inr c' \<Longrightarrow> (\<And>j. j \<in> set js \<Longrightarrow> whole_job (dom (accounts c0)) j) \<Longrightarrow> sound c0 c \<Longrightarrow> sound c0 c'"
  by (induction js arbitrary: c) (auto dest: job_sound)

text \<open>
  C7. Concurrency neither creates nor destroys money: with any number of payments,
  settlements and status updates interleaved statement by statement, and any of them rolled
  back at any point, the committed balances sum to what they summed to at the start, none is
  negative, and the schema's invariant holds, when they did at the start and every committed
  payment and settlement is of a positive whole number of cents below \<open>exact_cents\<close>, written
  exactly by the driver, a settlement to an account that exists.
\<close>

theorem concurrent_payments_sound:
  assumes "iso_reach c0 st" and "\<forall>j \<in> set (history st). whole_job (dom (accounts c0)) j"
    and "db_ok c0" "solvent (balance_of c0)"
  shows "money (committed st) = money c0 \<and> solvent (balance_of (committed st)) \<and> db_ok (committed st)"
  using replay_sound [of "history st" c0 "committed st" c0] iso_reach_inv [OF assms(1)] assms(2-4)
  by (simp add: iso_inv_def sound_def)

theorem concurrent_payments_sound_witness:
  "\<exists>st. iso_reach db0 st \<and> length (history st) = 2 \<and> money (committed st) = 10500"
proof -
  obtain st where st: "iso_reach db0 st" "history st = [JSync call2 tx0, JSync call2 tx_back]" by (rule sample_run)
  have "whole_amount 50" "whole_amount 5"
    unfolding whole_amount_def by (rule exI [of _ 5000], simp) (rule exI [of _ 500], simp add: exact_cents_def)
  then have "\<forall>j \<in> set (history st). whole_job (dom (accounts db0)) j" using st(2) drv2_exact by simp
  from concurrent_payments_sound [OF st(1) this sample_ok sample_solvent] st sample_money
  show ?thesis by (intro exI [of _ st]) simp
qed

section \<open>Deadlocks\<close>

lemma step_sessions: "iso_step st st' \<Longrightarrow> \<exists>i. dom (sessions st') \<subseteq> insert i (dom (sessions st))"
  by (erule iso_step_cases) (rule_tac x = i in exI, auto split: if_splits)+

lemma finite_sessions: "iso_reach c0 st \<Longrightarrow> finite (dom (sessions st))"
  by (induction rule: iso_reach.induct) (auto dest!: step_sessions intro: finite_subset)

lemma waits_rank:
  assumes "iso_reach c0 st" "waits_for st i l" "\<And>i s. sessions st i = Some s \<Longrightarrow> ascending (ss_job s)"
  obtains j s where "sessions st j = Some s" "l \<in> ss_held s" "present (committed st) l"
    "\<And>x t. sessions st i = Some t \<Longrightarrow> x \<in> ss_held t \<Longrightarrow> lock_rank x < lock_rank l"
proof -
  note inv = iso_reach_inv [OF assms(1), unfolded iso_inv_def]
  from assms(2) obtain s F where s: "sessions st i = Some s" "ss_pc s < length (prog (ss_job s))"
    "prog (ss_job s) ! ss_pc s = (Some l, F)" "\<not> granted st i l" by (auto simp: waits_for_def)
  from s(4) obtain j t where t: "j \<noteq> i" "sessions st j = Some t" "l \<in> ss_held t" "present (committed st) l"
    by (auto simp: granted_def)
  have "l \<notin> ss_held s" using inv s(1) t unfolding exclusive_def by blast
  then have "lock_rank x < lock_rank l" if "x \<in> ss_held s" for x
    using ascending_locks [OF assms(3) [OF s(1)] s(2,3)] that inv s(1) by (auto simp: session_ok_def)
  with that [OF t(2-4)] s(1) show thesis by auto
qed

text \<open>If every payment goes from a smaller to a larger account number, someone can always proceed.\<close>

lemma ascending_never_deadlocks:
  assumes reach: "iso_reach c0 st" and asc: "\<And>i s. sessions st i = Some s \<Longrightarrow> ascending (ss_job s)"
  shows "\<not> deadlocked st"
proof
  assume "deadlocked st"
  then have ne: "dom (sessions st) \<noteq> {}" and w: "\<forall>i \<in> dom (sessions st). \<exists>l. waits_for st i l"
    by (auto simp: deadlocked_def)
  from w obtain want where want: "\<And>i. i \<in> dom (sessions st) \<Longrightarrow> waits_for st i (want i)" by metis
  obtain i where i: "i \<in> dom (sessions st)"
    "\<And>j. j \<in> dom (sessions st) \<Longrightarrow> lock_rank (want j) \<le> lock_rank (want i)"
    using finite_sessions [OF reach] ne Max_in [of "(lock_rank \<circ> want) ` dom (sessions st)"]
      Max_ge [of "(lock_rank \<circ> want) ` dom (sessions st)"] by fastforce
  obtain j s where j: "sessions st j = Some s" "want i \<in> ss_held s"
    by (rule waits_rank [OF reach want [OF i(1)] asc]) blast+
  then have jd: "j \<in> dom (sessions st)" by auto
  have "lock_rank (want i) < lock_rank (want j)"
    by (rule waits_rank [OF reach want [OF jd] asc]) (use j in blast)+
  with i(2) [OF jd] show False by simp
qed

lemma credit_waits:
  assumes "sessions st i = Some (ran_to (JSync e t) 4 own)" "j \<noteq> i" "sessions st j = Some s"
    "AccRow (tx_DestAccount t) \<in> ss_held s" "tx_DestAccount t \<in> dom (accounts (committed st))"
  shows "waits_for st i (AccRow (tx_DestAccount t))"
proof -
  have "\<not> granted st i (AccRow (tx_DestAccount t))"
    using assms(2-5) unfolding granted_def present_def by fastforce
  with assms(1) show ?thesis by (simp add: waits_for_def credit_stmt_def numeral_eq_Suc)
qed



section \<open>Two workers with the same message\<close>

text \<open>
  \<open>process\<close> looks the status up before the settlement's transaction begins, and the transaction
  does not look again. When a message is redelivered while the first delivery is still being
  processed, both workers begin with the row pending (the state \<open>st1\<close>), and both settle: the
  locks make the second wait for the first, not notice it.
\<close>

lemma concurrent_duplicates_settle_twice:
  assumes "settle_body e p c = Inr c1" "settle_body e' p c1 = Inr c2" "transactions c (msg_TXID p) \<noteq> None"
  shows "\<exists>st1 st2. iso_reach c st1 \<and> committed st1 = c \<and>
    sessions st1 = [0 \<mapsto> fresh (JSettle e p) c, 1 \<mapsto> fresh (JSettle e' p) c] \<and>
    iso_step\<^sup>*\<^sup>* st1 st2 \<and> committed st2 = c2 \<and> history st2 = [JSettle e p, JSettle e' p]"
  using assms by (intro both_begin_both_commit) simp_all

end
