(* ===== verification/Findings.thy ===== *)
theory Findings
  imports Settlement
begin

text \<open>
  Concrete runs that show where the guarantees of the other theories end: amounts that are
  not whole cents, balances beyond the exact range of the float comparison, status reads
  from a lagging replica, commits whose outcome is unknown, and messages that did not come
  from the service.
\<close>

section \<open>Amounts below a cent\<close>

text \<open>
  A payment of half a cent is accepted and creates a cent: the debit of 0.005 from 100.00 is
  rounded back to 100.00, the credit to 5.00 is rounded up to 5.01.
\<close>

lemma half_cent_updates:
  "update_debit drv0 7 (1 / 200) 1001 db0 = Inr (db0\<lparr>accounts := (accounts db0)(1001 \<mapsto>
     \<lparr>row_name = ''A'', row_balance = 10000, row_updated_at = 7\<rparr>)\<rparr>)"
  by (simp add: update_debit_def update_balance_def db0_def numeric_18_2_def numeric_val_def Let_def)

lemma half_cent_body:
  "\<exists>d. sync_body call0 (tx0\<lparr>tx_Amount := 1 / 200\<rparr>) db0 = Inr d \<and> balance_of d = [1001 \<mapsto> 10000, 1002 \<mapsto> 501]"
  by (simp add: sync_body_def Let_def select_balance_for_update_def select_account_exists_def half_cent_updates)
     (simp add: update_credit_def update_balance_def db0_def numeric_18_2_def numeric_val_def
       upsert_transaction_def new_row_def insert_row_def StatusCompleted_def balance_of_def fun_eq_iff)

lemma half_cent_creates_money:
  "\<exists>w'. createSync sync_svc call0 PrimaryDB (tx0\<lparr>tx_Amount := 1 / 200\<rparr>) world0
        = (Inr (tx0\<lparr>tx_Amount := 1 / 200, tx_Status := StatusCompleted\<rparr>), w') \<and>
      money (primary w') = money (primary world0) + 1"
proof -
  obtain d where d: "sync_body call0 (tx0\<lparr>tx_Amount := 1 / 200\<rparr>) db0 = Inr d" "balance_of d = [1001 \<mapsto> 10000, 1002 \<mapsto> 501]"
    using half_cent_body by blast
  have "money d = 10501" by (simp add: money_ledger d(2) msum_insert)
  moreover obtain w' where "createSync sync_svc call0 PrimaryDB (tx0\<lparr>tx_Amount := 1 / 200\<rparr>) world0
      = (Inr (tx0\<lparr>tx_Amount := 1 / 200, tx_Status := StatusCompleted\<rparr>), w')" "primary w' = d"
    using createSync_done [of call0 "tx0\<lparr>tx_Amount := 1 / 200\<rparr>" PrimaryDB world0 d sync_svc] d(1) by auto
  ultimately show ?thesis by (simp add: sample_money)
qed

section \<open>Beyond the exact range\<close>

text \<open>
  A balance of \<open>2 ^ 53 + 3\<close> units scans to the float \<open>2 ^ 53 + 4\<close>, so a payment of \<open>2 ^ 53 + 4\<close>
  passes the check and overdraws the account by one unit.
\<close>

definition rich_db :: database where
  "rich_db = db0\<lparr>accounts := (accounts db0)(1001 \<mapsto>
     \<lparr>row_name = ''A'', row_balance = 900719925474099500, row_updated_at = 0\<rparr>)\<rparr>"

lemma rich_scan: "scan_float 900719925474099500 = 9007199254740996"
  by (simp add: scan_eval)

lemma float_check_overdraws:
  "\<exists>d. sync_body call0 (tx0\<lparr>tx_Amount := 9007199254740996\<rparr>) rich_db = Inr d \<and> solvent (balance_of rich_db) \<and>
     balance_of d 1001 = Some (- 100)"
proof -
  have c: "sql_num (dc_drv call0) (tx_Amount (tx0\<lparr>tx_Amount := 9007199254740996\<rparr>)) = numeric_val 900719925474099600"
    by (simp add: numeric_val_def)
  have b: "balance_of rich_db 1001 = Some 900719925474099500" "balance_of rich_db 1002 = Some 500"
    by (simp_all add: rich_db_def db0_def balance_of_def)
  obtain d where d: "sync_body call0 (tx0\<lparr>tx_Amount := 9007199254740996\<rparr>) rich_db = Inr d"
    using sync_body_total [OF _ c, of rich_db 900719925474099500 500] b by (auto simp: rich_scan)
  obtain b' where "balance_of rich_db 1001 = Some b'"
    "balance_of d = (let L = (balance_of rich_db)(1001 \<mapsto> b' - 900719925474099600) in L(1002 \<mapsto> the (L 1002) + 900719925474099600))"
    using sync.body_balances [of "(call0, tx0\<lparr>tx_Amount := 9007199254740996\<rparr>)" rich_db d 900719925474099600]
      d c sync_body_dst [OF d] by auto
  moreover have "solvent (balance_of rich_db)"
    by (auto simp: solvent_def balance_of_def rich_db_def db0_def split: if_splits)
  ultimately show ?thesis using d b(1) by (simp add: Let_def)
qed

section \<open>A lagging replica\<close>

text \<open>
  With the read replica enabled the worker's check of the status goes to the replica. While
  the replica still shows the payment as pending, a redelivery settles it a second time.
\<close>

definition replica_worker :: "(keyed_store, (string \<times> json) list, string) worker" where
  "replica_worker = NewWorker PrimaryDB (\<lambda>b q. (Inr q, b)) None
     (pg_tx_repo drv0 7 orc0 (pg_NewTransactionRepository PrimaryDB (Some ReplicaDB)))"

definition lagging :: "database \<Rightarrow> (keyed_store, (string \<times> json) list) world" where
  "lagging d = world0\<lparr>primary := d, standby := db0\<lparr>transactions := [''txn1'' \<mapsto> row1]\<rparr>\<rparr>"

lemma replica_process:
  assumes "settle_body call0 msg0 d = Inr d'"
  shows "process replica_worker call0 body0 (lagging d) = (Ack False, lagging d')"
proof -
  have "settle call0 PrimaryDB msg0 (lagging d) = (None, lagging d')"
    using assms by (simp add: settle_None lagging_def)
  then show ?thesis
    by (simp add: process_def replica_worker_def NewWorker_def pg_tx_GetByID_def select_transaction_def lagging_def
        row1_def StatusPending_def StatusCompleted_def invalidateTxStatusCache_def invalidateBalanceCache_def)
qed

lemma redelivery_settles_twice:
  "\<exists>w'. deliveries [(replica_worker, call0), (replica_worker, call0)] body0 (lagging (primary async_world))
        = ([Ack False, Ack False], w') \<and>
      balance_of (primary (lagging (primary async_world))) = [1001 \<mapsto> 10000, 1002 \<mapsto> 500] \<and>
      balance_of (primary w') = [1001 \<mapsto> 0, 1002 \<mapsto> 10500]"
proof -
  let ?d = "primary async_world"
  have settle: "\<exists>d'. settle_body call0 msg0 d = Inr d' \<and> balance_of d' = [1001 \<mapsto> b - 5000, 1002 \<mapsto> b' + 5000]"
    if b: "balance_of d = [1001 \<mapsto> b, 1002 \<mapsto> b']" "5000 \<le> b" "\<bar>b\<bar> < 100000" "\<bar>b'\<bar> < 100000" "\<not> scan_float b < 50" for d b b'
  proof -
    have "\<bar>b' + 5000\<bar> < 10 ^ 18" "\<bar>b - 5000\<bar> < 10 ^ 18" "\<bar>b\<bar> < 10 ^ 18" using b(2-4) by (simp_all add: abs_less_iff)
    then obtain d' where d': "settle_body call0 msg0 d = Inr d'"
      using settle_body_total [where e = call0 and p = msg0 and c = 5000 and d = d and b = b and b' = b'] b by auto
    have "msg_DestAccount msg0 \<in> dom (accounts d)" using b(1) balance_of_dom [of d 1002] by simp
    then obtain x where "balance_of d 1001 = Some x"
      "balance_of d' = (let L = (balance_of d)(1001 \<mapsto> x - 5000) in L(1002 \<mapsto> the (L 1002) + 5000))"
      using stl.body_balances [of "(call0, msg0)" d d' 5000] d' by auto
    with b(1) d' show ?thesis by (auto simp: Let_def fun_eq_iff)
  qed
  obtain d1 where d1: "settle_body call0 msg0 ?d = Inr d1" "balance_of d1 = [1001 \<mapsto> 5000, 1002 \<mapsto> 5500]"
    using settle [of ?d 10000 500] by auto
  obtain d2 where d2: "settle_body call0 msg0 d1 = Inr d2" "balance_of d2 = [1001 \<mapsto> 0, 1002 \<mapsto> 10500]"
    using settle [OF d1(2)] by auto
  show ?thesis
    using replica_process [OF d1(1)] replica_process [OF d2(1)] d2(2) by (simp add: lagging_def)
qed

section \<open>A commit of unknown outcome\<close>

text \<open>
  When the connection is lost during the commit that the server applied, the worker marks the
  transaction failed and dead-letters the message although the money has moved.
\<close>

definition lost_call :: db_call where
  "lost_call = call0\<lparr>dc_orc := orc0\<lparr>fault := (\<lambda>st. if st = CommitTx then Some (ErrExt ''connection reset'') else None)\<rparr>\<rparr>"

lemma lost_commit_reports_failure:
  "\<exists>w' r. process worker0 lost_call body0 async_world = (Nack False False, w') \<and>
     balance_of (primary w') = [1001 \<mapsto> 5000, 1002 \<mapsto> 5500] \<and>
     transactions (primary w') ''txn1'' = Some r \<and> row_status r = StatusFailed"
proof -
  let ?d = "primary async_world"
  have sel: "dc_drv lost_call = drv0" "fault (dc_orc lost_call) st = (if st = CommitTx then Some (ErrExt ''connection reset'') else None)"
    "applied (dc_orc lost_call) st" for st
    by (simp_all add: lost_call_def)
  have "\<exists>d1. settle_body call0 msg0 ?d = Inr d1"
    by (rule settle_body_total [where c = 5000 and b = 10000 and b' = 500]) simp_all
  then obtain d1 where "settle_body call0 msg0 ?d = Inr d1" by blast
  then have d1: "settle_body lost_call msg0 ?d = Inr d1"
    by (simp add: settle_body_Inr lost_call_def)
  have tx: "transactions ?d ''txn1'' = Some row1" by (simp add: async_world_primary)
  have row: "transactions d1 ''txn1'' = Some (row1\<lparr>row_status := StatusCompleted, row_updated := 7\<rparr>)"
    using settle_body_transactions(3) [OF d1, of row1] tx by (simp add: lost_call_def)
  have bal: "balance_of d1 = [1001 \<mapsto> 5000, 1002 \<mapsto> 5500]"
  proof -
    obtain x where "balance_of ?d 1001 = Some x"
      "balance_of d1 = (let L = (balance_of ?d)(1001 \<mapsto> x - 5000) in L(1002 \<mapsto> the (L 1002) + 5000))"
      using stl.body_balances [of "(lost_call, msg0)" ?d d1 5000] d1 sel(1) by auto
    then show ?thesis by (auto simp: Let_def fun_eq_iff)
  qed
  have s: "settle lost_call PrimaryDB msg0 async_world = (Some (ErrExt ''connection reset''), async_world\<lparr>primary := d1\<rparr>)"
    using d1 sel by (simp add: settle_def commit_tx_def autocommit_def)
  let ?d2 = "d1\<lparr>transactions := (transactions d1)(''txn1'' \<mapsto> row1\<lparr>row_status := StatusFailed, row_updated := 7\<rparr>)\<rparr>"
  have upd: "update_status 7 StatusFailed ''txn1'' d1 = Inr ?d2"
    using update_status_known [OF row, of StatusFailed 7] by (simp add: StatusFailed_def)
  have "process worker0 lost_call body0 async_world = (Nack False False, async_world\<lparr>primary := ?d2\<rparr>)"
    using s tx upd by (simp add: process_def pg_tx_GetByID_def select_transaction_def row1_def StatusPending_def
        StatusCompleted_def pg_tx_UpdateStatus_def autocommit_def)
  moreover have "balance_of ?d2 = balance_of d1" by (rule same_accounts) simp
  ultimately show ?thesis using bal by simp
qed

section \<open>A message for an unknown account\<close>

text \<open>The worker does not look the destination up: the debit stands, the credit matches no row.\<close>

lemma unknown_destination_loses_money:
  "\<exists>d. settle_body call0 (msg0\<lparr>msg_DestAccount := 9\<rparr>) db0 = Inr d \<and> money d = money db0 - 5000"
proof -
  have b: "balance_of db0 1001 = Some 10000" by simp
  obtain d1 where d1: "update_debit drv0 7 50 1001 db0 = Inr d1"
    unfolding update_debit_def using update_balance_total [OF b, of "\<lambda>x. x - 50" 5000 7] by (auto simp: numeric_val_def)
  note m = update_debit_whole(2) [OF d1, of 5000 10000]
  have "accounts d1 9 = None"
    using update_balance_frame(3) [OF d1 [unfolded update_debit_def], of 9] by simp
  then have "update_credit drv0 7 50 9 d1 = Inr d1" by (simp add: update_credit_def update_balance_missing)
  moreover have "update_status 7 StatusCompleted ''txn1'' d1 = Inr d1"
    using update_balance_frame(1) [OF d1 [unfolded update_debit_def]] by (simp add: update_status_def)
  ultimately have "settle_body call0 (msg0\<lparr>msg_DestAccount := 9\<rparr>) db0 = Inr d1"
    using d1 by (simp add: settle_body_Inr select_balance_for_update_def)
  with m show ?thesis by simp
qed

end
