(* ===== verification/WorkerLog.thy ===== *)
theory WorkerLog
  imports Settlement
begin

text \<open>
  The operational log lines of the worker, \<open>internal/worker/transaction.go\<close>: what \<open>process\<close> and a
  failing \<open>Start\<close> write through \<open>logger.L\<close>. \<open>bad\<close> is the text of the JSON decoder's error.
\<close>

definition process_log ::
  "('r, 'b, 'd) worker \<Rightarrow> db_call \<Rightarrow> string \<Rightarrow> bytes \<Rightarrow> ('r, 'b) world \<Rightarrow> slogger \<Rightarrow> slogger" where
  "process_log wk e bad body w L =
     (case unmarshal_TxMessage body of
        None \<Rightarrow> slog_Log LevelError ''worker: bad message payload'' [(''error'', LStr bad)] L
      | Some p \<Rightarrow>
          (if (case txn_GetByID (wk_repo wk) w (msg_TXID p) of
                 Inl _ \<Rightarrow> False | Inr existing \<Rightarrow> tx_Status existing = StatusCompleted)
           then slog_Log LevelInfo ''worker: transaction already completed, skipping'' [(''tx_id'', LStr (msg_TXID p))] L
           else
             (case settle e (wk_db wk) p w of
                (Some x, _) \<Rightarrow> slog_Log LevelError ''worker: failed to settle transaction''
                                 [(''tx_id'', LStr (msg_TXID p)), (''error'', LStr (Error x))] L
              | (None, _) \<Rightarrow> L)))"

definition Start_log :: "('r, 'b, 'd) worker \<Rightarrow> ('r, 'b) world \<Rightarrow> slogger \<Rightarrow> slogger" where
  "Start_log wk w L =
     (case fst (wk_queue wk (broker w) ''transactions'') of
        Inl x \<Rightarrow> slog_Log LevelError ''worker: failed to start consumer'' [(''error'', LStr (Error x))] L
      | Inr _ \<Rightarrow> L)"

text \<open>
  C24. The log tells the fate of a delivery: a rejected delivery leaves exactly one line, an
  error; a skipped one leaves one informational line and nothing else changes; a settled one
  leaves none. So the error lines of the worker count its dead letters.
\<close>

theorem dead_letters_are_logged:
  assumes "sl_level L \<le> LevelInfo" and "process wk e body w = (a, w')"
  shows "\<exists>ls. sl_lines (process_log wk e bad body w L) = sl_lines L @ ls \<and>
    (case a of
       Nack _ _ \<Rightarrow> a = Nack False False \<and> map lr_level ls = [LevelError]
     | Ack _ \<Rightarrow> map lr_level ls = [LevelInfo] \<and> w' = w \<or>
                (ls = [] \<and> (\<exists>p w1. unmarshal_TxMessage body = Some p \<and> settle e (wk_db wk) p w = (None, w1))))"
proof -
  have "LevelInfo \<le> LevelError" by (simp add: less_eq_level_def)
  with assms(1) have "sl_level L \<le> LevelError" by (rule order.trans)
  with assms show ?thesis
    by (auto simp: process_def process_log_def slog_Log_def split: option.splits if_splits prod.splits)
qed

theorem dead_letters_are_logged_witness:
  "\<exists>r. sl_lines (process_log worker0 failing_call ''bad'' body0 async_world (logger_Init ''dev''))
     = sl_lines (logger_Init ''dev'') @ [r] \<and> lr_level r = LevelError"
proof -
  have "fault (dc_orc failing_call) ExecCredit \<noteq> None" by (simp add: failing_call_def)
  then have "\<nexists>d. settle_body failing_call msg0 (primary async_world) = Inr d" by (simp add: settle_body_Inr)
  then obtain x where x: "settle_body failing_call msg0 (primary async_world) = Inl x"
    by (cases "settle_body failing_call msg0 (primary async_world)") auto
  have st: "steady 5000 msg0 (worker0, failing_call)" using attempts0_steady by (simp add: attempts0_def)
  obtain w' where "process worker0 failing_call body0 async_world = (Nack False False, w')"
    using process_open_eq [OF st body0_decodes] async_open x by (auto simp: settle_def)
  from dead_letters_are_logged [OF logger_Init_ready(1) this, of "''bad''" "''dev''"] show ?thesis
    by (auto simp: map_eq_Cons_conv)
qed

end
