(* ===== verification/Config.thy ===== *)
theory Config
  imports Domain
begin

text \<open>
  Configuration, \<open>internal/config/config.go\<close>. Reading the environment is done by a library
  from the struct tags; \<open>default_config\<close> is what the tags say for an empty environment and
  \<open>Load\<close> takes the result of the library as an argument.
\<close>

record Config =
  AppPort :: int64
  AppEnv :: string
  CacheEnabled :: bool
  QueueEnabled :: bool
  RateLimitEnabled :: bool
  RateLimitRPS :: float64
  RateLimitBurst :: int64
  CircuitBreakerEnabled :: bool
  CBMaxFailures :: int64
  CBTimeoutSeconds :: int64
  DBReadReplicaEnabled :: bool
  DBPrimaryDSN :: string
  PgBouncerDSN :: string
  PgBouncerReadDSN :: string
  RedisAddr :: string
  CacheBalanceTTL :: duration
  CacheTxStatusTTL :: duration
  QueueURL :: string
  QueueWorkers :: int64

definition default_config :: Config where
  "default_config = \<lparr>
     AppPort = 8080, AppEnv = ''development'',
     CacheEnabled = False, QueueEnabled = False, RateLimitEnabled = False,
     RateLimitRPS = 100, RateLimitBurst = 200,
     CircuitBreakerEnabled = False, CBMaxFailures = 5, CBTimeoutSeconds = 10,
     DBReadReplicaEnabled = False,
     DBPrimaryDSN = '''', PgBouncerDSN = '''', PgBouncerReadDSN = '''',
     RedisAddr = ''redis:6379'', CacheBalanceTTL = 10 * second, CacheTxStatusTTL = 30 * second,
     QueueURL = '''', QueueWorkers = 10\<rparr>"

text \<open>\<open>parse\<close> is \<open>env.Parse(&cfg)\<close>: the filled struct and the error, if any.\<close>

definition Load :: "Config \<times> err option \<Rightarrow> Config \<times> err option" where
  "Load parse = (case parse of (cfg, Some e) \<Rightarrow> (cfg, Some e) | (cfg, None) \<Rightarrow> (cfg, None))"

end
