(* ===== verification/Handlers.thy ===== *)
theory Handlers
  imports StatusInquiry
begin

text \<open>
  The HTTP handlers, \<open>internal/handler\<close>. A handler either writes a JSON response
  (\<open>c.JSON(code, map)\<close>) or returns an error that the framework turns into a response
  (\<open>echo.NewHTTPError\<close>); both are values of \<open>response\<close>. The path parameter and the result
  of \<open>c.Bind\<close>, which the framework computes, are arguments.
\<close>

section \<open>Responses\<close>

datatype goval = GInt int64 | GFloat float64 | GStr string | GTime gotime

datatype response =
    RespJSON nat "string \<rightharpoonup> goval"
  | RespErr nat string

definition error_json :: "nat \<Rightarrow> string \<Rightarrow> response" where
  "error_json code msg = RespJSON code [''error'' \<mapsto> GStr msg]"

fun code_of :: "response \<Rightarrow> nat" where
  "code_of (RespJSON c _) = c"
| "code_of (RespErr c _) = c"

section \<open>The handlers\<close>

definition account_body :: "Account \<Rightarrow> (string \<rightharpoonup> goval)" where
  "account_body a = [''id'' \<mapsto> GInt (acc_ID a), ''name'' \<mapsto> GStr (acc_Name a),
     ''balance'' \<mapsto> GFloat (acc_Balance a), ''updated_at'' \<mapsto> GTime (acc_UpdatedAt a)]"

definition handle_GetBalance ::
  "('r, 'b) accountService \<Rightarrow> string \<Rightarrow> ('r, 'b) world \<Rightarrow> response \<times> ('r, 'b) world" where
  "handle_GetBalance svc idStr w =
     (case ParseInt idStr of
        None \<Rightarrow> (error_json 400 ''invalid account id'', w)
      | Some i \<Rightarrow>
          (case GetBalance svc i w of
             (Inl _, w') \<Rightarrow> (error_json 404 ''account not found'', w')
           | (Inr acc, w') \<Rightarrow> (RespJSON 200 (account_body acc), w')))"

definition transaction_body :: "Transaction \<Rightarrow> (string \<rightharpoonup> goval)" where
  "transaction_body t = [''id'' \<mapsto> GStr (tx_ID t), ''source_account'' \<mapsto> GInt (tx_SourceAccount t),
     ''dest_account'' \<mapsto> GInt (tx_DestAccount t), ''amount'' \<mapsto> GFloat (tx_Amount t),
     ''status'' \<mapsto> GStr (tx_Status t), ''created_at'' \<mapsto> GTime (tx_CreatedAt t)]"

definition req_input :: "CreateTransactionReq \<Rightarrow> CreateTransactionInput" where
  "req_input req = \<lparr>in_SourceAccount = req_SourceAccount req, in_DestAccount = req_DestAccount req,
     in_Amount = req_Amount req\<rparr>"

definition handle_CreateTransaction ::
  "('r, 'b) transactionService \<Rightarrow> req_env \<Rightarrow> err + CreateTransactionReq \<Rightarrow> ('r, 'b) world \<Rightarrow>
   response \<times> ('r, 'b) world" where
  "handle_CreateTransaction svc e bound w =
     (case bound of
        Inl _ \<Rightarrow> (error_json 400 ''invalid request body'', w)
      | Inr req \<Rightarrow>
          if req_SourceAccount req = 0 \<or> req_DestAccount req = 0
          then (error_json 400 ''source_account and dest_account are required'', w)
          else if req_Amount req \<le> 0 then (error_json 400 ''amount must be greater than 0'', w)
          else
            (case CreateTransaction svc e (req_input req) w of
               (Inl x, w') \<Rightarrow>
                 (if errors_Is x ErrInsufficientFunds then RespErr 422 ''insufficient funds''
                  else if errors_Is x ErrAccountNotFound then RespErr 422 ''account not found''
                  else error_json 500 ''failed to save transaction'', w')
             | (Inr t, w') \<Rightarrow>
                 (RespJSON (if tx_Status t = StatusPending then 202 else 201) (transaction_body t), w')))"

definition handle_GetTransactionStatus ::
  "('r, 'b) transactionService \<Rightarrow> string \<Rightarrow> ('r, 'b) world \<Rightarrow> response \<times> ('r, 'b) world" where
  "handle_GetTransactionStatus svc k w =
     (if k = '''' then (error_json 400 ''id is required'', w)
      else case GetTransactionStatus svc k w of
             (Inl _, w') \<Rightarrow> (error_json 404 ''transaction not found'', w')
           | (Inr t, w') \<Rightarrow> (RespJSON 200 (transaction_body t), w'))"

section \<open>What reaches the service\<close>

definition valid_req :: "CreateTransactionReq \<Rightarrow> bool" where
  "valid_req req \<longleftrightarrow> req_SourceAccount req \<noteq> 0 \<and> req_DestAccount req \<noteq> 0 \<and> 0 < req_Amount req"

lemma handle_valid:
  "valid_req req \<Longrightarrow> handle_CreateTransaction svc e (Inr req) w =
     (case CreateTransaction svc e (req_input req) w of
        (Inl x, w') \<Rightarrow>
          (if errors_Is x ErrInsufficientFunds then RespErr 422 ''insufficient funds''
           else if errors_Is x ErrAccountNotFound then RespErr 422 ''account not found''
           else error_json 500 ''failed to save transaction'', w')
      | (Inr t, w') \<Rightarrow> (RespJSON (if tx_Status t = StatusPending then 202 else 201) (transaction_body t), w'))"
  by (auto simp: handle_CreateTransaction_def valid_req_def)


definition req0 :: CreateTransactionReq where
  "req0 = \<lparr>req_SourceAccount = 1001, req_DestAccount = 1002, req_Amount = 50\<rparr>"

definition env0 :: req_env where
  "env0 = \<lparr>re_db = call0, re_now = 1, re_nano = 9\<rparr>"


section \<open>From the request to the database\<close>

lemma CreateTransaction_sync:
  assumes "ts_queue s = None" "ts_db s = Some conn"
  obtains w2 where "db_of conn w2 = db_of conn w" "kv w2 = kv w"
    "\<And>res w3. createSync s (re_db e) conn
        (new_transaction (txn_id (next_value (re_nano e) (txCounter w))) inp (re_now e)) w2 = (res, w3) \<Longrightarrow>
      \<exists>w4. CreateTransaction s e inp w = (res, w4) \<and> db_of conn w4 = db_of conn w3 \<and> kv w4 = kv w3"
proof (rule that)
  let ?w2 = "(log_set ''amount'' (LFloat (in_Amount inp))
      (log_set ''dest_account'' (LInt (in_DestAccount inp))
        (log_set ''source_account'' (LInt (in_SourceAccount inp)) w)))
      \<lparr>txCounter := next_value (re_nano e) (txCounter w)\<rparr>"
  show "db_of conn ?w2 = db_of conn w" by (cases conn) simp_all
  show "kv ?w2 = kv w" by simp
  fix res w3
  assume "createSync s (re_db e) conn
        (new_transaction (txn_id (next_value (re_nano e) (txCounter w))) inp (re_now e)) ?w2 = (res, w3)"
  then show "\<exists>w4. CreateTransaction s e inp w = (res, w4) \<and> db_of conn w4 = db_of conn w3 \<and> kv w4 = kv w3"
    by (simp add: CreateTransaction_def assms nextTransactionID_def Let_def split: sum.splits)
qed

text \<open>
  C6. A payment request on the synchronous path, from the HTTP request to the rows: for a
  valid request of a whole number of cents below \<open>exact_cents\<close>, which the driver writes exactly, and
  a database without faults that satisfies its schema and whose column has room for the
  credited balance, the answer is 201
  exactly when the abstract \<open>transfer\<close> is defined, and the balances are its result; otherwise
  the answer is 422 and neither the database nor the cache changed.
\<close>

theorem post_payment_sync:
  assumes s: "ts_queue s = None" "ts_db s = Some conn"
    and flt: "\<And>st. fault (dc_orc (re_db e)) st = None"
    and c: "sql_num (dc_drv (re_db e)) (req_Amount req) = numeric_val c" "req_Amount req = scan_float c"
      "0 < c" "c < exact_cents"
    and ids: "req_SourceAccount req \<noteq> 0" "req_DestAccount req \<noteq> 0"
    and ok: "db_ok (db_of conn w)"
    and room: "\<And>b. balance_of (db_of conn w) (req_DestAccount req) = Some b \<Longrightarrow> b + c < 10 ^ 18"
  shows "case transfer (req_SourceAccount req) (req_DestAccount req) c (balance_of (db_of conn w)) of
      Some L \<Rightarrow> \<exists>body w'. handle_CreateTransaction s e (Inr req) w = (RespJSON 201 body, w') \<and>
                  balance_of (db_of conn w') = L
    | None \<Rightarrow> \<exists>msg w'. handle_CreateTransaction s e (Inr req) w = (RespErr 422 msg, w') \<and>
                  db_of conn w' = db_of conn w \<and> kv w' = kv w"
proof -
  let ?tx = "new_transaction (txn_id (next_value (re_nano e) (txCounter w))) (req_input req) (re_now e)"
  obtain w2 where w2: "db_of conn w2 = db_of conn w" "kv w2 = kv w"
    and run: "\<And>res w3. createSync s (re_db e) conn ?tx w2 = (res, w3) \<Longrightarrow>
       \<exists>w4. CreateTransaction s e (req_input req) w = (res, w4) \<and> db_of conn w4 = db_of conn w3 \<and> kv w4 = kv w3"
    using CreateTransaction_sync [OF s, of w e "req_input req"] by metis
  have v: "valid_req req" using ids c scan_float_pos by (simp add: valid_req_def)
  have sel: "tx_SourceAccount ?tx = req_SourceAccount req" "tx_DestAccount ?tx = req_DestAccount req"
    "tx_Amount ?tx = req_Amount req" "tx_ID ?tx = txn_id (next_value (re_nano e) (txCounter w))"
    by (simp_all add: new_transaction_def req_input_def)
  have ref: "case transfer (req_SourceAccount req) (req_DestAccount req) c (balance_of (db_of conn w)) of
      Some L \<Rightarrow> \<exists>d'. sync_body (re_db e) ?tx (db_of conn w) = Inr d' \<and> balance_of d' = L
    | None \<Rightarrow> sync_body (re_db e) ?tx (db_of conn w) = Inl ErrAccountNotFound \<or>
        sync_body (re_db e) ?tx (db_of conn w) = Inl ErrInsufficientFunds"
    using sync_body_refines [of "re_db e" ?tx c "db_of conn w"] flt c ok room by (simp add: sel length_txn_id)
  show ?thesis
  proof (cases "transfer (req_SourceAccount req) (req_DestAccount req) c (balance_of (db_of conn w))")
    case None
    with ref obtain x where x: "x = ErrAccountNotFound \<or> x = ErrInsufficientFunds"
      "sync_body (re_db e) ?tx (db_of conn w2) = Inl x" by (auto simp: w2)
    from run [OF createSync_body_Inl [OF x(2)]] w2 x(1) None show ?thesis
      by (auto simp: handle_valid [OF v])
  next
    case (Some L)
    with ref obtain d' where d': "sync_body (re_db e) ?tx (db_of conn w2) = Inr d'" "balance_of d' = L" by (auto simp: w2)
    from createSync_done [OF d'(1) flt] obtain w3
      where w3: "createSync s (re_db e) conn ?tx w2 = (Inr (?tx\<lparr>tx_Status := StatusCompleted\<rparr>), w3)" "db_of conn w3 = d'" by blast
    from run [OF w3(1)] w3(2) d'(2) Some show ?thesis
      by (auto simp: handle_valid [OF v] StatusCompleted_def StatusPending_def)
  qed
qed

theorem post_payment_sync_witness:
  "\<exists>body w'. handle_CreateTransaction sync_svc env0 (Inr req0) world0 = (RespJSON 201 body, w') \<and>
     balance_of (primary w') = [1001 \<mapsto> 5000, 1002 \<mapsto> 5500]"
proof -
  have t: "transfer 1001 1002 5000 [1001 \<mapsto> 10000, 1002 \<mapsto> 500] = Some [1001 \<mapsto> 5000, 1002 \<mapsto> 5500]"
    by (simp add: transfer_def fun_eq_iff)
  have "case transfer (req_SourceAccount req0) (req_DestAccount req0) 5000 (balance_of (db_of PrimaryDB world0)) of
      Some L \<Rightarrow> \<exists>body w'. handle_CreateTransaction sync_svc env0 (Inr req0) world0 = (RespJSON 201 body, w') \<and>
                  balance_of (db_of PrimaryDB w') = L
    | None \<Rightarrow> \<exists>msg w'. handle_CreateTransaction sync_svc env0 (Inr req0) world0 = (RespErr 422 msg, w') \<and>
                  db_of PrimaryDB w' = db_of PrimaryDB world0 \<and> kv w' = kv world0"
    by (rule post_payment_sync) (simp_all add: sync_svc_def env0_def req0_def sample_ok)
  with t show ?thesis by (simp add: req0_def)
qed

text \<open>
  C30. A balance request answers with the row: when every readable cache entry agrees with the
  repository and its read does not fail, asking for the decimal text of any identifier gives
  200 with exactly the fields \<open>id\<close>, \<open>name\<close>, \<open>balance\<close> and \<open>updated_at\<close>, which are the identifier and
  the name, the balance as a float and the time of the account's row, and 404 when there is no
  such row.
\<close>

theorem get_balance_answers_row:
  assumes "balance_coherent cl (pg_account_repo orc r) w" and "fault orc RepoGet = None"
  shows "fst (handle_GetBalance (NewAccountService (pg_account_repo orc r) (Some cl) ttl) (fmt_d (sint i)) w) =
    (case accounts (db_of (pg_replica r) w) i of
       None \<Rightarrow> RespJSON 404 [''error'' \<mapsto> GStr ''account not found'']
     | Some row \<Rightarrow> RespJSON 200 [''id'' \<mapsto> GInt i, ''name'' \<mapsto> GStr (row_name row),
         ''balance'' \<mapsto> GFloat (scan_float (row_balance row)), ''updated_at'' \<mapsto> GTime (row_updated_at row)])"
proof -
  have "fst (GetBalance (NewAccountService (pg_account_repo orc r) (Some cl) ttl) i w) = pg_account_GetByID orc r w i"
    using pg_acct.GetBalance_coherent [OF assms(1)] by (simp add: NewAccountService_def pg_account_repo_def)
  with assms(2) show ?thesis
    by (cases "GetBalance (NewAccountService (pg_account_repo orc r) (Some cl) ttl) i w")
       (auto simp: handle_GetBalance_def ParseInt_fmt_d pg_account_GetByID_def select_account_def account_body_def
         error_json_def split: option.splits)
qed

theorem get_balance_answers_row_witness:
  "fst (handle_GetBalance (NewAccountService (pg_account_repo orc0 (pg_NewAccountRepository PrimaryDB None))
        (Some ks_client) (10 * second)) (fmt_d (sint (1002 :: int64))) world0)
    = RespJSON 200 [''id'' \<mapsto> GInt 1002, ''name'' \<mapsto> GStr ''B'', ''balance'' \<mapsto> GFloat 5, ''updated_at'' \<mapsto> GTime 0]"
proof -
  have row: "accounts (db_of (pg_replica (pg_NewAccountRepository PrimaryDB None)) world0) 1002 =
      Some \<lparr>row_name = ''B'', row_balance = 500, row_updated_at = 0\<rparr>"
    by (simp add: pg_NewAccountRepository_def db0_def)
  show ?thesis
    using get_balance_answers_row [OF empty_store_coherent, of orc0 "pg_NewAccountRepository PrimaryDB None" "10 * second" 1002]
    unfolding row by simp
qed

text \<open>
  An unreachable database reads as a missing account: on a cache miss every error of the
  repository, a lost connection included, is answered 404, though the account may exist.
\<close>

theorem outage_answers_404:
  assumes "cached_account (as_redis svc) i (kv w) = None" and "as_repo svc = pg_account_repo orc r"
    and "fault orc RepoGet = Some x"
  shows "fst (handle_GetBalance svc (fmt_d (sint i)) w) = error_json 404 ''account not found''"
proof -
  have "\<exists>y. fst (GetBalance svc i w) = Inl y"
    using assms by (auto simp: GetBalance_def Let_def pg_account_repo_def pg_account_GetByID_def query_row_def
        split: option.splits)
  then show ?thesis
    by (cases "GetBalance svc i w") (auto simp: handle_GetBalance_def ParseInt_fmt_d)
qed

theorem outage_answers_404_witness:
  "fst (handle_GetBalance (NewAccountService (pg_account_repo (orc0\<lparr>fault := (\<lambda>_. Some (ErrExt ''connection refused''))\<rparr>)
        (pg_NewAccountRepository PrimaryDB None)) None 0) (fmt_d (sint (1002 :: int64))) world0)
     = error_json 404 ''account not found'' \<and> select_account (primary world0) 1002 \<noteq> None"
proof -
  have "select_account (primary world0) 1002 \<noteq> None" by (simp add: select_account_def db0_def)
  with outage_answers_404 [of "NewAccountService (pg_account_repo (orc0\<lparr>fault := (\<lambda>_. Some (ErrExt ''connection refused''))\<rparr>)
        (pg_NewAccountRepository PrimaryDB None)) None 0" 1002 world0]
  show ?thesis by (simp add: NewAccountService_def cached_account_def)
qed

end
