(* ===== verification/Middleware.thy ===== *)
theory Middleware
  imports Config Handlers
begin

text \<open>
  The two middlewares of \<open>internal/middleware\<close>: the request log (\<open>log.go\<close>) and the circuit breaker (\<open>circuit_breaker.go\<close>). The breaker's state machine
  is the library gobreaker: its \<open>Execute\<close> is an argument, and the locale \<open>gobreaker\<close> states
  the documented behaviour that the code relies on.
\<close>

section \<open>Handlers and their context\<close>

datatype herr =
    HTTPError nat string
  | ErrOpenState
  | ErrTooManyRequests

text \<open>
  One request: the shared state, the request line, the request identifier of the response
  header, the status of the response writer (\<open>None\<close> when \<open>UnwrapResponse\<close> fails), what was
  written to it, and the logger.
\<close>

record ('r, 'b) http_ctx =
  cx_world :: "('r, 'b) world"
  cx_method :: string
  cx_path :: string
  cx_request_id :: string
  cx_status :: "nat option"
  cx_body :: "(string \<rightharpoonup> goval) option"
  cx_log :: slogger

type_synonym ('r, 'b) http_handler = "('r, 'b) http_ctx \<Rightarrow> herr option \<times> ('r, 'b) http_ctx"

definition write_json :: "nat \<Rightarrow> (string \<rightharpoonup> goval) \<Rightarrow> ('r, 'b) http_ctx \<Rightarrow> ('r, 'b) http_ctx" where
  "write_json code body c = c\<lparr>cx_status := map_option (\<lambda>_. code) (cx_status c), cx_body := Some body\<rparr>"

text \<open>A handler of the previous theory as the framework runs it.\<close>

definition run_handler :: "(('r, 'b) world \<Rightarrow> response \<times> ('r, 'b) world) \<Rightarrow> ('r, 'b) http_handler" where
  "run_handler h c =
     (case h (cx_world c) of
        (RespJSON code body, w) \<Rightarrow> (None, write_json code body (c\<lparr>cx_world := w\<rparr>))
      | (RespErr code msg, w) \<Rightarrow> (Some (HTTPError code msg), c\<lparr>cx_world := w\<rparr>))"

section \<open>The request log\<close>

text \<open>
  \<open>elapsed\<close> is \<open>time.Since(start)\<close>; \<open>Milliseconds\<close> truncates it. \<open>etext\<close> is the \<open>Error\<close> method of the
  errors of the framework and of the breaker, which are not part of the program.
\<close>

definition final_event :: "(herr \<Rightarrow> string) \<Rightarrow> herr option \<Rightarrow> duration \<Rightarrow> ('r, 'b) http_ctx \<Rightarrow> wide_event \<Rightarrow> wide_event" where
  "final_event etext x elapsed c e0 =
     (let e1 = (case cx_status c of None \<Rightarrow> e0 | Some st \<Rightarrow> e0(''status'' \<mapsto> LInt (of_nat st)));
          e2 = e1(''request_id'' \<mapsto> LStr (cx_request_id c), ''duration_ms'' \<mapsto> LMillis (elapsed div 1000000))
      in case x of None \<Rightarrow> e2 | Some err \<Rightarrow> e2(''error'' \<mapsto> LStr (etext err)))"

definition RequestLogger ::
  "(herr \<Rightarrow> string) \<Rightarrow> (wide_event \<Rightarrow> string list) \<Rightarrow> duration \<Rightarrow> ('r, 'b) http_handler \<Rightarrow> ('r, 'b) http_handler" where
  "RequestLogger etext order elapsed nxt c =
     (let e = NewEvent(''method'' \<mapsto> LStr (cx_method c), ''path'' \<mapsto> LStr (cx_path c));
          c1 = c\<lparr>cx_world := (cx_world c)\<lparr>event := WithEvent (event (cx_world c)) e\<rparr>\<rparr>;
          (x, c2) = nxt c1;
          e2 = final_event etext x elapsed c2 (case event (cx_world c2) of None \<Rightarrow> e | Some e' \<Rightarrow> e')
      in (x, c2\<lparr>cx_world := (cx_world c2)\<lparr>event := Some e2\<rparr>, cx_log := Emit order e2 (cx_log c2)\<rparr>))"

section \<open>The circuit breaker\<close>

datatype cb_state = StateClosed | StateHalfOpen | StateOpen

definition circuitBreakerStateValue :: "cb_state \<Rightarrow> float64" where
  "circuitBreakerStateValue s = (case s of StateOpen \<Rightarrow> 1 | StateHalfOpen \<Rightarrow> 2 | _ \<Rightarrow> 0)"

record cb_gauges =
  CircuitBreakerOpen :: float64
  CircuitBreakerState :: "string \<Rightarrow> float64"

record cb_settings =
  set_Name :: string
  set_MaxRequests :: nat
  set_Interval :: duration
  set_Timeout :: duration
  set_ReadyToTrip :: "32 word \<Rightarrow> bool"
  set_OnStateChange :: "cb_state \<Rightarrow> cb_state \<Rightarrow> cb_gauges \<Rightarrow> cb_gauges"

definition onStateChange :: "cb_state \<Rightarrow> cb_state \<Rightarrow> cb_gauges \<Rightarrow> cb_gauges" where
  "onStateChange from to g =
     (let g1 = g\<lparr>CircuitBreakerState := (CircuitBreakerState g)(''api'' := circuitBreakerStateValue to)\<rparr>
      in if to = StateOpen then g1\<lparr>CircuitBreakerOpen := 1\<rparr> else g1\<lparr>CircuitBreakerOpen := 0\<rparr>)"

definition breaker_settings :: "Config \<Rightarrow> cb_settings" where
  "breaker_settings cfg = \<lparr>
     set_Name = ''api'', set_MaxRequests = 1, set_Interval = 0,
     set_Timeout = sint (CBTimeoutSeconds cfg * word_of_int second),
     set_ReadyToTrip = (\<lambda>n. int (unat n) \<ge> sint (CBMaxFailures cfg)),
     set_OnStateChange = onStateChange\<rparr>"

definition breaker_gauges :: "cb_gauges \<Rightarrow> cb_gauges" where
  "breaker_gauges g = g\<lparr>CircuitBreakerState := (CircuitBreakerState g)(''api'' := circuitBreakerStateValue StateClosed),
     CircuitBreakerOpen := 0\<rparr>"

text \<open>\<open>http.StatusText\<close> for the server errors.\<close>

definition StatusText :: "nat \<Rightarrow> string" where
  "StatusText code =
     (case map_of [(500, ''Internal Server Error''), (501, ''Not Implemented''), (502, ''Bad Gateway''),
        (503, ''Service Unavailable''), (504, ''Gateway Timeout''), (505, ''HTTP Version Not Supported''),
        (506, ''Variant Also Negotiates''), (507, ''Insufficient Storage''), (508, ''Loop Detected''),
        (510, ''Not Extended''), (511, ''Network Authentication Required'')] code of
        None \<Rightarrow> '''' | Some s \<Rightarrow> s)"

text \<open>The function the breaker executes: the handler's error, or a server error it wrote.\<close>

definition guarded :: "('r, 'b) http_handler \<Rightarrow> ('r, 'b) http_handler" where
  "guarded nxt c =
     (case nxt c of
        (Some x, c') \<Rightarrow> (Some x, c')
      | (None, c') \<Rightarrow>
          (case cx_status c' of
             Some st \<Rightarrow> if st \<ge> 500 then (Some (HTTPError st (StatusText st)), c') else (None, c')
           | None \<Rightarrow> (None, c')))"

text \<open>\<open>(*CircuitBreaker).Execute\<close> on a breaker of type \<open>'k\<close>, with the gauges its callback sets.\<close>

type_synonym ('k, 'r, 'b) cb_execute =
  "'k \<Rightarrow> ('r, 'b) http_handler \<Rightarrow> ('r, 'b) http_ctx \<Rightarrow> cb_gauges \<Rightarrow>
   (herr option \<times> ('r, 'b) http_ctx) \<times> 'k \<times> cb_gauges"

definition CircuitBreaker ::
  "Config \<Rightarrow> (cb_settings \<Rightarrow> ('k, 'r, 'b) cb_execute) \<Rightarrow> ('r, 'b) http_handler \<Rightarrow> ('r, 'b) http_ctx \<Rightarrow>
   'k \<times> cb_gauges \<Rightarrow> (herr option \<times> ('r, 'b) http_ctx) \<times> 'k \<times> cb_gauges" where
  "CircuitBreaker cfg exec nxt c kg =
     (if \<not> CircuitBreakerEnabled cfg then (nxt c, kg)
      else case exec (breaker_settings cfg) (fst kg) (guarded nxt) c (snd kg) of
             ((x, c'), kg') \<Rightarrow>
               if x = Some ErrOpenState \<or> x = Some ErrTooManyRequests
               then ((None, write_json 503 [''error'' \<mapsto> GStr ''circuit open, try again later''] c'), kg')
               else ((x, c'), kg'))"

end
