(* ===== verification/QueueClient.thy ===== *)
theory QueueClient
  imports World
begin

text \<open>
  The RabbitMQ client, \<open>internal/infrastructure/queue/queue.go\<close>: one connection and one
  channel, opened by \<open>dial\<close>, reopened by \<open>getChannel\<close> and used by \<open>Publish\<close>, \<open>Consume\<close> and
  \<open>QueueDepth\<close>. The AMQP library is outside the repository: its calls are the fields of
  \<open>amqp\<close>, functions of the broker's state, over unknown types of connections and channels.
  The methods run under the client's mutex, so each is one step.
\<close>

section \<open>The library's calls\<close>

text \<open>The arguments of \<open>QueueDeclare\<close> after the name, and a \<open>Publishing\<close>.\<close>

record queue_opts =
  q_durable :: bool
  q_autoDelete :: bool
  q_exclusive :: bool
  q_noWait :: bool
  q_args :: "(string \<times> string) list"

record publishing =
  p_ContentType :: string
  p_Body :: json
  p_Persistent :: bool

record consume_opts =
  c_consumer :: string
  c_autoAck :: bool
  c_exclusive :: bool
  c_noLocal :: bool
  c_noWait :: bool

record ('b, 'n, 'c, 'd) amqp =
  amqp_Dial :: "'b \<Rightarrow> string \<Rightarrow> (err + 'n) \<times> 'b"
  conn_Channel :: "'b \<Rightarrow> 'n \<Rightarrow> (err + 'c) \<times> 'b"
  conn_IsClosed :: "'b \<Rightarrow> 'n \<Rightarrow> bool"
  conn_Close :: "'b \<Rightarrow> 'n \<Rightarrow> 'b"
  ch_Close :: "'b \<Rightarrow> 'c \<Rightarrow> 'b"
  ch_QueueDeclare :: "'b \<Rightarrow> 'c \<Rightarrow> string \<Rightarrow> queue_opts \<Rightarrow> err option \<times> 'b"
  ch_Publish :: "'b \<Rightarrow> 'c \<Rightarrow> string \<Rightarrow> string \<Rightarrow> bool \<Rightarrow> bool \<Rightarrow> publishing \<Rightarrow> err option \<times> 'b"
  ch_Consume :: "'b \<Rightarrow> 'c \<Rightarrow> string \<Rightarrow> consume_opts \<Rightarrow> (err + 'd) \<times> 'b"
  ch_QueueInspect :: "'b \<Rightarrow> 'c \<Rightarrow> string \<Rightarrow> (err + int64) \<times> 'b"

section \<open>The client\<close>

record ('n, 'c) queue_client =
  qc_url :: string
  qc_conn :: "'n option"
  qc_channel :: "'c option"

text \<open>The mutable state of the client together with the broker behind it.\<close>

type_synonym ('b, 'n, 'c) queue_state = "('n, 'c) queue_client \<times> 'b"

definition dlq_opts :: queue_opts where
  "dlq_opts = \<lparr>q_durable = True, q_autoDelete = False, q_exclusive = False, q_noWait = False, q_args = []\<rparr>"

definition tx_opts :: queue_opts where
  "tx_opts = dlq_opts\<lparr>q_args := [(''x-dead-letter-exchange'', ''''),
     (''x-dead-letter-routing-key'', ''transactions.dlq'')]\<rparr>"

definition declareQueues :: "('b, 'n, 'c, 'd) amqp \<Rightarrow> 'c \<Rightarrow> 'b \<Rightarrow> err option \<times> 'b" where
  "declareQueues a ch b =
     (case ch_QueueDeclare a b ch ''transactions.dlq'' dlq_opts of
        (Some x, b1) \<Rightarrow> (Some (ErrWrap ''declare dlq'' x), b1)
      | (None, b1) \<Rightarrow>
          (case ch_QueueDeclare a b1 ch ''transactions'' tx_opts of
             (Some x, b2) \<Rightarrow> (Some (ErrWrap ''declare transactions queue'' x), b2)
           | (None, b2) \<Rightarrow> (None, b2)))"

definition dial :: "('b, 'n, 'c, 'd) amqp \<Rightarrow> ('b, 'n, 'c) queue_state \<Rightarrow> err option \<times> ('b, 'n, 'c) queue_state" where
  "dial a st =
     (let (c, b) = st
      in case amqp_Dial a b (qc_url c) of
           (Inl x, b1) \<Rightarrow> (Some (ErrWrap ''amqp dial'' x), c, b1)
         | (Inr conn, b1) \<Rightarrow>
             (case conn_Channel a b1 conn of
                (Inl x, b2) \<Rightarrow> (Some (ErrWrap ''open channel'' x), c, conn_Close a b2 conn)
              | (Inr ch, b2) \<Rightarrow>
                  (case declareQueues a ch b2 of
                     (Some x, b3) \<Rightarrow> (Some x, c, conn_Close a (ch_Close a b3 ch) conn)
                   | (None, b3) \<Rightarrow> (None, c\<lparr>qc_conn := Some conn, qc_channel := Some ch\<rparr>, b3))))"

definition queue_New :: "('b, 'n, 'c, 'd) amqp \<Rightarrow> string \<Rightarrow> 'b \<Rightarrow> (err + ('n, 'c) queue_client) \<times> 'b" where
  "queue_New a url b =
     (case dial a (\<lparr>qc_url = url, qc_conn = None, qc_channel = None\<rparr>, b) of
        (Some x, _, b') \<Rightarrow> (Inl x, b')
      | (None, c, b') \<Rightarrow> (Inr c, b'))"

text \<open>\<open>c.conn != nil && !c.conn.IsClosed() && c.channel != nil\<close>\<close>

definition conn_live :: "('b, 'n, 'c, 'd) amqp \<Rightarrow> ('b, 'n, 'c) queue_state \<Rightarrow> bool" where
  "conn_live a st \<longleftrightarrow>
     (case qc_conn (fst st) of None \<Rightarrow> False | Some conn \<Rightarrow> \<not> conn_IsClosed a (snd st) conn) \<and>
     qc_channel (fst st) \<noteq> None"

definition getChannel ::
  "('b, 'n, 'c, 'd) amqp \<Rightarrow> ('b, 'n, 'c) queue_state \<Rightarrow> (err + 'c) \<times> ('b, 'n, 'c) queue_state" where
  "getChannel a st =
     (if conn_live a st then (Inr (the (qc_channel (fst st))), st)
      else case dial a st of
             (Some x, st') \<Rightarrow> (Inl (ErrWrap ''reconnect'' x), st')
           | (None, st') \<Rightarrow> (Inr (the (qc_channel (fst st'))), st'))"

definition queue_Close :: "('b, 'n, 'c, 'd) amqp \<Rightarrow> ('b, 'n, 'c) queue_state \<Rightarrow> ('b, 'n, 'c) queue_state" where
  "queue_Close a st =
     (let (c, b) = st;
          b1 = (case qc_channel c of None \<Rightarrow> b | Some ch \<Rightarrow> ch_Close a b ch)
      in (c, case qc_conn c of None \<Rightarrow> b1 | Some conn \<Rightarrow> conn_Close a b1 conn))"

definition Publish :: "('b, 'n, 'c, 'd) amqp \<Rightarrow> ('b, 'n, 'c) queue_state publisher" where
  "Publish a st queue body =
     (case getChannel a st of
        (Inl x, st') \<Rightarrow> (Some x, st')
      | (Inr ch, c, b) \<Rightarrow>
          (case ch_Publish a b ch '''' queue False False
                  \<lparr>p_ContentType = ''application/json'', p_Body = body, p_Persistent = True\<rparr> of
             (x, b') \<Rightarrow> (x, c, b')))"

definition Consume ::
  "('b, 'n, 'c, 'd) amqp \<Rightarrow> ('b, 'n, 'c) queue_state \<Rightarrow> string \<Rightarrow> (err + 'd) \<times> ('b, 'n, 'c) queue_state" where
  "Consume a st queue =
     (case getChannel a st of
        (Inl x, st') \<Rightarrow> (Inl x, st')
      | (Inr ch, c, b) \<Rightarrow>
          (case ch_Consume a b ch queue
                  \<lparr>c_consumer = '''', c_autoAck = False, c_exclusive = False, c_noLocal = False, c_noWait = False\<rparr> of
             (r, b') \<Rightarrow> (r, c, b')))"

definition QueueDepth ::
  "('b, 'n, 'c, 'd) amqp \<Rightarrow> ('b, 'n, 'c) queue_state \<Rightarrow> string \<Rightarrow> (err + int64) \<times> ('b, 'n, 'c) queue_state" where
  "QueueDepth a st queue =
     (case getChannel a st of
        (Inl x, st') \<Rightarrow> (Inl x, st')
      | (Inr ch, c, b) \<Rightarrow>
          (case ch_QueueInspect a b ch queue of
             (Inl x, b') \<Rightarrow> (Inl (ErrWrap (''inspect queue '' @ queue) x), c, b')
           | (Inr n, b') \<Rightarrow> (Inr n, c, b')))"

section \<open>Connections\<close>

text \<open>
  What the client relies on about connections: \<open>Dial\<close> opens at most the connection it
  returns, every other call can only lose connections (the peer or the network may drop one
  at any time), \<open>Close\<close> ends a connection, and \<open>IsClosed\<close> says whether one is open.
\<close>

locale amqp_conns =
  fixes a :: "('b, 'n, 'c, 'd) amqp"
    and conns :: "'b \<Rightarrow> 'n set"
  assumes dial_ok: "amqp_Dial a b url = (Inr n, b') \<Longrightarrow> conns b' \<subseteq> insert n (conns b)"
    and dial_err: "amqp_Dial a b url = (Inl x, b') \<Longrightarrow> conns b' \<subseteq> conns b"
    and channel_conns: "conns (snd (conn_Channel a b n)) \<subseteq> conns b"
    and closed_iff: "conn_IsClosed a b n \<longleftrightarrow> n \<notin> conns b"
    and close_conns: "conns (conn_Close a b n) \<subseteq> conns b - {n}"
    and ch_close_conns: "conns (ch_Close a b ch) \<subseteq> conns b"
    and declare_conns: "conns (snd (ch_QueueDeclare a b ch q opts)) \<subseteq> conns b"
    and publish_conns: "conns (snd (ch_Publish a b ch ex q m i p)) \<subseteq> conns b"
    and consume_conns: "conns (snd (ch_Consume a b ch q copts)) \<subseteq> conns b"
    and inspect_conns: "conns (snd (ch_QueueInspect a b ch q)) \<subseteq> conns b"

text \<open>A state change that only loses connections: what happens to the broker between calls.\<close>

definition conns_lost :: "('b \<Rightarrow> 'n set) \<Rightarrow> 'b \<Rightarrow> 'b \<Rightarrow> bool" where
  "conns_lost conns b b' \<longleftrightarrow> conns b' \<subseteq> conns b"

inductive queue_reach ::
  "('b, 'n, 'c, 'd) amqp \<Rightarrow> ('b \<Rightarrow> 'n set) \<Rightarrow> string \<Rightarrow> ('b, 'n, 'c) queue_state \<Rightarrow> bool"
  for a conns url where
  opened: "conns b = {} \<Longrightarrow> queue_New a url b = (Inr c, b') \<Longrightarrow> queue_reach a conns url (c, b')"
| published: "queue_reach a conns url st \<Longrightarrow> queue_reach a conns url (snd (Publish a st q body))"
| consumed: "queue_reach a conns url st \<Longrightarrow> queue_reach a conns url (snd (Consume a st q))"
| inspected: "queue_reach a conns url st \<Longrightarrow> queue_reach a conns url (snd (QueueDepth a st q))"
| released: "queue_reach a conns url st \<Longrightarrow> queue_reach a conns url (queue_Close a st)"
| dropped: "queue_reach a conns url (c, b) \<Longrightarrow> conns_lost conns b b' \<Longrightarrow> queue_reach a conns url (c, b')"

text \<open>The invariant: connection and channel are set together and no other connection is open.\<close>

definition client_ok :: "('b \<Rightarrow> 'n set) \<Rightarrow> string \<Rightarrow> ('b, 'n, 'c) queue_state \<Rightarrow> bool" where
  "client_ok conns url st \<longleftrightarrow>
     qc_url (fst st) = url \<and> qc_channel (fst st) \<noteq> None \<and>
     (\<exists>n. qc_conn (fst st) = Some n \<and> conns (snd st) \<subseteq> {n})"

context amqp_conns
begin

lemma declareQueues_conns: "declareQueues a ch b = (r, b') \<Longrightarrow> conns b' \<subseteq> conns b"
  using declare_conns [of b ch "''transactions.dlq''" dlq_opts]
    declare_conns [of "snd (ch_QueueDeclare a b ch ''transactions.dlq'' dlq_opts)" ch "''transactions''" tx_opts]
  by (auto simp: declareQueues_def split: prod.splits option.splits)

text \<open>A failed \<open>dial\<close> leaves the client as it was and no connection behind.\<close>

lemma dial_failed:
  assumes "dial a (c, b) = (Some x, c', b')"
  shows "c' = c \<and> conns b' \<subseteq> conns b"
proof -
  consider "amqp_Dial a b (qc_url c) = (Inl (case x of ErrWrap _ y \<Rightarrow> y), b')" "c' = c"
    | conn b1 y b2 where "amqp_Dial a b (qc_url c) = (Inr conn, b1)" "conn_Channel a b1 conn = (Inl y, b2)"
        "b' = conn_Close a b2 conn" "c' = c"
    | conn b1 ch b2 b3 where "amqp_Dial a b (qc_url c) = (Inr conn, b1)" "conn_Channel a b1 conn = (Inr ch, b2)"
        "declareQueues a ch b2 = (Some x, b3)" "b' = conn_Close a (ch_Close a b3 ch) conn" "c' = c"
    using assms by (auto simp: dial_def split: prod.splits sum.splits option.splits)
  then show ?thesis
  proof cases
    case 1
    then show ?thesis using dial_err by blast
  next
    case 2
    then show ?thesis using dial_ok [OF 2(1)] channel_conns [of b1 conn] close_conns [of b2 conn] by auto
  next
    case 3
    then show ?thesis
      using dial_ok [OF 3(1)] channel_conns [of b1 conn] declareQueues_conns [OF 3(3)]
        ch_close_conns [of b3 ch] close_conns [of "ch_Close a b3 ch" conn] by simp blast
  qed
qed

lemma dial_done:
  assumes "dial a (c, b) = (None, c', b')"
  obtains n ch where "c' = c\<lparr>qc_conn := Some n, qc_channel := Some ch\<rparr>" "conns b' \<subseteq> insert n (conns b)"
proof -
  from assms obtain n b1 ch b2 where
    1: "amqp_Dial a b (qc_url c) = (Inr n, b1)" "conn_Channel a b1 n = (Inr ch, b2)"
      "declareQueues a ch b2 = (None, b')" "c' = c\<lparr>qc_conn := Some n, qc_channel := Some ch\<rparr>"
    by (auto simp: dial_def split: prod.splits sum.splits option.splits)
  have "conns b' \<subseteq> insert n (conns b)"
    using dial_ok [OF 1(1)] channel_conns [of b1 n] 1(2) declareQueues_conns [OF 1(3)] by auto
  with 1(4) show thesis by (rule that)
qed

lemma client_ok_closed: "client_ok conns url st \<Longrightarrow> \<not> conn_live a st \<Longrightarrow> conns (snd st) = {}"
  by (auto simp: client_ok_def conn_live_def closed_iff)

lemma dial_client_ok:
  assumes "dial a st = (r, st')" "client_ok conns url st" "conns (snd st) = {}"
  shows "client_ok conns url st'"
proof (cases r)
  case None
  with assms(1) have "dial a (fst st, snd st) = (None, fst st', snd st')" by simp
  then obtain n ch where "fst st' = (fst st)\<lparr>qc_conn := Some n, qc_channel := Some ch\<rparr>"
    "conns (snd st') \<subseteq> insert n (conns (snd st))" by (rule dial_done)
  with assms(2,3) show ?thesis by (auto simp: client_ok_def)
next
  case (Some x)
  with dial_failed [of "fst st" "snd st" x "fst st'" "snd st'"] assms show ?thesis
    by (auto simp: client_ok_def)
qed

lemma getChannel_client_ok:
  assumes "client_ok conns url st" "getChannel a st = (r, st')"
  shows "client_ok conns url st'"
proof (cases "conn_live a st")
  case True
  with assms show ?thesis by (simp add: getChannel_def)
next
  case False
  obtain q st1 where d: "dial a st = (q, st1)" by (cases "dial a st")
  with assms(2) False have "st' = st1" by (simp add: getChannel_def split: option.splits)
  with dial_client_ok [OF d assms(1)] client_ok_closed [OF assms(1) False] show ?thesis by simp
qed

lemma client_ok_shrink: "client_ok conns url (c, b) \<Longrightarrow> conns b' \<subseteq> conns b \<Longrightarrow> client_ok conns url (c, b')"
  by (auto simp: client_ok_def)

lemma call_client_ok:
  assumes "client_ok conns url st"
    and "snd op = snd (getChannel a st) \<or> (\<exists>c b b'. snd (getChannel a st) = (c, b) \<and> conns b' \<subseteq> conns b \<and> snd op = (c, b'))"
  shows "client_ok conns url (snd op)"
  using assms(2) getChannel_client_ok [OF assms(1) prod.collapse [symmetric]] client_ok_shrink by metis

lemma Publish_client_ok: "client_ok conns url st \<Longrightarrow> client_ok conns url (snd (Publish a st q body))"
  by (erule call_client_ok) (simp add: Publish_def split: prod.splits sum.splits, metis publish_conns snd_conv)

lemma Consume_client_ok: "client_ok conns url st \<Longrightarrow> client_ok conns url (snd (Consume a st q))"
  by (erule call_client_ok) (simp add: Consume_def split: prod.splits sum.splits, metis consume_conns snd_conv)

lemma QueueDepth_client_ok: "client_ok conns url st \<Longrightarrow> client_ok conns url (snd (QueueDepth a st q))"
  by (erule call_client_ok) (simp add: QueueDepth_def split: prod.splits sum.splits, metis inspect_conns snd_conv)

lemma queue_New_client_ok:
  assumes "queue_New a url b = (Inr c, b')" "conns b = {}"
  shows "client_ok conns url (c, b')"
proof -
  have "dial a (\<lparr>qc_url = url, qc_conn = None, qc_channel = None\<rparr>, b) = (None, c, b')"
    using assms(1) by (auto simp: queue_New_def split: prod.splits option.splits)
  then obtain n ch where "c = \<lparr>qc_url = url, qc_conn = Some n, qc_channel = Some ch\<rparr>" "conns b' \<subseteq> insert n (conns b)"
    by (rule dial_done) simp
  with assms(2) show ?thesis by (auto simp: client_ok_def)
qed

lemma Close_leaves_none: "client_ok conns url st \<Longrightarrow> conns (snd (queue_Close a st)) = {}"
  using close_conns [of "ch_Close a (snd st) (the (qc_channel (fst st)))" "the (qc_conn (fst st))"]
    ch_close_conns [of "snd st" "the (qc_channel (fst st))"]
  by (auto simp: client_ok_def queue_Close_def split: prod.splits) blast

lemma Close_client_ok: "client_ok conns url st \<Longrightarrow> client_ok conns url (queue_Close a st)"
  using Close_leaves_none [of url st] by (auto simp: client_ok_def queue_Close_def Let_def split: prod.splits)

lemma queue_reach_ok: "queue_reach a conns url st \<Longrightarrow> client_ok conns url st"
proof (induction rule: queue_reach.induct)
  case (opened b c b')
  then show ?case by (simp add: queue_New_client_ok)
next
  case (dropped c b b')
  then show ?case by (auto simp: conns_lost_def intro: client_ok_shrink)
qed (simp_all add: Publish_client_ok Consume_client_ok QueueDepth_client_ok Close_client_ok)

end

section \<open>A broker\<close>

text \<open>
  A broker that keeps the contract: numbered connections and channels, named queues that
  must be declared, a flag for an unreachable server. Publishing or declaring on a closed
  channel fails.
\<close>

record sim_broker =
  sb_up :: bool
  sb_next :: nat
  sb_conns :: "nat list"
  sb_chans :: "nat list"
  sb_queues :: "string \<rightharpoonup> json list"

definition sim_err :: err where
  "sim_err = ErrExt ''channel/connection is not open''"

definition sim_amqp :: "(sim_broker, nat, nat, string) amqp" where
  "sim_amqp = \<lparr>
     amqp_Dial = (\<lambda>b url. if sb_up b
        then (Inr (sb_next b), b\<lparr>sb_next := Suc (sb_next b), sb_conns := sb_next b # sb_conns b\<rparr>)
        else (Inl (ErrExt ''connection refused''), b)),
     conn_Channel = (\<lambda>b n. if n \<in> set (sb_conns b)
        then (Inr (sb_next b), b\<lparr>sb_next := Suc (sb_next b), sb_chans := sb_next b # sb_chans b\<rparr>)
        else (Inl sim_err, b)),
     conn_IsClosed = (\<lambda>b n. n \<notin> set (sb_conns b)),
     conn_Close = (\<lambda>b n. b\<lparr>sb_conns := removeAll n (sb_conns b)\<rparr>),
     ch_Close = (\<lambda>b ch. b\<lparr>sb_chans := removeAll ch (sb_chans b)\<rparr>),
     ch_QueueDeclare = (\<lambda>b ch q opts. if ch \<in> set (sb_chans b)
        then (None, b\<lparr>sb_queues := (sb_queues b)(q \<mapsto> (case sb_queues b q of None \<Rightarrow> [] | Some ms \<Rightarrow> ms))\<rparr>)
        else (Some sim_err, b)),
     ch_Publish = (\<lambda>b ch ex q m i p. if ch \<in> set (sb_chans b)
        then (None, case sb_queues b q of None \<Rightarrow> b | Some ms \<Rightarrow> b\<lparr>sb_queues := (sb_queues b)(q \<mapsto> ms @ [p_Body p])\<rparr>)
        else (Some sim_err, b)),
     ch_Consume = (\<lambda>b ch q copts. if ch \<in> set (sb_chans b) then (Inr q, b) else (Inl sim_err, b)),
     ch_QueueInspect = (\<lambda>b ch q. case sb_queues b q of
        None \<Rightarrow> (Inl sim_err, b)
      | Some ms \<Rightarrow> if ch \<in> set (sb_chans b) then (Inr (of_nat (length ms)), b) else (Inl sim_err, b))\<rparr>"

definition sim_conns :: "sim_broker \<Rightarrow> nat set" where
  "sim_conns b = set (sb_conns b)"

interpretation sim: amqp_conns sim_amqp sim_conns
  by unfold_locales (auto simp: sim_amqp_def sim_conns_def split: if_splits option.splits)

definition sim0 :: sim_broker where
  "sim0 = \<lparr>sb_up = True, sb_next = 0, sb_conns = [], sb_chans = [], sb_queues = Map.empty\<rparr>"

definition sim1 :: "(sim_broker, nat, nat) queue_state" where
  "sim1 = (\<lparr>qc_url = ''amqp'', qc_conn = Some 0, qc_channel = Some 1\<rparr>,
     \<lparr>sb_up = True, sb_next = 2, sb_conns = [0], sb_chans = [1],
      sb_queues = [''transactions.dlq'' \<mapsto> [], ''transactions'' \<mapsto> []]\<rparr>)"

lemma sim_open: "queue_New sim_amqp ''amqp'' sim0 = (Inr (fst sim1), snd sim1)"
  by (simp add: queue_New_def dial_def declareQueues_def sim_amqp_def sim0_def sim1_def)

lemma sim1_reach: "queue_reach sim_amqp sim_conns ''amqp'' sim1"
  using queue_reach.opened [of sim_conns sim0 sim_amqp "''amqp''" "fst sim1" "snd sim1"] sim_open
  by (simp add: sim_conns_def sim0_def)

section \<open>Properties\<close>

text \<open>
  C25. The client never holds more than one connection: in every state reachable from
  \<open>New\<close> by publishing, consuming, inspecting, closing and lost connections, whatever fails on
  the way, the only open connection is the client's own, and \<open>Close\<close> then leaves none. A failed
  reconnection closes what it opened.
\<close>

theorem queue_single_connection:
  assumes "amqp_conns a conns" and "queue_reach a conns url st"
  shows "(\<exists>n. qc_conn (fst st) = Some n \<and> conns (snd st) \<subseteq> {n}) \<and> conns (snd (queue_Close a st)) = {}"
  using amqp_conns.queue_reach_ok [OF assms] amqp_conns.Close_leaves_none [OF assms(1)]
  by (auto simp: client_ok_def)

theorem queue_single_connection_witness:
  "sim_conns (snd (queue_Close sim_amqp (snd (Publish sim_amqp sim1 ''transactions'' (JStr ''x''))))) = {}"
  using queue_single_connection [OF sim.amqp_conns_axioms queue_reach.published [OF sim1_reach]] by blast

text \<open>Publishing a list of messages one after the other: the results and the final state.\<close>

fun publish_all ::
  "('b, 'n, 'c, 'd) amqp \<Rightarrow> string \<Rightarrow> json list \<Rightarrow> ('b, 'n, 'c) queue_state \<Rightarrow>
   err option list \<times> ('b, 'n, 'c) queue_state" where
  "publish_all a q [] st = ([], st)"
| "publish_all a q (m # ms) st =
     (let (x, st1) = Publish a st q m; (xs, st2) = publish_all a q ms st1 in (x # xs, st2))"

text \<open>
  A channel that was closed while its connection stays open is never replaced: as long
  as the connection lives, every publication fails with the channel's error and the client
  keeps the dead channel, because only the connection is asked whether it is closed.
\<close>

theorem dead_channel_never_replaced:
  assumes "conn_live a st" and "qc_channel (fst st) = Some ch"
    and "\<And>p. ch_Publish a (snd st) ch '''' q False False p = (Some x, snd st)"
  shows "publish_all a q ms st = (replicate (length ms) (Some x), st)"
proof (induction ms)
  case (Cons m ms)
  have "Publish a st q m = (Some x, st)"
    using assms by (cases st) (simp add: Publish_def getChannel_def)
  with Cons show ?case by simp
qed simp

definition sim_dead :: "(sim_broker, nat, nat) queue_state" where
  "sim_dead = (fst sim1, (snd sim1)\<lparr>sb_chans := []\<rparr>)"

theorem dead_channel_never_replaced_witness:
  "sb_up (snd sim_dead) \<and> publish_all sim_amqp ''transactions'' [JStr ''a'', JStr ''b''] sim_dead
     = ([Some sim_err, Some sim_err], sim_dead)"
proof -
  have live: "conn_live sim_amqp sim_dead" "qc_channel (fst sim_dead) = Some 1"
    by (simp_all add: conn_live_def sim_amqp_def sim_dead_def sim1_def)
  have "ch_Publish sim_amqp (snd sim_dead) 1 '''' ''transactions'' False False p = (Some sim_err, snd sim_dead)" for p
    by (simp add: sim_amqp_def sim_dead_def)
  from dead_channel_never_replaced [OF live this, of "[JStr ''a'', JStr ''b'']"] show ?thesis
    by (simp add: sim_dead_def sim1_def)
qed

end
