(* ===== verification/Metrics.thy ===== *)
theory Metrics
  imports QueueClient Numbers
begin

text \<open>
  The Prometheus metrics of \<open>internal/metrics/metrics.go\<close> and the loop of \<open>main\<close> that
  publishes the health of the dependencies. The registry is a map from the name of a metric
  and the value of its label (the empty string for an unlabelled one) to its value; what
  the pings, the pool statistics and the queue inspection return is an argument.
\<close>

section \<open>Registration\<close>

datatype metric_type = CounterVec string | GaugeVec string | Gauge

definition collectors :: "(string \<times> metric_type) list" where
  "collectors =
    [(''cache_hits_total'', CounterVec ''key_type''),
     (''cache_misses_total'', CounterVec ''key_type''),
     (''rate_limiter_drops_total'', CounterVec ''scope''),
     (''queue_depth'', GaugeVec ''queue''),
     (''circuit_breaker_open'', Gauge),
     (''circuit_breaker_state'', GaugeVec ''dependency''),
     (''dependency_up'', GaugeVec ''dependency''),
     (''db_connections_active'', Gauge),
     (''db_connections_idle'', Gauge),
     (''app_cpu_utilization_ratio'', Gauge),
     (''app_memory_usage_bytes'', Gauge),
     (''app_memory_limit_bytes'', Gauge),
     (''app_memory_utilization_ratio'', Gauge)]"

type_synonym registry = "string \<times> string \<rightharpoonup> float64"

text \<open>
  \<open>prometheus.MustRegister\<close> panics on a second collector of the same name (\<open>None\<close>); an
  unlabelled metric is exported as 0 from then on.
\<close>

fun MustRegister :: "(string \<times> metric_type) list \<Rightarrow> string list \<Rightarrow> registry \<Rightarrow> registry option" where
  "MustRegister [] names m = Some m"
| "MustRegister ((name, ty) # cs) names m =
     (if name \<in> set names then None
      else MustRegister cs (name # names) (case ty of Gauge \<Rightarrow> m((name, '''') \<mapsto> 0) | _ \<Rightarrow> m))"

definition gauge_Set :: "string \<Rightarrow> string \<Rightarrow> float64 \<Rightarrow> registry \<Rightarrow> registry" where
  "gauge_Set name label v m = m((name, label) \<mapsto> v)"

definition metrics_init :: "registry option" where
  "metrics_init =
     (case MustRegister collectors [] Map.empty of
        None \<Rightarrow> None
      | Some m \<Rightarrow> Some
          (gauge_Set ''dependency_up'' ''rabbitmq'' 0
          (gauge_Set ''dependency_up'' ''redis'' 0
          (gauge_Set ''dependency_up'' ''database'' 0
          (gauge_Set ''dependency_up'' ''api'' 1
          (gauge_Set ''circuit_breaker_state'' ''api'' 0
          (gauge_Set ''queue_depth'' ''transactions'' 0 m)))))))"

section \<open>The health loop of \<open>main\<close>\<close>

text \<open>
  One round: the result of the database ping with the in-use and idle connections, of the
  Redis ping, and of \<open>QueueDepth\<close>; \<open>None\<close> for a dependency that is not configured.
\<close>

record probe =
  pr_db :: "(err option \<times> nat \<times> nat) option"
  pr_redis :: "err option option"
  pr_queue :: "(err + int64) option"

definition collect_db :: "(err option \<times> nat \<times> nat) option \<Rightarrow> registry \<Rightarrow> registry" where
  "collect_db p m =
     (case p of
        None \<Rightarrow> m
      | Some (Some _, _, _) \<Rightarrow> gauge_Set ''dependency_up'' ''database'' 0 m
      | Some (None, inUse, idle) \<Rightarrow>
          gauge_Set ''db_connections_idle'' '''' (fl64 (of_nat idle))
            (gauge_Set ''db_connections_active'' '''' (fl64 (of_nat inUse))
              (gauge_Set ''dependency_up'' ''database'' 1 m)))"

definition collect_redis :: "err option option \<Rightarrow> registry \<Rightarrow> registry" where
  "collect_redis p m =
     (case p of
        None \<Rightarrow> m
      | Some (Some _) \<Rightarrow> gauge_Set ''dependency_up'' ''redis'' 0 m
      | Some None \<Rightarrow> gauge_Set ''dependency_up'' ''redis'' 1 m)"

definition collect_queue :: "(err + int64) option \<Rightarrow> registry \<Rightarrow> registry" where
  "collect_queue p m =
     (case p of
        None \<Rightarrow> m
      | Some (Inl _) \<Rightarrow> gauge_Set ''dependency_up'' ''rabbitmq'' 0 m
      | Some (Inr depth) \<Rightarrow>
          gauge_Set ''queue_depth'' ''transactions'' (fl64 (of_int (sint depth)))
            (gauge_Set ''dependency_up'' ''rabbitmq'' 1 m))"

definition collect_deps :: "probe \<Rightarrow> registry \<Rightarrow> registry" where
  "collect_deps p m = collect_queue (pr_queue p) (collect_redis (pr_redis p) (collect_db (pr_db p) m))"

text \<open>
  The goroutine around it: a round at once, then one per tick until the context is done. The
  list holds what the \<open>select\<close> receives, each tick with what its probes answer.
\<close>

datatype loop_event = Done | Tick probe

fun probe_rounds :: "loop_event list \<Rightarrow> registry \<Rightarrow> registry" where
  "probe_rounds [] m = m"
| "probe_rounds (Done # es) m = m"
| "probe_rounds (Tick p # es) m = probe_rounds es (collect_deps p m)"

definition probe_loop :: "probe \<Rightarrow> loop_event list \<Rightarrow> registry \<Rightarrow> registry" where
  "probe_loop p es m = probe_rounds es (collect_deps p m)"

lemmas metric_defs = gauge_Set_def collect_db_def collect_redis_def collect_queue_def collect_deps_def

section \<open>Properties\<close>

definition up_of :: "registry \<Rightarrow> string \<Rightarrow> float64 option" where
  "up_of m d = m (''dependency_up'', d)"

lemma metrics_init_Some: "\<exists>m. metrics_init = Some m \<and> up_of m ''api'' = Some 1 \<and>
    up_of m ''database'' = Some 0 \<and> up_of m ''redis'' = Some 0 \<and> up_of m ''rabbitmq'' = Some 0 \<and>
    m (''queue_depth'', ''transactions'') = Some 0"
  by (simp add: metrics_init_def collectors_def gauge_Set_def up_of_def)

lemma collect_deps_up:
  "up_of (collect_deps p m) ''database'' =
     (case pr_db p of None \<Rightarrow> up_of m ''database'' | Some (e, _, _) \<Rightarrow> Some (if e = None then 1 else 0))"
  "up_of (collect_deps p m) ''redis'' =
     (case pr_redis p of None \<Rightarrow> up_of m ''redis'' | Some e \<Rightarrow> Some (if e = None then 1 else 0))"
  "up_of (collect_deps p m) ''rabbitmq'' =
     (case pr_queue p of None \<Rightarrow> up_of m ''rabbitmq'' | Some r \<Rightarrow> Some (case r of Inl _ \<Rightarrow> 0 | Inr _ \<Rightarrow> 1))"
  "up_of (collect_deps p m) ''api'' = up_of m ''api''"
  by (auto simp: up_of_def metric_defs split: option.splits prod.splits sum.splits)

text \<open>The health after a run of rounds: the last probe of each configured dependency decides.\<close>

definition expect_up :: "(probe \<Rightarrow> bool option) \<Rightarrow> probe list \<Rightarrow> float64" where
  "expect_up f ps =
     (let bs = filter (\<lambda>b. b \<noteq> None) (map f ps) in if bs \<noteq> [] \<and> last bs = Some True then 1 else 0)"

definition db_alive :: "probe \<Rightarrow> bool option" where
  "db_alive p = map_option (\<lambda>(e, _, _). e = None) (pr_db p)"

definition redis_alive :: "probe \<Rightarrow> bool option" where
  "redis_alive p = map_option (\<lambda>e. e = None) (pr_redis p)"

definition queue_alive :: "probe \<Rightarrow> bool option" where
  "queue_alive p = map_option (\<lambda>r. case r of Inl _ \<Rightarrow> False | Inr _ \<Rightarrow> True) (pr_queue p)"

lemma expect_up_snoc: "expect_up f (ps @ [p]) = (case f p of None \<Rightarrow> expect_up f ps | Some b \<Rightarrow> if b then 1 else 0)"
  by (auto simp: expect_up_def split: option.splits)

fun ticks :: "loop_event list \<Rightarrow> probe list" where
  "ticks (Tick p # es) = p # ticks es"
| "ticks _ = []"

lemma probe_rounds_fold: "probe_rounds es m = fold collect_deps (ticks es) m"
  by (induction es m rule: probe_rounds.induct) simp_all

lemma fold_collect_up:
  assumes "up_of m ''api'' = Some 1" "up_of m ''database'' = Some 0" "up_of m ''redis'' = Some 0" "up_of m ''rabbitmq'' = Some 0"
  shows "up_of (fold collect_deps ps m) ''api'' = Some 1 \<and>
     up_of (fold collect_deps ps m) ''database'' = Some (expect_up db_alive ps) \<and>
     up_of (fold collect_deps ps m) ''redis'' = Some (expect_up redis_alive ps) \<and>
     up_of (fold collect_deps ps m) ''rabbitmq'' = Some (expect_up queue_alive ps)"
proof (induction ps rule: rev_induct)
  case Nil
  then show ?case using assms by (simp add: expect_up_def)
next
  case (snoc p ps)
  then show ?case
    by (simp add: collect_deps_up expect_up_snoc db_alive_def redis_alive_def queue_alive_def
        split: option.splits prod.splits sum.splits)
qed

text \<open>
  C36. The health metrics tell the truth: start-up registers every collector without a name
  clash, and after the first round and any number of ticks before the context is done
  \<open>dependency_up\<close> of the database, Redis and RabbitMQ is 1 exactly when the last probe of that
  dependency succeeded, 0 when it failed or the dependency was never configured. A failing
  queue does not hide the others.
\<close>

theorem dependency_up_truthful:
  "\<exists>m. metrics_init = Some m \<and>
     up_of (probe_loop p es m) ''api'' = Some 1 \<and>
     up_of (probe_loop p es m) ''database'' = Some (expect_up db_alive (p # ticks es)) \<and>
     up_of (probe_loop p es m) ''redis'' = Some (expect_up redis_alive (p # ticks es)) \<and>
     up_of (probe_loop p es m) ''rabbitmq'' = Some (expect_up queue_alive (p # ticks es))"
proof -
  have loop: "probe_loop p es m = fold collect_deps (p # ticks es) m" for m
    by (simp add: probe_loop_def probe_rounds_fold)
  show ?thesis using metrics_init_Some fold_collect_up unfolding loop by blast
qed

end
