(* ===== verification/Server.thy ===== *)
theory Server
  imports Worker Middleware Metrics
begin

text \<open>
  Start-up: the constructors of \<open>internal/infrastructure\<close> and the wiring of
  \<open>cmd/server/main.go\<close>. What the outside answers during start-up (the environment, the
  migration tool, the pings) is a record of results; \<open>boot\<close> gives the services, the worker,
  the middlewares and the routes that \<open>main\<close> puts together, or the message and the error
  with which it exits.
\<close>

section \<open>Connections\<close>

record pool =
  pool_dsn :: string
  pool_simpleProtocol :: bool
  pool_MaxOpenConns :: nat
  pool_MaxIdleConns :: nat
  pool_ConnMaxLifetime :: duration
  pool_ConnMaxIdleTime :: duration

definition pg_pool :: "string \<Rightarrow> pool" where
  "pg_pool dsn = \<lparr>pool_dsn = dsn, pool_simpleProtocol = True, pool_MaxOpenConns = 20,
     pool_MaxIdleConns = 10, pool_ConnMaxLifetime = 5 * 60 * second, pool_ConnMaxIdleTime = 60 * second\<rparr>"

text \<open>
  A constructor returns its result and the handles it opened and left open. Both open first and
  then ping; when the ping fails they return the error and close nothing.
\<close>

datatype handle = HPool pool | HRedis string

definition postgres_New ::
  "(string \<Rightarrow> err option) \<Rightarrow> (string \<Rightarrow> err option) \<Rightarrow> string \<Rightarrow> (err + pool) \<times> handle list" where
  "postgres_New parse ping dsn =
     (case parse dsn of
        Some x \<Rightarrow> (Inl x, [])
      | None \<Rightarrow>
          (let db = pg_pool dsn
           in case ping dsn of Some x \<Rightarrow> (Inl x, [HPool db]) | None \<Rightarrow> (Inr db, [HPool db])))"

definition redis_New :: "(string \<Rightarrow> err option) \<Rightarrow> string \<Rightarrow> (err + string) \<times> handle list" where
  "redis_New ping addr = (case ping addr of Some x \<Rightarrow> (Inl x, [HRedis addr]) | None \<Rightarrow> (Inr addr, [HRedis addr]))"

text \<open>\<open>no_change\<close> is the sentinel \<open>migrate.ErrNoChange\<close> of the migration library.\<close>

definition RunMigrations :: "err \<Rightarrow> (string \<Rightarrow> err option) \<Rightarrow> (string \<Rightarrow> err option) \<Rightarrow> string \<Rightarrow> err option" where
  "RunMigrations no_change new up dsn =
     (case new dsn of
        Some x \<Rightarrow> Some x
      | None \<Rightarrow> (case up dsn of Some x \<Rightarrow> if errors_Is x no_change then None else Some x | None \<Rightarrow> None))"

section \<open>The wiring\<close>

record outside =
  out_parse :: "Config \<times> err option"
  out_noChange :: err
  out_migrateNew :: "string \<Rightarrow> err option"
  out_migrateUp :: "string \<Rightarrow> err option"
  out_pgParse :: "string \<Rightarrow> err option"
  out_pgPing :: "string \<Rightarrow> err option"
  out_redisPing :: "string \<Rightarrow> err option"

text \<open>What a repository on PostgreSQL meets: the driver, the server's clock and its faults.\<close>

record pg_env =
  pe_drv :: driver
  pe_now :: gotime
  pe_orc :: outcomes

datatype mw =
    MwPrometheus string | MwBodyLimit nat | MwContextTimeout duration | MwDecompress | MwGzip nat
  | MwRateLimiter float64 int64 | MwRecover | MwCircuitBreaker | MwRequestID | MwRequestLogger | MwSecure

datatype route = RouteMetrics | RouteGetBalance | RouteCreateTransaction | RouteGetTransactionStatus

record ('r, 'b, 'n, 'c, 'd) server =
  srv_accountSvc :: "('r, ('b, 'n, 'c) queue_state) accountService"
  srv_txSvc :: "('r, ('b, 'n, 'c) queue_state) transactionService"
  srv_db :: "pool option"
  srv_replica :: "pool option"
  srv_queue :: "('n, 'c) queue_client option"
  srv_worker :: "(('r, ('b, 'n, 'c) queue_state, 'd) worker \<times> int64) option"
  srv_use :: "mw list"
  srv_routes :: "(string \<times> string \<times> route) list"
  srv_addr :: string
  srv_log :: slogger
  srv_collectEvery :: duration
  srv_opened :: "handle list"
  srv_warnings :: "(string \<times> err) list"

definition middlewares :: "Config \<Rightarrow> mw list" where
  "middlewares cfg =
     [MwPrometheus ''banking_api'', MwBodyLimit 2097152, MwContextTimeout (60 * second), MwDecompress, MwGzip 5] @
     (if RateLimitEnabled cfg then [MwRateLimiter (RateLimitRPS cfg) (RateLimitBurst cfg)] else []) @
     [MwRecover, MwCircuitBreaker, MwRequestID, MwRequestLogger, MwSecure]"

definition routes :: "(string \<times> string \<times> route) list" where
  "routes = [(''GET'', ''/metrics'', RouteMetrics),
     (''GET'', ''/api/v1/accounts/:id/balance'', RouteGetBalance),
     (''POST'', ''/api/v1/transactions'', RouteCreateTransaction),
     (''GET'', ''/api/v1/transactions/:id/status'', RouteGetTransactionStatus)]"

text \<open>The database part: exit with a message, or the pools, the warnings and the open handles.\<close>

definition connect_db ::
  "outside \<Rightarrow> Config \<Rightarrow> (string \<times> err) + (pool option \<times> pool option \<times> (string \<times> err) list \<times> handle list)" where
  "connect_db out cfg =
     (if DBPrimaryDSN cfg = '''' then Inr (None, None, [], [])
      else case RunMigrations (out_noChange out) (out_migrateNew out) (out_migrateUp out) (DBPrimaryDSN cfg) of
             Some x \<Rightarrow> Inl (''migrations failed'', x)
           | None \<Rightarrow>
               (let appDSN = (if PgBouncerDSN cfg \<noteq> '''' then PgBouncerDSN cfg else DBPrimaryDSN cfg)
                in case postgres_New (out_pgParse out) (out_pgPing out) appDSN of
                     (Inl x, _) \<Rightarrow> Inl (''failed to connect to postgres'', x)
                   | (Inr db, hs) \<Rightarrow>
                       if DBReadReplicaEnabled cfg \<and> PgBouncerReadDSN cfg \<noteq> ''''
                       then case postgres_New (out_pgParse out) (out_pgPing out) (PgBouncerReadDSN cfg) of
                              (Inl x, hs') \<Rightarrow> Inr (Some db, None, [(''read replica unavailable'', x)], hs @ hs')
                            | (Inr rep, hs') \<Rightarrow> Inr (Some db, Some rep, [], hs @ hs')
                       else Inr (Some db, None, [], hs)))"

definition connect_redis :: "outside \<Rightarrow> Config \<Rightarrow> string option \<times> (string \<times> err) list \<times> handle list" where
  "connect_redis out cfg =
     (if CacheEnabled cfg \<and> RedisAddr cfg \<noteq> ''''
      then case redis_New (out_redisPing out) (RedisAddr cfg) of
             (Inl x, hs) \<Rightarrow> (None, [(''redis unavailable'', x)], hs)
           | (Inr addr, hs) \<Rightarrow> (Some addr, [], hs)
      else (None, [], []))"

definition connect_queue ::
  "('b, 'n, 'c, 'd) amqp \<Rightarrow> Config \<Rightarrow> 'b \<Rightarrow> (('n, 'c) queue_client option \<times> (string \<times> err) list) \<times> 'b" where
  "connect_queue a cfg b =
     (if QueueEnabled cfg \<and> QueueURL cfg \<noteq> ''''
      then case queue_New a (QueueURL cfg) b of
             (Inl x, b') \<Rightarrow> ((None, [(''queue unavailable'', x)]), b')
           | (Inr q, b') \<Rightarrow> ((Some q, []), b')
      else ((None, []), b))"

definition wire_account_repo :: "pg_env \<Rightarrow> pool option \<Rightarrow> pool option \<Rightarrow> ('r, 'q) world account_repository" where
  "wire_account_repo pe db rep =
     (case db of
        None \<Rightarrow> mem_account_repo
      | Some _ \<Rightarrow> pg_account_repo (pe_orc pe) (pg_NewAccountRepository PrimaryDB (map_option (\<lambda>_. ReplicaDB) rep)))"

definition wire_tx_repo :: "pg_env \<Rightarrow> pool option \<Rightarrow> pool option \<Rightarrow> ('r, 'q) world transaction_repository" where
  "wire_tx_repo pe db rep =
     (case db of
        None \<Rightarrow> mem_tx_repo
      | Some _ \<Rightarrow> pg_tx_repo (pe_drv pe) (pe_now pe) (pe_orc pe)
          (pg_NewTransactionRepository PrimaryDB (map_option (\<lambda>_. ReplicaDB) rep)))"

definition boot ::
  "outside \<Rightarrow> ('b, 'n, 'c, 'd) amqp \<Rightarrow> 'r redis_client \<Rightarrow> pg_env \<Rightarrow> 'b \<Rightarrow>
   ((string \<times> err) + ('r, 'b, 'n, 'c, 'd) server) \<times> 'b" where
  "boot out a cl pe b =
     (case Load (out_parse out) of
        (_, Some x) \<Rightarrow> (Inl (''failed to load config'', x), b)
      | (cfg, None) \<Rightarrow>
          (case connect_db out cfg of
             Inl x \<Rightarrow> (Inl x, b)
           | Inr (db, rep, warn1, hs1) \<Rightarrow>
               (let (addr, warn2, hs2) = connect_redis out cfg;
                    ((q, warn3), b') = connect_queue a cfg b;
                    rdb = map_option (\<lambda>_. cl) addr;
                    conn = map_option (\<lambda>_. PrimaryDB) db;
                    txRepo = wire_tx_repo pe db rep
                in (Inr \<lparr>
                      srv_accountSvc = NewAccountService (wire_account_repo pe db rep) rdb (CacheBalanceTTL cfg),
                      srv_txSvc = NewTransactionService txRepo conn (map_option (\<lambda>_. Publish a) q) rdb (CacheTxStatusTTL cfg),
                      srv_db = db, srv_replica = rep, srv_queue = q,
                      srv_worker = (if QueueEnabled cfg \<and> q \<noteq> None \<and> db \<noteq> None
                                    then Some (NewWorker PrimaryDB (Consume a) rdb txRepo, QueueWorkers cfg) else None),
                      srv_use = middlewares cfg, srv_routes = routes,
                      srv_addr = '':'' @ fmt_d (sint (AppPort cfg)),
                      srv_log = logger_Init (AppEnv cfg), srv_collectEvery = 5 * second,
                      srv_opened = hs1 @ hs2,
                      srv_warnings = warn1 @ warn2 @ warn3\<rparr>, b'))))"

text \<open>The deny handler of the rate limiter: one more drop, and the limiter's error.\<close>

definition rate_limit_deny :: "registry \<Rightarrow> registry" where
  "rate_limit_deny m =
     m((''rate_limiter_drops_total'', ''global'') \<mapsto>
        (case m (''rate_limiter_drops_total'', ''global'') of None \<Rightarrow> 1 | Some n \<Rightarrow> n + 1))"

section \<open>Properties\<close>

definition app_dsn :: "Config \<Rightarrow> string" where
  "app_dsn cfg = (if PgBouncerDSN cfg \<noteq> '''' then PgBouncerDSN cfg else DBPrimaryDSN cfg)"

lemma boot_Inr:
  assumes "boot out a cl pe b = (Inr srv, b')"
  obtains cfg db rep warn1 addr warn2 q warn3 hs1 hs2 where
    "out_parse out = (cfg, None)" "connect_db out cfg = Inr (db, rep, warn1, hs1)"
    "connect_redis out cfg = (addr, warn2, hs2)" "connect_queue a cfg b = ((q, warn3), b')"
    "srv_txSvc srv = NewTransactionService (wire_tx_repo pe db rep) (map_option (\<lambda>_. PrimaryDB) db)
       (map_option (\<lambda>_. Publish a) q) (map_option (\<lambda>_. cl) addr) (CacheTxStatusTTL cfg)"
    "srv_accountSvc srv = NewAccountService (wire_account_repo pe db rep) (map_option (\<lambda>_. cl) addr) (CacheBalanceTTL cfg)"
    "srv_db srv = db" "srv_replica srv = rep" "srv_queue srv = q"
    "srv_worker srv = (if QueueEnabled cfg \<and> q \<noteq> None \<and> db \<noteq> None
       then Some (NewWorker PrimaryDB (Consume a) (map_option (\<lambda>_. cl) addr) (wire_tx_repo pe db rep), QueueWorkers cfg) else None)"
    "srv_opened srv = hs1 @ hs2" "srv_log srv = logger_Init (AppEnv cfg)"
  using assms by (auto simp: boot_def Load_def Let_def split: prod.splits option.splits sum.splits)


text \<open>
  C33. The parts fit together: a started server runs a worker exactly when it has both a
  queue and a database; the worker then settles on the primary, through the same transaction
  repository the service writes pending rows to, and invalidates the same cache. The service
  publishes exactly when there is a queue, and its synchronous path exists exactly when there
  is a database.
\<close>

theorem boot_wires_consistently:
  assumes "boot out a cl pe b = (Inr srv, b')"
  shows "(srv_worker srv \<noteq> None \<longleftrightarrow> srv_queue srv \<noteq> None \<and> srv_db srv \<noteq> None) \<and>
    (\<forall>wk n. srv_worker srv = Some (wk, n) \<longrightarrow>
       wk_db wk = PrimaryDB \<and> wk_repo wk = ts_repo (srv_txSvc srv) \<and> wk_redis wk = ts_redis (srv_txSvc srv)) \<and>
    (ts_queue (srv_txSvc srv) \<noteq> None \<longleftrightarrow> srv_queue srv \<noteq> None) \<and>
    (ts_db (srv_txSvc srv) = (if srv_db srv = None then None else Some PrimaryDB)) \<and>
    as_redis (srv_accountSvc srv) = ts_redis (srv_txSvc srv)"
proof -
  from assms obtain cfg db rep warn1 addr warn2 q warn3 hs1 hs2 where
    b1: "out_parse out = (cfg, None)" "connect_db out cfg = Inr (db, rep, warn1, hs1)"
    "connect_redis out cfg = (addr, warn2, hs2)" "connect_queue a cfg b = ((q, warn3), b')" and
    s: "srv_txSvc srv = NewTransactionService (wire_tx_repo pe db rep) (map_option (\<lambda>_. PrimaryDB) db)
       (map_option (\<lambda>_. Publish a) q) (map_option (\<lambda>_. cl) addr) (CacheTxStatusTTL cfg)"
    "srv_accountSvc srv = NewAccountService (wire_account_repo pe db rep) (map_option (\<lambda>_. cl) addr) (CacheBalanceTTL cfg)"
    "srv_db srv = db" "srv_replica srv = rep" "srv_queue srv = q"
    "srv_worker srv = (if QueueEnabled cfg \<and> q \<noteq> None \<and> db \<noteq> None
       then Some (NewWorker PrimaryDB (Consume a) (map_option (\<lambda>_. cl) addr) (wire_tx_repo pe db rep), QueueWorkers cfg) else None)"
    by (rule boot_Inr)
  have "q \<noteq> None \<Longrightarrow> QueueEnabled cfg"
    using b1(4) by (auto simp: connect_queue_def split: if_splits)
  with s show ?thesis
    by (cases q; cases db) (simp_all add: NewTransactionService_def NewAccountService_def NewWorker_def)
qed

text \<open>A sample start-up: a database, a cache and the queue of the sample broker.\<close>

definition pe0 :: pg_env where
  "pe0 = \<lparr>pe_drv = \<lparr>sql_num = (\<lambda>x. x), sql_time = (\<lambda>t. t)\<rparr>, pe_now = 0,
     pe_orc = \<lparr>fault = (\<lambda>_. None), applied = (\<lambda>_. True)\<rparr>\<rparr>"

definition out0 :: "string \<Rightarrow> outside" where
  "out0 dsn = \<lparr>out_parse = (default_config\<lparr>CacheEnabled := True, QueueEnabled := True, QueueURL := ''amqp'',
       DBPrimaryDSN := dsn\<rparr>, None),
     out_noChange = ErrExt ''no change'', out_migrateNew = (\<lambda>_. None), out_migrateUp = (\<lambda>_. Some (ErrExt ''no change'')),
     out_pgParse = (\<lambda>_. None), out_pgPing = (\<lambda>_. None), out_redisPing = (\<lambda>_. None)\<rparr>"

definition srv0 :: "string \<Rightarrow> (keyed_store, sim_broker, nat, nat, string) server" where
  "srv0 dsn = projr (fst (boot (out0 dsn) sim_amqp ks_client pe0 sim0))"

lemma boot0:
  "boot (out0 dsn) sim_amqp ks_client pe0 sim0 = (Inr (srv0 dsn), snd sim1)"
  "srv_queue (srv0 dsn) = Some (fst sim1)" "srv_db (srv0 dsn) = None \<longleftrightarrow> dsn = []"
  by (simp_all add: srv0_def boot_def out0_def Load_def Let_def connect_db_def RunMigrations_def postgres_New_def
      connect_redis_def redis_New_def connect_queue_def default_config_def sim_open)


theorem boot_wires_consistently_witness:
  "srv_worker (srv0 ''postgres'') \<noteq> None \<and> ts_db (srv_txSvc (srv0 ''postgres'')) = Some PrimaryDB"
  using boot_wires_consistently [OF boot0(1) [of "''postgres''"]] boot0(2,3) [of "''postgres''"] by simp

text \<open>
  A queue without a database accepts payments that nothing settles: the server starts
  without a worker, the service still takes the asynchronous path because it only asks for
  the queue, the payment is answered as pending, and it stays pending in the memory
  repository.
\<close>

theorem queue_without_database_stalls:
  assumes "boot out a cl pe b = (Inr srv, b')" and "srv_db srv = None" and "srv_queue srv = Some q"
    and "\<And>body. fst (Publish a (broker w) ''transactions'' body) = None"
  shows "srv_worker srv = None \<and>
    (\<exists>t w'. CreateTransaction (srv_txSvc srv) e inp w = (Inr t, w') \<and> tx_Status t = StatusPending \<and>
       mem_tx_GetByID w' (tx_ID t) = Inr t \<and> primary w' = primary w)"
proof -
  from assms(1) obtain cfg db rep warn1 addr warn2 q0 warn3 hs1 hs2 where
    b1: "out_parse out = (cfg, None)" "connect_db out cfg = Inr (db, rep, warn1, hs1)"
    "connect_redis out cfg = (addr, warn2, hs2)" "connect_queue a cfg b = ((q0, warn3), b')" and
    s: "srv_txSvc srv = NewTransactionService (wire_tx_repo pe db rep) (map_option (\<lambda>_. PrimaryDB) db)
       (map_option (\<lambda>_. Publish a) q0) (map_option (\<lambda>_. cl) addr) (CacheTxStatusTTL cfg)"
    "srv_accountSvc srv = NewAccountService (wire_account_repo pe db rep) (map_option (\<lambda>_. cl) addr) (CacheBalanceTTL cfg)"
    "srv_db srv = db" "srv_replica srv = rep" "srv_queue srv = q0"
    "srv_worker srv = (if QueueEnabled cfg \<and> q0 \<noteq> None \<and> db \<noteq> None
       then Some (NewWorker PrimaryDB (Consume a) (map_option (\<lambda>_. cl) addr) (wire_tx_repo pe db rep), QueueWorkers cfg) else None)"
    by (rule boot_Inr)
  have svc: "ts_queue (srv_txSvc srv) = Some (Publish a)" "ts_repo (srv_txSvc srv) = mem_tx_repo"
    using s(1,3,5) assms(2,3) by (auto simp: NewTransactionService_def wire_tx_repo_def)
  have pub: "\<exists>st. Publish a (broker w) ''transactions'' body = (None, st)" for body
    using assms(4) [of body] by (cases "Publish a (broker w) ''transactions'' body") simp
  let ?k = "fst (nextTransactionID (re_nano e) (txCounter w))"
  obtain st where "Publish a (broker w) ''transactions''
      (the (marshal_TxMessage (tx_message (new_transaction ?k inp (re_now e))))) = (None, st)" using pub by blast
  then have "\<exists>t w'. CreateTransaction (srv_txSvc srv) e inp w = (Inr t, w') \<and> tx_Status t = StatusPending \<and>
       mem_tx_GetByID w' (tx_ID t) = Inr t \<and> primary w' = primary w"
    by (simp add: CreateTransaction_def svc createAsync_def nextTransactionID_def Let_def mem_tx_repo_def mem_tx_Save_def
        mem_tx_GetByID_def new_transaction_def tx_message_def marshal_TxMessage_def)
  with s(3,6) assms(2) show ?thesis by simp
qed

definition sim_world :: "(keyed_store, (sim_broker, nat, nat) queue_state) world" where
  "sim_world = \<lparr>primary = db0, standby = db0, kv = store0, broker = sim1, mem_accounts = Map.empty,
     mem_txs = Map.empty, txCounter = 0, event = None, cache_hits = (\<lambda>_. 0), cache_misses = (\<lambda>_. 0)\<rparr>"

theorem queue_without_database_stalls_witness:
  "srv_worker (srv0 []) = None \<and> (\<exists>t w'. CreateTransaction (srv_txSvc (srv0 [])) env0 (req_input req0) sim_world = (Inr t, w') \<and>
     tx_Status t = StatusPending)"
proof -
  have "fst (Publish sim_amqp (broker sim_world) ''transactions'' body) = None" for body
    by (simp add: sim_world_def Publish_def getChannel_def conn_live_def sim_amqp_def sim1_def)
  from queue_without_database_stalls [OF boot0(1) _ boot0(2) this, of "[]" env0 "req_input req0"] boot0(3) [of "[]"]
  show ?thesis by auto
qed

end
