(* ===== verification/Breaker.thy ===== *)
theory Breaker
  imports Middleware
begin

text \<open>
  What the circuit breaker middleware guarantees, given the documented behaviour of
  gobreaker: the published gauges always show the breaker's state, a rejected request is
  answered 503 without reaching its handler, and the breaker opens exactly at the
  configured number of consecutive failures.
\<close>

section \<open>The library\<close>

text \<open>
  \<open>st\<close> and \<open>fails\<close> read the state and the count of consecutive failures. A request is run
  or, unless the breaker is closed, rejected; a closed breaker counts the outcome and asks
  \<open>ReadyToTrip\<close> after a failure; \<open>OnStateChange\<close> is called at every change, and nothing else
  touches the gauges.
\<close>

locale gobreaker =
  fixes exec :: "cb_settings \<Rightarrow> ('k, 'r, 'b) cb_execute"
    and st :: "'k \<Rightarrow> cb_state"
    and fails :: "'k \<Rightarrow> 32 word"
  assumes ran_or_rejected: "exec s k f c g = ((x, c'), kg') \<Longrightarrow>
      (x, c') = f c \<or> (x \<in> {Some ErrOpenState, Some ErrTooManyRequests} \<and> c' = c \<and> st k \<noteq> StateClosed)"
    and closed_ok: "st k = StateClosed \<Longrightarrow> f c = (None, c1) \<Longrightarrow> exec s k f c g = (r, k', g') \<Longrightarrow>
      st k' = StateClosed \<and> fails k' = 0"
    and closed_fail: "st k = StateClosed \<Longrightarrow> f c = (Some y, c1) \<Longrightarrow> exec s k f c g = (r, k', g') \<Longrightarrow>
      (if set_ReadyToTrip s (fails k + 1) then st k' = StateOpen
       else st k' = StateClosed \<and> fails k' = fails k + 1)"
    and callbacks: "exec s k f c g = (r, k', g') \<Longrightarrow>
      \<exists>chs. g' = fold (\<lambda>(a, b). set_OnStateChange s a b) chs g \<and>
        (if chs = [] then st k' = st k else snd (last chs) = st k')"

section \<open>The gauges\<close>

definition gauges_show :: "cb_gauges \<Rightarrow> cb_state \<Rightarrow> bool" where
  "gauges_show g s \<longleftrightarrow>
     CircuitBreakerOpen g = (if s = StateOpen then 1 else 0) \<and>
     CircuitBreakerState g ''api'' = circuitBreakerStateValue s"

lemma onStateChange_shows: "gauges_show (onStateChange a b g) b"
  by (simp add: gauges_show_def onStateChange_def Let_def)

lemma breaker_gauges_shows: "gauges_show (breaker_gauges g) StateClosed"
  by (simp add: gauges_show_def breaker_gauges_def)

lemma circuitBreakerStateValue_inj: "circuitBreakerStateValue a = circuitBreakerStateValue b \<longleftrightarrow> a = b"
  by (cases a; cases b) (simp_all add: circuitBreakerStateValue_def)

lemma callbacks_show:
  assumes "gauges_show g s" "if chs = [] then s' = s else snd (last chs) = s'"
  shows "gauges_show (fold (\<lambda>(a, b). onStateChange a b) chs g) s'"
proof (cases chs rule: rev_cases)
  case Nil
  with assms show ?thesis by simp
next
  case (snoc cs ab)
  with assms(2) onStateChange_shows [of "fst ab" "snd ab"] show ?thesis by (simp add: case_prod_beta)
qed

text \<open>Requests served one after the other: each is its handler and its context.\<close>

fun serve ::
  "Config \<Rightarrow> (cb_settings \<Rightarrow> ('k, 'r, 'b) cb_execute) \<Rightarrow> (('r, 'b) http_handler \<times> ('r, 'b) http_ctx) list \<Rightarrow>
   'k \<times> cb_gauges \<Rightarrow> (herr option \<times> ('r, 'b) http_ctx) list \<times> 'k \<times> cb_gauges" where
  "serve cfg exec [] kg = ([], kg)"
| "serve cfg exec ((h, c) # rs) kg =
     (let (r, kg1) = CircuitBreaker cfg exec h c kg; (xs, kg2) = serve cfg exec rs kg1 in (r # xs, kg2))"

context gobreaker
begin

lemma exec_shows:
  assumes "exec (breaker_settings cfg) k f c g = (r, k', g')" "gauges_show g (st k)"
  shows "gauges_show g' (st k')"
  using callbacks [OF assms(1)] callbacks_show [OF assms(2)] by (fastforce simp: breaker_settings_def)

lemma CircuitBreaker_shows:
  assumes "CircuitBreaker cfg exec h c kg = (r, kg')" "gauges_show (snd kg) (st (fst kg))"
  shows "gauges_show (snd kg') (st (fst kg'))"
proof (cases "CircuitBreakerEnabled cfg")
  case True
  obtain x c' k' g' where e: "exec (breaker_settings cfg) (fst kg) (guarded h) c (snd kg) = ((x, c'), k', g')"
    by (metis surj_pair)
  with assms(1) True have "kg' = (k', g')" by (auto simp: CircuitBreaker_def split: if_splits)
  with exec_shows [OF e assms(2)] show ?thesis by simp
qed (use assms in \<open>simp add: CircuitBreaker_def\<close>)

lemma serve_shows:
  "serve cfg exec rs kg = (xs, kg') \<Longrightarrow> gauges_show (snd kg) (st (fst kg)) \<Longrightarrow> gauges_show (snd kg') (st (fst kg'))"
proof (induction rs arbitrary: kg xs)
  case (Cons hc rs)
  obtain r kg1 where r: "CircuitBreaker cfg exec (fst hc) (snd hc) kg = (r, kg1)" by (metis surj_pair)
  with Cons.prems(1) obtain ys where "serve cfg exec rs kg1 = (ys, kg')"
    by (cases hc) (auto split: prod.splits)
  with Cons.IH CircuitBreaker_shows [OF r Cons.prems(2)] show ?case by blast
qed simp

lemma breaker_outcome:
  assumes "CircuitBreaker cfg exec h c (k, g) = ((x, c'), kg')"
    and "fst (h c) \<notin> {Some ErrOpenState, Some ErrTooManyRequests}"
  shows "if CircuitBreakerEnabled cfg
    then (x, c') = guarded h c \<or>
         (st k \<noteq> StateClosed \<and> x = None \<and> c' = write_json 503 [''error'' \<mapsto> GStr ''circuit open, try again later''] c)
    else (x, c') = h c \<and> kg' = (k, g)"
proof (cases "CircuitBreakerEnabled cfg")
  case True
  obtain y c1 kg1 where e: "exec (breaker_settings cfg) k (guarded h) c g = ((y, c1), kg1)" by (metis surj_pair)
  obtain z c2 where z: "guarded h c = (z, c2)" by (cases "guarded h c")
  with assms(2) have "z \<notin> {Some ErrOpenState, Some ErrTooManyRequests}"
    by (auto simp: guarded_def split: prod.splits option.splits if_splits)
  with ran_or_rejected [OF e] assms(1) e True z show ?thesis
    by (auto simp: CircuitBreaker_def split: if_splits)
qed (use assms(1) in \<open>simp add: CircuitBreaker_def\<close>)

lemma breaker_step_fail:
  assumes "CircuitBreakerEnabled cfg" "st (fst kg) = StateClosed" "guarded h c = (Some y, c1)"
    "CircuitBreaker cfg exec h c kg = (r, kg')"
  shows "if int (unat (fails (fst kg) + 1)) \<ge> sint (CBMaxFailures cfg) then st (fst kg') = StateOpen
    else st (fst kg') = StateClosed \<and> fails (fst kg') = fails (fst kg) + 1"
proof -
  obtain x c' k' g' where e: "exec (breaker_settings cfg) (fst kg) (guarded h) c (snd kg) = ((x, c'), k', g')"
    by (metis surj_pair)
  with assms(1,4) have "kg' = (k', g')" by (auto simp: CircuitBreaker_def split: if_splits)
  with closed_fail [OF assms(2,3) e] show ?thesis by (simp add: breaker_settings_def)
qed

lemma serve_failures:
  assumes "CircuitBreakerEnabled cfg" "st (fst kg) = StateClosed"
    "\<forall>(h, c) \<in> set rs. fst (guarded h c) \<noteq> None"
    "serve cfg exec rs kg = (xs, kg')"
    "int (unat (fails (fst kg)) + length rs) \<le> sint (CBMaxFailures cfg)" "sint (CBMaxFailures cfg) < 2 ^ 32"
    "int (unat (fails (fst kg))) < sint (CBMaxFailures cfg)"
  shows "st (fst kg') = (if int (unat (fails (fst kg)) + length rs) < sint (CBMaxFailures cfg) then StateClosed else StateOpen)"
  using assms
proof (induction rs arbitrary: kg xs)
  case (Cons hc rs)
  obtain h c where hc: "hc = (h, c)" by (cases hc)
  obtain r kg1 where r: "CircuitBreaker cfg exec h c kg = (r, kg1)" by (metis surj_pair)
  obtain ys where rest: "serve cfg exec rs kg1 = (ys, kg')" using Cons.prems(4) r hc by (auto split: prod.splits)
  obtain y c1 where f: "guarded h c = (Some y, c1)"
    using Cons.prems(3) hc by (cases "guarded h c") auto
  have "int (unat (fails (fst kg))) + 1 < 2 ^ 32" using Cons.prems(6,7) by linarith
  then have "int (unat (fails (fst kg)) + 1) < int (2 ^ 32)" by simp
  then have "unat (fails (fst kg)) + 1 < 2 ^ 32" by (simp only: of_nat_less_iff)
  then have u: "unat (fails (fst kg) + 1) = unat (fails (fst kg)) + 1"
    by (simp add: unat_word_ariths)
  note step = breaker_step_fail [OF Cons.prems(1,2) f r]
  show ?case
  proof (cases "rs = []")
    case True
    with step u rest Cons.prems(5,7) show ?thesis by (auto split: if_splits)
  next
    case False
    then have len: "int (unat (fails (fst kg)) + 1) < sint (CBMaxFailures cfg)"
      using Cons.prems(5) by (cases rs) auto
    with step u have k1: "st (fst kg1) = StateClosed" "unat (fails (fst kg1)) = unat (fails (fst kg)) + 1"
      by (auto split: if_splits)
    show ?thesis
      using Cons.IH [OF Cons.prems(1) k1(1) _ rest _ Cons.prems(6)] Cons.prems(3,5) len k1(2) by simp
  qed
qed simp

end

section \<open>A breaker\<close>

text \<open>
  A breaker that keeps the contract for requests served one at a time. \<open>rb_expired\<close> says that
  the time out of the open state has passed.
\<close>

record rbreaker =
  rb_st :: cb_state
  rb_fails :: "32 word"
  rb_expired :: bool

definition rb_exec :: "cb_settings \<Rightarrow> (rbreaker, 'r, 'b) cb_execute" where
  "rb_exec s k f c g =
     (case rb_st k of
        StateHalfOpen \<Rightarrow> ((Some ErrTooManyRequests, c), k, g)
      | StateOpen \<Rightarrow>
          if \<not> rb_expired k then ((Some ErrOpenState, c), k, g)
          else (let (x, c') = f c; g1 = set_OnStateChange s StateOpen StateHalfOpen g
                in if x = None then ((x, c'), k\<lparr>rb_st := StateClosed, rb_fails := 0\<rparr>, set_OnStateChange s StateHalfOpen StateClosed g1)
                   else ((x, c'), k\<lparr>rb_expired := False\<rparr>, set_OnStateChange s StateHalfOpen StateOpen g1))
      | StateClosed \<Rightarrow>
          (let (x, c') = f c
           in if x = None then ((x, c'), k\<lparr>rb_fails := 0\<rparr>, g)
              else if set_ReadyToTrip s (rb_fails k + 1)
              then ((x, c'), k\<lparr>rb_st := StateOpen, rb_expired := False\<rparr>, set_OnStateChange s StateClosed StateOpen g)
              else ((x, c'), k\<lparr>rb_fails := rb_fails k + 1\<rparr>, g)))"

lemma rb_callbacks:
  assumes "rb_exec s k f c g = (r, k', g')"
  shows "\<exists>chs. g' = fold (\<lambda>(a, b). set_OnStateChange s a b) chs g \<and>
    (if chs = [] then rb_st k' = rb_st k else snd (last chs) = rb_st k')"
proof -
  let ?F = "\<lambda>chs. g' = fold (\<lambda>(a, b). set_OnStateChange s a b) chs g \<and>
    (if chs = [] then rb_st k' = rb_st k else snd (last chs) = rb_st k')"
  have "?F [] \<or> ?F [(StateOpen, StateHalfOpen), (StateHalfOpen, StateClosed)] \<or>
      ?F [(StateOpen, StateHalfOpen), (StateHalfOpen, StateOpen)] \<or> ?F [(StateClosed, StateOpen)]"
    using assms by (auto simp: rb_exec_def Let_def split: cb_state.splits prod.splits if_splits)
  then show ?thesis by blast
qed

lemma rb_closed:
  "rb_st k = StateClosed \<Longrightarrow> rb_exec s k f c g =
     (if fst (f c) = None then (f c, k\<lparr>rb_fails := 0\<rparr>, g)
      else if set_ReadyToTrip s (rb_fails k + 1)
      then (f c, k\<lparr>rb_st := StateOpen, rb_expired := False\<rparr>, set_OnStateChange s StateClosed StateOpen g)
      else (f c, k\<lparr>rb_fails := rb_fails k + 1\<rparr>, g))"
  by (simp add: rb_exec_def Let_def split: prod.splits)

lemma rb_result:
  "fst (rb_exec s k f c g) = f c \<or>
   (fst (fst (rb_exec s k f c g)) \<in> {Some ErrOpenState, Some ErrTooManyRequests} \<and>
    snd (fst (rb_exec s k f c g)) = c \<and> rb_st k \<noteq> StateClosed)"
  by (cases "rb_st k") (simp_all add: rb_exec_def Let_def split: prod.splits)

interpretation rb: gobreaker rb_exec rb_st rb_fails
proof (unfold_locales, goal_cases)
  case (1 s k f c g x c' kg')
  then show ?case using rb_result [of s k f c g] by simp
next
  case (2 k f c c1 s g r k' g')
  then show ?case by (auto simp: rb_closed)
next
  case (3 k f c y c1 s g r k' g')
  then show ?case by (auto simp: rb_closed split: if_splits)
next
  case (4 s k f c g r k' g')
  then show ?case by (rule rb_callbacks)
qed

definition rb0 :: rbreaker where
  "rb0 = \<lparr>rb_st = StateClosed, rb_fails = 0, rb_expired = False\<rparr>"

definition cb_cfg :: Config where
  "cb_cfg = default_config\<lparr>CircuitBreakerEnabled := True, CBMaxFailures := 2\<rparr>"

definition gauges0 :: cb_gauges where
  "gauges0 = breaker_gauges \<lparr>CircuitBreakerOpen = 7, CircuitBreakerState = (\<lambda>_. 7)\<rparr>"

definition ctx0 :: "(keyed_store, (string \<times> json) list) http_ctx" where
  "ctx0 = \<lparr>cx_world = world0, cx_method = ''POST'', cx_path = ''/api/v1/transactions'', cx_request_id = ''r1'',
     cx_status = Some 200, cx_body = None, cx_log = logger_Init ''test''\<rparr>"

text \<open>A handler that answers 500, and one that refuses with 422 as \<open>CreateTransaction\<close> does.\<close>

definition h500 :: "(keyed_store, (string \<times> json) list) http_handler" where
  "h500 = run_handler (\<lambda>w. (error_json 500 ''failed to save transaction'', w))"

definition h422 :: "(keyed_store, (string \<times> json) list) http_handler" where
  "h422 = run_handler (handle_CreateTransaction sync_svc env0 (Inr (req0\<lparr>req_Amount := 101\<rparr>)))"

lemmas cb_sample = rb0_def cb_cfg_def gauges0_def ctx0_def default_config_def

lemma guarded_h500: "fst (guarded h500 ctx0) = Some (HTTPError 500 ''Internal Server Error'')"
  by (simp add: guarded_def h500_def run_handler_def error_json_def write_json_def ctx0_def StatusText_def)

section \<open>Properties\<close>



text \<open>
  C27. The breaker opens exactly at the limit: while requests only fail, it stays closed for
  fewer than \<open>CBMaxFailures\<close> of them and is open after the \<open>CBMaxFailures\<close>-th.
\<close>

theorem breaker_trips_at_limit:
  assumes "gobreaker exec st fails" and "CircuitBreakerEnabled cfg"
    and "st k = StateClosed" "fails k = 0"
    and "\<forall>(h, c) \<in> set rs. fst (guarded h c) \<noteq> None"
    and "0 < sint (CBMaxFailures cfg)" "sint (CBMaxFailures cfg) < 2 ^ 32" "int (length rs) \<le> sint (CBMaxFailures cfg)"
    and "serve cfg exec rs (k, g) = (xs, k', g')"
  shows "st k' = (if int (length rs) < sint (CBMaxFailures cfg) then StateClosed else StateOpen)"
  using gobreaker.serve_failures [OF assms(1,2) _ assms(5,9)] assms(3,4,6-8) by simp

theorem breaker_trips_at_limit_witness:
  "rb_st (fst (snd (serve cb_cfg rb_exec [(h500, ctx0)] (rb0, gauges0)))) = StateClosed \<and>
   rb_st (fst (snd (serve cb_cfg rb_exec [(h500, ctx0), (h500, ctx0)] (rb0, gauges0)))) = StateOpen"
proof -
  have "rb_st (fst (snd (serve cb_cfg rb_exec rs (rb0, gauges0)))) =
      (if int (length rs) < sint (CBMaxFailures cb_cfg) then StateClosed else StateOpen)"
    if "set rs \<subseteq> {(h500, ctx0)}" "length rs \<le> 2" for rs
  proof (rule breaker_trips_at_limit [OF rb.gobreaker_axioms])
    show "\<forall>(h, c) \<in> set rs. fst (guarded h c) \<noteq> None" using that(1) guarded_h500 by auto
    show "serve cb_cfg rb_exec rs (rb0, gauges0) = (fst (serve cb_cfg rb_exec rs (rb0, gauges0)),
        fst (snd (serve cb_cfg rb_exec rs (rb0, gauges0))), snd (snd (serve cb_cfg rb_exec rs (rb0, gauges0))))" by simp
  qed (use that(2) in \<open>simp_all add: cb_sample\<close>)
  from this [of "[(h500, ctx0)]"] this [of "[(h500, ctx0), (h500, ctx0)]"] show ?thesis by (simp add: cb_cfg_def)
qed

text \<open>
  C26. A request either reaches its handler or is refused. When it reaches the handler, the
  middleware leaves what the handler wrote and returns the handler's error unchanged; when the
  handler returned none but wrote a status of 500 or more, it returns an HTTP error with that
  status and its text; otherwise it returns none. A request is refused only when the breaker is
  not closed: the answer is 503 with the shared state untouched. When the breaker is disabled
  every request reaches its handler and its result is passed on as it is. The handler does not
  itself return the breaker's two errors.
\<close>

theorem breaker_runs_or_503:
  assumes "gobreaker exec st fails"
    and "h c = (y, d)" "y \<notin> {Some ErrOpenState, Some ErrTooManyRequests}"
    and "CircuitBreaker cfg exec h c (k, g) = ((x, c'), kg')"
  shows "if CircuitBreakerEnabled cfg
    then (c' = d \<and> x = (case (y, cx_status d) of
              (None, Some status) \<Rightarrow> if 500 \<le> status then Some (HTTPError status (StatusText status)) else None
            | _ \<Rightarrow> y)) \<or>
         (st k \<noteq> StateClosed \<and> x = None \<and> c' = write_json 503 [''error'' \<mapsto> GStr ''circuit open, try again later''] c)
    else (x, c') = (y, d) \<and> kg' = (k, g)"
proof -
  have "fst (h c) \<notin> {Some ErrOpenState, Some ErrTooManyRequests}" using assms(2,3) by simp
  note out = gobreaker.breaker_outcome [OF assms(1,4) this]
  have "guarded h c = (case (y, cx_status d) of
      (None, Some status) \<Rightarrow> if 500 \<le> status then Some (HTTPError status (StatusText status)) else None | _ \<Rightarrow> y, d)"
    using assms(2) by (simp add: guarded_def split: option.split)
  with out assms(2) show ?thesis by auto
qed

theorem breaker_runs_or_503_witness:
  "fst (CircuitBreaker cb_cfg rb_exec h500 ctx0 (rb0, gauges0)) =
     (Some (HTTPError 500 ''Internal Server Error''), snd (h500 ctx0)) \<and>
   cx_status (snd (fst (CircuitBreaker cb_cfg rb_exec h500 ctx0 (rb0\<lparr>rb_st := StateOpen\<rparr>, gauges0)))) \<in> {Some 500, Some 503}"
proof -
  have h: "h500 ctx0 = (None, snd (h500 ctx0))" "cx_status (snd (h500 ctx0)) = Some 500"
    by (simp_all add: h500_def run_handler_def error_json_def write_json_def ctx0_def)
  obtain x c' kg' where r: "CircuitBreaker cb_cfg rb_exec h500 ctx0 (rb0, gauges0) = ((x, c'), kg')" by (metis surj_pair)
  obtain z d kg'' where q: "CircuitBreaker cb_cfg rb_exec h500 ctx0 (rb0\<lparr>rb_st := StateOpen\<rparr>, gauges0) = ((z, d), kg'')"
    by (metis surj_pair)
  have "x = Some (HTTPError 500 ''Internal Server Error'') \<and> c' = snd (h500 ctx0)"
    using breaker_runs_or_503 [OF rb.gobreaker_axioms h(1) _ r] h(2) by (simp add: cb_cfg_def rb0_def StatusText_def)
  moreover have "cx_status d \<in> {Some 500, Some 503}"
    using breaker_runs_or_503 [OF rb.gobreaker_axioms h(1) _ q] h(2) by (auto simp: cb_cfg_def write_json_def ctx0_def)
  ultimately show ?thesis using r q by simp
qed

text \<open>
  Refusals of the business rules open the breaker: a request whose handler returns an
  HTTP error below 500 counts as a failure, so \<open>CBMaxFailures\<close> payments from accounts short
  of funds close the service to everyone, although no response was a server error.
\<close>

theorem client_errors_open_breaker:
  assumes "gobreaker exec st fails" and "CircuitBreakerEnabled cfg"
    and "st k = StateClosed" "fails k = 0"
    and "\<forall>(h, c) \<in> set rs. \<exists>code msg c'. code < 500 \<and> h c = (Some (HTTPError code msg), c')"
    and "0 < sint (CBMaxFailures cfg)" "sint (CBMaxFailures cfg) < 2 ^ 32" "int (length rs) = sint (CBMaxFailures cfg)"
    and "serve cfg exec rs (k, g) = (xs, k', g')"
  shows "st k' = StateOpen"
proof -
  have "\<forall>(h, c) \<in> set rs. fst (guarded h c) \<noteq> None"
    using assms(5) by (fastforce simp: guarded_def)
  with gobreaker.serve_failures [OF assms(1,2) _ _ assms(9)] assms(3,4,6-8) show ?thesis by simp
qed

lemma h422_result: "\<exists>c'. h422 ctx0 = (Some (HTTPError 422 ''insufficient funds''), c')"
proof -
  let ?tx = "new_transaction (txn_id (next_value 9 0)) (req_input (req0\<lparr>req_Amount := 101\<rparr>)) 1"
  have v: "valid_req (req0\<lparr>req_Amount := 101\<rparr>)" by (simp add: valid_req_def req0_def)
  have s: "ts_queue sync_svc = None" "ts_db sync_svc = Some PrimaryDB" by (simp_all add: sync_svc_def)
  obtain w2 where w2: "db_of PrimaryDB w2 = db0"
    and run: "\<And>res w3. createSync sync_svc call0 PrimaryDB ?tx w2 = (res, w3) \<Longrightarrow>
       \<exists>w4. CreateTransaction sync_svc env0 (req_input (req0\<lparr>req_Amount := 101\<rparr>)) world0 = (res, w4)"
    using CreateTransaction_sync [OF s, of world0 env0 "req_input (req0\<lparr>req_Amount := 101\<rparr>)"]
    by (auto simp: env0_def) metis
  have "sync_body call0 ?tx db0 = Inl ErrInsufficientFunds"
    by (rule sync_body_short [where b = 10000]) (simp_all add: new_transaction_def req_input_def req0_def)
  with w2 have "createSync sync_svc call0 PrimaryDB ?tx w2 = (Inl ErrInsufficientFunds, w2)"
    by (simp add: createSync_body_Inl)
  from run [OF this] show ?thesis
    by (auto simp: h422_def run_handler_def handle_valid [OF v] ctx0_def)
qed

theorem client_errors_open_breaker_witness:
  "rb_st (fst (snd (serve cb_cfg rb_exec [(h422, ctx0), (h422, ctx0)] (rb0, gauges0)))) = StateOpen"
proof (rule client_errors_open_breaker [OF rb.gobreaker_axioms])
  let ?r = "serve cb_cfg rb_exec [(h422, ctx0), (h422, ctx0)] (rb0, gauges0)"
  show "?r = (fst ?r, fst (snd ?r), snd (snd ?r))" by simp
  obtain c' where c': "h422 ctx0 = (Some (HTTPError 422 ''insufficient funds''), c')" using h422_result by blast
  have "\<exists>code msg c''. code < 500 \<and> h422 ctx0 = (Some (HTTPError code msg), c'')"
    by (rule exI [of _ 422]) (simp add: c')
  then show "\<forall>(h, c) \<in> set [(h422, ctx0), (h422, ctx0)].
      \<exists>code msg c'. code < 500 \<and> h c = (Some (HTTPError code msg), c')" by simp
qed (simp_all add: cb_cfg_def rb0_def)

end
