(* ===== verification/RequestLog.thy ===== *)
theory RequestLog
  imports Middleware
begin

text \<open>
  The canonical log line: what \<open>RequestLogger\<close> emits for a payment request after the handler
  and the service have added their fields to the wide event.
\<close>

lemma createSync_event:
  assumes "createSync s e conn tx w = (res, w')"
  shows "event w' = event w"
  using assms by (auto simp: createSync_def split: sum.splits prod.splits option.splits)

lemma createSync_result:
  assumes "createSync s e conn tx w = (Inr t, w')"
  shows "t = tx\<lparr>tx_Status := StatusCompleted\<rparr>"
  using assms by (auto simp: createSync_Inr)

text \<open>The fields the service adds to the event \<open>ev\<close>, for the result of the synchronous path.\<close>

definition payment_fields :: "CreateTransactionInput \<Rightarrow> err + Transaction \<Rightarrow> wide_event \<Rightarrow> wide_event" where
  "payment_fields inp res ev =
     (let ev1 = ev(''source_account'' \<mapsto> LInt (in_SourceAccount inp), ''dest_account'' \<mapsto> LInt (in_DestAccount inp),
            ''amount'' \<mapsto> LFloat (in_Amount inp))
      in case res of
           Inl x \<Rightarrow> ev1(''transaction_error'' \<mapsto> LStr (Error x))
         | Inr t \<Rightarrow> ev1(''transaction_id'' \<mapsto> LStr (tx_ID t), ''transaction_status'' \<mapsto> LStr (tx_Status t)))"

lemma CreateTransaction_event:
  assumes "CreateTransaction s e inp w = (res, w')" "ts_queue s = None" "ts_db s = Some conn" "event w = Some ev"
  shows "event w' = Some (payment_fields inp res ev)"
proof -
  let ?w1 = "log_set ''amount'' (LFloat (in_Amount inp)) (log_set ''dest_account'' (LInt (in_DestAccount inp))
      (log_set ''source_account'' (LInt (in_SourceAccount inp)) w))"
  obtain k n where k: "nextTransactionID (re_nano e) (txCounter w) = (k, n)"
    by (cases "nextTransactionID (re_nano e) (txCounter w)")
  obtain r w3 where r: "createSync s (re_db e) conn (new_transaction k inp (re_now e)) (?w1\<lparr>txCounter := n\<rparr>) = (r, w3)"
    by (cases "createSync s (re_db e) conn (new_transaction k inp (re_now e)) (?w1\<lparr>txCounter := n\<rparr>)")
  have "event w3 = Some (ev(''source_account'' \<mapsto> LInt (in_SourceAccount inp), ''dest_account'' \<mapsto> LInt (in_DestAccount inp),
      ''amount'' \<mapsto> LFloat (in_Amount inp)))"
    using createSync_event [OF r] assms(4) by simp
  with assms(1-3) k r show ?thesis
    by (cases r) (auto simp: CreateTransaction_def payment_fields_def Let_def)
qed

lemma finite_final_event: "finite (dom e) \<Longrightarrow> finite (dom (final_event etext x elapsed c e))"
  by (simp add: final_event_def Let_def split: option.split)

lemma finite_payment_fields: "finite (dom e) \<Longrightarrow> finite (dom (payment_fields inp res e))"
  by (simp add: payment_fields_def Let_def split: sum.split)

text \<open>
  The middleware writes one line, the event its handler left, completed; it changes nothing
  else of what the handler did. A handler does not write to the logger itself.
\<close>

lemma RequestLogger_line:
  assumes "RequestLogger etext order elapsed nxt c = (x, c')" "ranges order" "sl_level (cx_log c) \<le> LevelInfo"
    and "nxt (c\<lparr>cx_world := (cx_world c)\<lparr>event := Some e\<rparr>\<rparr>) = (x', c2)"
    and "e = [''method'' \<mapsto> LStr (cx_method c), ''path'' \<mapsto> LStr (cx_path c)]"
    and "event (cx_world c2) = Some e'" "finite (dom e')" "cx_log c2 = cx_log c"
  obtains attrs where "x' = x"
    "sl_lines (cx_log c') = sl_lines (cx_log c) @ [\<lparr>lr_level = LevelInfo, lr_msg = ''request'', lr_attrs = attrs\<rparr>]"
    "map_of attrs = final_event etext x elapsed c2 e'" "cx_status c' = cx_status c2" "cx_body c' = cx_body c2"
    "sl_level (cx_log c') = sl_level (cx_log c)" "same_state (cx_world c') (cx_world c2)"
proof -
  let ?e2 = "final_event etext x elapsed c2 e'"
  have x: "x' = x" and c': "c' = c2\<lparr>cx_world := (cx_world c2)\<lparr>event := Some ?e2\<rparr>, cx_log := Emit order ?e2 (cx_log c2)\<rparr>"
    using assms(1,4,6) unfolding assms(5) by (auto simp: RequestLogger_def NewEvent_def WithEvent_def Let_def)
  obtain attrs where "sl_lines (cx_log c') = sl_lines (cx_log c) @ [\<lparr>lr_level = LevelInfo, lr_msg = ''request'', lr_attrs = attrs\<rparr>]"
    "map_of attrs = ?e2"
    using Emit_lines [OF assms(2) finite_final_event [OF assms(7)] assms(3), of etext x elapsed c2] c' assms(8) by auto
  then show thesis using that x c' assms(8) by (simp add: same_state_def)
qed

text \<open>
  C37. Every payment is logged once and completely: for a valid payment request on the synchronous
  path one line is written. It carries the request line, both accounts, the amount, the request
  identifier, the duration in milliseconds and the status the response had when the handler
  returned; the identifier and status of the transaction when the service made one and the text
  of the service's error when it did not, never both; and the text of the handler's error exactly
  when there is one. The middleware returns what the handler returned and leaves the response it
  wrote and the state it left behind, the event apart.
\<close>

theorem payment_is_logged:
  assumes "ts_queue s = None" "ts_db s = Some conn" "valid_req req"
    and "ranges order" "sl_level (cx_log c) \<le> LevelInfo"
    and "c1 = c\<lparr>cx_world := (cx_world c)\<lparr>event := Some [''method'' \<mapsto> LStr (cx_method c), ''path'' \<mapsto> LStr (cx_path c)]\<rparr>\<rparr>"
    and "CreateTransaction s e (req_input req) (cx_world c1) = (res, w2)"
    and "run_handler (handle_CreateTransaction s e (Inr req)) c1 = (y, c2)"
    and "RequestLogger etext order elapsed (run_handler (handle_CreateTransaction s e (Inr req))) c = (x, c')"
  shows "x = y \<and> cx_status c' = cx_status c2 \<and> cx_body c' = cx_body c2 \<and> same_state (cx_world c') w2 \<and>
    (\<exists>attrs. sl_lines (cx_log c') = sl_lines (cx_log c) @ [\<lparr>lr_level = LevelInfo, lr_msg = ''request'', lr_attrs = attrs\<rparr>] \<and>
    (let line = map_of attrs in
      line ''method'' = Some (LStr (cx_method c)) \<and> line ''path'' = Some (LStr (cx_path c)) \<and>
      line ''source_account'' = Some (LInt (req_SourceAccount req)) \<and>
      line ''dest_account'' = Some (LInt (req_DestAccount req)) \<and>
      line ''amount'' = Some (LFloat (req_Amount req)) \<and>
      line ''request_id'' = Some (LStr (cx_request_id c)) \<and>
      line ''duration_ms'' = Some (LMillis (elapsed div 1000000)) \<and>
      line ''status'' = map_option (\<lambda>st. LInt (of_nat st)) (cx_status c2) \<and>
      line ''error'' = map_option (\<lambda>z. LStr (etext z)) y \<and>
      line ''transaction_id'' = (case res of Inl _ \<Rightarrow> None | Inr t \<Rightarrow> Some (LStr (tx_ID t))) \<and>
      line ''transaction_status'' = (case res of Inl _ \<Rightarrow> None | Inr t \<Rightarrow> Some (LStr (tx_Status t))) \<and>
      line ''transaction_error'' = (case res of Inl z \<Rightarrow> Some (LStr (Error z)) | Inr _ \<Rightarrow> None)))"
proof -
  let ?ev = "[''method'' \<mapsto> LStr (cx_method c), ''path'' \<mapsto> LStr (cx_path c)]"
  have ev: "event w2 = Some (payment_fields (req_input req) res ?ev)"
    by (rule CreateTransaction_event [OF assms(7,1,2)]) (simp add: assms(6))
  have c2: "cx_world c2 = w2" "cx_request_id c2 = cx_request_id c" "cx_log c2 = cx_log c"
    using assms(6-8) by (auto simp: run_handler_def handle_valid [OF assms(3)] write_json_def error_json_def
        split: sum.splits if_splits)
  obtain attrs where same: "y = x" "cx_status c' = cx_status c2" "cx_body c' = cx_body c2" "same_state (cx_world c') (cx_world c2)"
    and line: "sl_lines (cx_log c') = sl_lines (cx_log c) @ [\<lparr>lr_level = LevelInfo, lr_msg = ''request'', lr_attrs = attrs\<rparr>]"
    and m: "map_of attrs = final_event etext x elapsed c2 (payment_fields (req_input req) res ?ev)"
    using RequestLogger_line [OF assms(9,4,5) assms(8) [unfolded assms(6)] refl, of "payment_fields (req_input req) res ?ev"]
      ev c2 finite_payment_fields [of ?ev] by auto
  have "final_event etext x elapsed c2 (payment_fields (req_input req) res ?ev) k =
    (if k = ''error'' \<and> x \<noteq> None then map_option (\<lambda>z. LStr (etext z)) x
     else if k = ''duration_ms'' then Some (LMillis (elapsed div 1000000))
     else if k = ''request_id'' then Some (LStr (cx_request_id c))
     else if k = ''status'' \<and> cx_status c2 \<noteq> None then map_option (\<lambda>st. LInt (of_nat st)) (cx_status c2)
     else payment_fields (req_input req) res ?ev k)" for k
    using c2(2) by (auto simp: final_event_def Let_def split: option.split)
  with m same(1) have "let line = map_of attrs in
      line ''method'' = Some (LStr (cx_method c)) \<and> line ''path'' = Some (LStr (cx_path c)) \<and>
      line ''source_account'' = Some (LInt (req_SourceAccount req)) \<and>
      line ''dest_account'' = Some (LInt (req_DestAccount req)) \<and>
      line ''amount'' = Some (LFloat (req_Amount req)) \<and>
      line ''request_id'' = Some (LStr (cx_request_id c)) \<and>
      line ''duration_ms'' = Some (LMillis (elapsed div 1000000)) \<and>
      line ''status'' = map_option (\<lambda>st. LInt (of_nat st)) (cx_status c2) \<and>
      line ''error'' = map_option (\<lambda>z. LStr (etext z)) y \<and>
      line ''transaction_id'' = (case res of Inl _ \<Rightarrow> None | Inr t \<Rightarrow> Some (LStr (tx_ID t))) \<and>
      line ''transaction_status'' = (case res of Inl _ \<Rightarrow> None | Inr t \<Rightarrow> Some (LStr (tx_Status t))) \<and>
      line ''transaction_error'' = (case res of Inl z \<Rightarrow> Some (LStr (Error z)) | Inr _ \<Rightarrow> None)"
    by (cases res) (auto simp: payment_fields_def Let_def req_input_def)
  with same line c2(1) show ?thesis by blast
qed

definition http0 :: "(keyed_store, (string \<times> json) list) http_ctx" where
  "http0 = \<lparr>cx_world = world0, cx_method = ''POST'', cx_path = ''/api/v1/transactions'', cx_request_id = ''r1'',
     cx_status = Some 200, cx_body = None, cx_log = logger_Init ''test''\<rparr>"

text \<open>The keys in lexicographic order are one way to range over a map.\<close>

definition key_order :: "wide_event \<Rightarrow> string list" where
  "key_order e = sorted_list_of_set (dom e)"

lemma ranges_key_order: "ranges key_order"
  by (simp add: ranges_def key_order_def)

definition etext0 :: "herr \<Rightarrow> string" where
  "etext0 x = (case x of HTTPError code msg \<Rightarrow> msg | ErrOpenState \<Rightarrow> ''open'' | ErrTooManyRequests \<Rightarrow> ''busy'')"

theorem payment_is_logged_witness:
  "length (sl_lines (cx_log (snd (RequestLogger etext0 key_order 7000000
     (run_handler (handle_CreateTransaction sync_svc env0 (Inr req0))) http0)))) = 2"
proof -
  have v: "valid_req req0" by (simp add: valid_req_def req0_def)
  have s: "ts_queue sync_svc = None" "ts_db sync_svc = Some PrimaryDB" by (simp_all add: sync_svc_def)
  have l: "sl_level (cx_log http0) \<le> LevelInfo" using logger_Init_ready by (simp add: http0_def)
  have one: "length (sl_lines (cx_log http0)) = 1" by (simp add: http0_def logger_Init_def slog_Log_def)
  let ?h = "run_handler (handle_CreateTransaction sync_svc env0 (Inr req0))"
  obtain x c' where r: "RequestLogger etext0 key_order 7000000 ?h http0 = (x, c')" by (metis surj_pair)
  from payment_is_logged [OF s v ranges_key_order l refl prod.collapse [symmetric] prod.collapse [symmetric] r] r one
  show ?thesis by auto
qed

end
