(* ===== verification/Api.thy ===== *)
theory Api
  imports Server Breaker RequestLog
begin

text \<open>
  A request through the whole program: the endpoint \<open>main\<close> registered for its route, run by
  the services \<open>boot\<close> wired, inside the request log, inside the circuit breaker, in the order
  in which \<open>main\<close> installs the middlewares.
\<close>

section \<open>Endpoints\<close>

record api_request =
  rq_route :: route
  rq_param :: string
  rq_bound :: "err + CreateTransactionReq"

text \<open>\<open>prom\<close> is the handler of the metrics library.\<close>

definition endpoint ::
  "('r, 'b, 'n, 'c, 'd) server \<Rightarrow> ('r, ('b, 'n, 'c) queue_state) http_handler \<Rightarrow> req_env \<Rightarrow> api_request \<Rightarrow>
   ('r, ('b, 'n, 'c) queue_state) http_handler" where
  "endpoint srv prom e rq =
     (case rq_route rq of
        RouteMetrics \<Rightarrow> prom
      | RouteGetBalance \<Rightarrow> run_handler (handle_GetBalance (srv_accountSvc srv) (rq_param rq))
      | RouteCreateTransaction \<Rightarrow> run_handler (handle_CreateTransaction (srv_txSvc srv) e (rq_bound rq))
      | RouteGetTransactionStatus \<Rightarrow> run_handler (handle_GetTransactionStatus (srv_txSvc srv) (rq_param rq)))"

text \<open>
  \<open>CircuitBreaker\<close>, then \<open>RequestID\<close>, which sets the header of the response, then
  \<open>RequestLogger\<close>.
\<close>

definition api ::
  "(herr \<Rightarrow> string) \<Rightarrow> Config \<Rightarrow> (cb_settings \<Rightarrow> ('k, 'r, 'b) cb_execute) \<Rightarrow> (wide_event \<Rightarrow> string list) \<Rightarrow> duration \<Rightarrow> string \<Rightarrow>
   ('r, 'b) http_handler \<Rightarrow> ('r, 'b) http_ctx \<Rightarrow> 'k \<times> cb_gauges \<Rightarrow> (herr option \<times> ('r, 'b) http_ctx) \<times> 'k \<times> cb_gauges" where
  "api etext cfg exec order elapsed rid h c kg =
     CircuitBreaker cfg exec (\<lambda>c. RequestLogger etext order elapsed h (c\<lparr>cx_request_id := rid\<rparr>)) c kg"

section \<open>What an endpoint does to the event\<close>

definition event_extends :: "('r, 'b) world \<Rightarrow> ('r, 'b) world \<Rightarrow> bool" where
  "event_extends w w' \<longleftrightarrow> (\<forall>e. event w = Some e \<longrightarrow> finite (dom e) \<longrightarrow>
     (\<exists>e'. event w' = Some e' \<and> finite (dom e') \<and> e' ''method'' = e ''method'' \<and> e' ''path'' = e ''path''))"

lemma event_extends_refl [simp]: "event_extends w w"
  by (simp add: event_extends_def)

lemma event_extends_trans [trans]: "event_extends w w1 \<Longrightarrow> event_extends w1 w2 \<Longrightarrow> event_extends w w2"
  unfolding event_extends_def by metis

lemma event_extends_log [simp]:
  "k \<noteq> ''method'' \<Longrightarrow> k \<noteq> ''path'' \<Longrightarrow> event_extends w w' \<Longrightarrow> event_extends w (log_set k v w')"
  unfolding event_extends_def by fastforce

lemma event_extends_same: "event w' = event w1 \<Longrightarrow> event_extends w w1 \<Longrightarrow> event_extends w w'"
  by (simp add: event_extends_def)

lemma event_extends_frame [simp]:
  "event_extends w (CacheHits_Inc l w1) = event_extends w w1"
  "event_extends w (CacheMisses_Inc l w1) = event_extends w w1"
  "event_extends w (w1\<lparr>kv := r\<rparr>) = event_extends w w1"
  "event_extends w (w1\<lparr>txCounter := n\<rparr>) = event_extends w w1"
  "event_extends w (w1\<lparr>broker := b\<rparr>) = event_extends w w1"
  by (simp_all add: event_extends_def)

lemma GetBalance_extends: "event_extends w (snd (GetBalance s i w))"
  by (simp add: GetBalance_def Let_def split: option.split sum.split)

lemma GetTransactionStatus_extends: "event_extends w (snd (GetTransactionStatus s k w))"
  by (simp add: GetTransactionStatus_def Let_def split: option.split sum.split)

text \<open>The repositories \<open>main\<close> can install leave the event alone.\<close>

definition quiet_repo :: "('r, 'b) world transaction_repository \<Rightarrow> bool" where
  "quiet_repo repo \<longleftrightarrow> (\<forall>w t. event (snd (txn_Save repo w t)) = event w) \<and>
     (\<forall>w k st. event (snd (txn_UpdateStatus repo w k st)) = event w)"

lemma wire_tx_repo_quiet: "quiet_repo (wire_tx_repo pe db rep)"
  by (auto simp: quiet_repo_def wire_tx_repo_def mem_tx_repo_def mem_tx_Save_def mem_tx_UpdateStatus_def
      pg_tx_Save_def pg_tx_UpdateStatus_def split: option.split prod.split)

lemma createAsync_event:
  assumes "quiet_repo (ts_repo s)"
  shows "event (snd (createAsync s pub tx w)) = event w"
proof -
  have sv: "event w1 = event w0" if "txn_Save (ts_repo s) w0 t = (x, w1)" for w0 t x w1
    using assms that unfolding quiet_repo_def by (metis snd_conv)
  have up: "event (snd (txn_UpdateStatus (ts_repo s) w0 k st)) = event w0" for w0 k st
    using assms unfolding quiet_repo_def by blast
  show ?thesis
    by (auto simp: createAsync_def Let_def up dest: sv split: prod.split option.split)
qed

lemma save_memory_event: "quiet_repo (ts_repo s) \<Longrightarrow> event (snd (save_memory s tx w)) = event w"
  unfolding quiet_repo_def save_memory_def Let_def by (auto split: prod.split option.split) (metis snd_conv)+

lemma CreateTransaction_extends:
  assumes "quiet_repo (ts_repo s)"
  shows "event_extends w (snd (CreateTransaction s e inp w))"
proof -
  let ?w1 = "log_set ''amount'' (LFloat (in_Amount inp)) (log_set ''dest_account'' (LInt (in_DestAccount inp))
      (log_set ''source_account'' (LInt (in_SourceAccount inp)) w))"
  obtain k n where k: "nextTransactionID (re_nano e) (txCounter w) = (k, n)"
    by (cases "nextTransactionID (re_nano e) (txCounter w)")
  let ?tx = "new_transaction k inp (re_now e)" and ?w2 = "?w1\<lparr>txCounter := n\<rparr>"
  let ?run = "case ts_queue s of Some pub \<Rightarrow> createAsync s pub ?tx ?w2
     | None \<Rightarrow> (case ts_db s of Some conn \<Rightarrow> createSync s (re_db e) conn ?tx ?w2 | None \<Rightarrow> save_memory s ?tx ?w2)"
  obtain r w3 where r: "?run = (r, w3)" by (metis surj_pair)
  have "event w3 = event ?w2"
  proof (cases "ts_queue s")
    case None
    then show ?thesis
      using r save_memory_event [OF assms, of ?tx ?w2] by (cases "ts_db s") (auto dest: createSync_event)
  next
    case (Some pub)
    then show ?thesis using r createAsync_event [OF assms, of pub ?tx ?w2] by simp
  qed
  then have "event_extends w w3" by (rule event_extends_same) simp
  with k r show ?thesis by (auto simp: CreateTransaction_def Let_def split: sum.split)
qed

lemma handlers_extend:
  "event_extends w (snd (handle_GetBalance svc idStr w))"
  "event_extends w (snd (handle_GetTransactionStatus s k w))"
  "quiet_repo (ts_repo s) \<Longrightarrow> event_extends w (snd (handle_CreateTransaction s e bound w))"
proof -
  show "event_extends w (snd (handle_GetBalance svc idStr w))"
    using GetBalance_extends [of w svc]
    by (auto simp: handle_GetBalance_def dest: sym split: option.split sum.split prod.split) (metis snd_conv)+
  show "event_extends w (snd (handle_GetTransactionStatus s k w))"
    using GetTransactionStatus_extends [of w s k]
    by (cases "GetTransactionStatus s k w") (auto simp: handle_GetTransactionStatus_def split: sum.split)
  show "event_extends w (snd (handle_CreateTransaction s e bound w))" if "quiet_repo (ts_repo s)"
  proof (cases bound)
    case (Inr req)
    then show ?thesis
      using CreateTransaction_extends [OF that, of w e "req_input req"]
      by (cases "CreateTransaction s e (req_input req) w") (auto simp: handle_CreateTransaction_def split: sum.split)
  qed (simp add: handle_CreateTransaction_def)
qed

lemma run_handler_extends:
  assumes "\<And>w. event_extends w (snd (h w))" "run_handler h c = (x, c')"
  shows "event_extends (cx_world c) (cx_world c')" "cx_log c' = cx_log c"
    "x \<noteq> Some ErrOpenState" "x \<noteq> Some ErrTooManyRequests"
  using assms(1) [of "cx_world c"] assms(2)
  by (auto simp: run_handler_def write_json_def split: prod.splits response.splits)

lemma endpoint_extends:
  assumes "boot out a cl pe b = (Inr srv, b')" "rq_route rq \<noteq> RouteMetrics" "endpoint srv prom e rq c = (x, c')"
  shows "event_extends (cx_world c) (cx_world c')" "cx_log c' = cx_log c"
    "x \<noteq> Some ErrOpenState" "x \<noteq> Some ErrTooManyRequests"
proof -
  have q: "quiet_repo (ts_repo (srv_txSvc srv))"
    using assms(1) by (rule boot_Inr) (simp add: NewTransactionService_def wire_tx_repo_quiet)
  define h where "h = (case rq_route rq of
        RouteGetBalance \<Rightarrow> handle_GetBalance (srv_accountSvc srv) (rq_param rq)
      | RouteCreateTransaction \<Rightarrow> handle_CreateTransaction (srv_txSvc srv) e (rq_bound rq)
      | _ \<Rightarrow> handle_GetTransactionStatus (srv_txSvc srv) (rq_param rq))"
  have ext: "event_extends w (snd (h w))" for w
    by (simp add: h_def handlers_extend(1,2) handlers_extend(3) [OF q] split: route.split)
  have "endpoint srv prom e rq = run_handler h"
    using assms(2) by (simp add: endpoint_def h_def split: route.splits)
  with assms(3) run_handler_extends [OF ext] show "event_extends (cx_world c) (cx_world c')" "cx_log c' = cx_log c"
    "x \<noteq> Some ErrOpenState" "x \<noteq> Some ErrTooManyRequests" by auto
qed

section \<open>Properties\<close>

text \<open>The context in which an endpoint runs: the identifier is set and the event begins with the request line.\<close>

definition begun :: "string \<Rightarrow> ('r, 'b) http_ctx \<Rightarrow> ('r, 'b) http_ctx" where
  "begun rid c = c\<lparr>cx_request_id := rid, cx_world := (cx_world c)\<lparr>event :=
     Some [''method'' \<mapsto> LStr (cx_method c), ''path'' \<mapsto> LStr (cx_path c)]\<rparr>\<rparr>"

text \<open>The line of a request that reached its endpoint, and what the endpoint did.\<close>

lemma logged_endpoint:
  assumes boot: "boot out a cl pe b = (Inr srv, b')" "rq_route rq \<noteq> RouteMetrics"
    and log: "ranges order" "sl_level (cx_log c) \<le> LevelInfo"
    and c2: "endpoint srv prom e rq (begun rid c) = (y, d)"
    and run: "RequestLogger etext order elapsed (endpoint srv prom e rq) (c\<lparr>cx_request_id := rid\<rparr>) = (x, c')"
  obtains attrs where
    "sl_lines (cx_log c') = sl_lines (cx_log c) @ [\<lparr>lr_level = LevelInfo, lr_msg = ''request'', lr_attrs = attrs\<rparr>]"
    "map_of attrs ''method'' = Some (LStr (cx_method c))" "map_of attrs ''path'' = Some (LStr (cx_path c))"
    "map_of attrs ''request_id'' = Some (LStr rid)"
    "x = y" "cx_status c' = cx_status d" "cx_body c' = cx_body d" "same_state (cx_world c') (cx_world d)"
    "x \<noteq> Some ErrOpenState" "x \<noteq> Some ErrTooManyRequests"
proof -
  let ?ev = "[''method'' \<mapsto> LStr (cx_method c), ''path'' \<mapsto> LStr (cx_path c)]"
  let ?c = "c\<lparr>cx_request_id := rid\<rparr>"
  have b: "begun rid c = ?c\<lparr>cx_world := (cx_world ?c)\<lparr>event := Some ?ev\<rparr>\<rparr>" by (simp add: begun_def)
  note ext = endpoint_extends [OF boot c2]
  have "finite (dom ?ev)" "event (cx_world (begun rid c)) = Some ?ev" by (simp_all add: begun_def)
  with ext(1) obtain e' where e': "event (cx_world d) = Some e'" "finite (dom e')"
    "e' ''method'' = ?ev ''method''" "e' ''path'' = ?ev ''path''"
    unfolding event_extends_def by blast
  have id: "cx_request_id d = rid" "cx_log d = cx_log c"
    using c2 boot(2) ext(2)
    by (auto simp: begun_def endpoint_def run_handler_def write_json_def split: route.splits prod.splits response.splits)
  obtain attrs where at: "y = x" "cx_status c' = cx_status d" "cx_body c' = cx_body d" "same_state (cx_world c') (cx_world d)"
    "sl_lines (cx_log c') = sl_lines (cx_log c) @ [\<lparr>lr_level = LevelInfo, lr_msg = ''request'', lr_attrs = attrs\<rparr>]"
    "map_of attrs = final_event etext x elapsed d e'"
    by (rule RequestLogger_line [OF run log(1) _ c2 [unfolded b] _ e'(1,2)]) (use log(2) id(2) in \<open>simp_all add: fun_eq_iff\<close>)
  from at(6) e'(3,4) id(1) have "map_of attrs ''method'' = Some (LStr (cx_method c))"
    "map_of attrs ''path'' = Some (LStr (cx_path c))" "map_of attrs ''request_id'' = Some (LStr rid)"
    by (simp_all add: final_event_def Let_def split: option.split)
  with that at ext(3,4) show thesis by simp
qed

text \<open>
  C38. A request leaves exactly one log line exactly when the breaker lets it through. Then the
  line carries its method, path and request identifier, the response is what the endpoint wrote,
  the shared state is what the endpoint left, the event apart, and the error returned is the
  endpoint's, or, with the breaker enabled and none returned, an HTTP error for a status of 500 or
  more that it wrote. Otherwise the breaker was not closed, the client gets 503, and nothing else
  happened, not even a log line. The server is one that \<open>boot\<close> put together and the request is
  for any endpoint of the API.
\<close>

theorem request_logged_iff_admitted:
  assumes "gobreaker exec st fails" and "boot out a cl pe b = (Inr srv, b')" "rq_route rq \<noteq> RouteMetrics"
    and "ranges order" "sl_level (cx_log c) \<le> LevelInfo"
    and "endpoint srv prom e rq (begun rid c) = (y, d)"
    and "api etext cfg exec order elapsed rid (endpoint srv prom e rq) c (k, g) = ((x, c'), kg')"
  shows "(\<exists>attrs. sl_lines (cx_log c') = sl_lines (cx_log c) @ [\<lparr>lr_level = LevelInfo, lr_msg = ''request'', lr_attrs = attrs\<rparr>] \<and>
      map_of attrs ''method'' = Some (LStr (cx_method c)) \<and> map_of attrs ''path'' = Some (LStr (cx_path c)) \<and>
      map_of attrs ''request_id'' = Some (LStr rid) \<and>
      cx_status c' = cx_status d \<and> cx_body c' = cx_body d \<and> same_state (cx_world c') (cx_world d) \<and>
      x = (case (y, cx_status d) of
             (None, Some status) \<Rightarrow>
               if CircuitBreakerEnabled cfg \<and> 500 \<le> status then Some (HTTPError status (StatusText status)) else None
           | _ \<Rightarrow> y)) \<or>
    (CircuitBreakerEnabled cfg \<and> st k \<noteq> StateClosed \<and> x = None \<and>
      c' = write_json 503 [''error'' \<mapsto> GStr ''circuit open, try again later''] c)"
proof -
  let ?h = "\<lambda>c. RequestLogger etext order elapsed (endpoint srv prom e rq) (c\<lparr>cx_request_id := rid\<rparr>)"
  obtain z d1 where z: "?h c = (z, d1)" by (metis surj_pair)
  obtain attrs where at: "sl_lines (cx_log d1) = sl_lines (cx_log c) @ [\<lparr>lr_level = LevelInfo, lr_msg = ''request'', lr_attrs = attrs\<rparr>]"
    "map_of attrs ''method'' = Some (LStr (cx_method c))" "map_of attrs ''path'' = Some (LStr (cx_path c))"
    "map_of attrs ''request_id'' = Some (LStr rid)"
    and zy: "z = y" "cx_status d1 = cx_status d" "cx_body d1 = cx_body d" "same_state (cx_world d1) (cx_world d)"
    and ne: "z \<noteq> Some ErrOpenState" "z \<noteq> Some ErrTooManyRequests"
    by (rule logged_endpoint [OF assms(2-6) z])
  have "fst (?h c) \<notin> {Some ErrOpenState, Some ErrTooManyRequests}" using z ne by simp
  note out = gobreaker.breaker_outcome [OF assms(1) assms(7) [unfolded api_def] this]
  have g: "guarded ?h c = (case (y, cx_status d) of
      (None, Some status) \<Rightarrow> if 500 \<le> status then Some (HTTPError status (StatusText status)) else None | _ \<Rightarrow> y, d1)"
    using z zy(1,2) by (simp add: guarded_def split: option.split)
  consider "c' = d1" "x = (case (y, cx_status d) of
             (None, Some status) \<Rightarrow>
               if CircuitBreakerEnabled cfg \<and> 500 \<le> status then Some (HTTPError status (StatusText status)) else None
           | _ \<Rightarrow> y)"
    | "CircuitBreakerEnabled cfg" "st k \<noteq> StateClosed" "x = None"
      "c' = write_json 503 [''error'' \<mapsto> GStr ''circuit open, try again later''] c"
    using out unfolding g z zy(1) by (auto split: if_splits option.splits)
  then show ?thesis
  proof cases
    case 1
    with at zy(2-4) show ?thesis by blast
  qed simp
qed

text \<open>A balance request to the sample server, with the breaker closed and enabled.\<close>

definition rq_balance :: api_request where
  "rq_balance = \<lparr>rq_route = RouteGetBalance, rq_param = ''1001'', rq_bound = Inl (ErrExt ''unused'')\<rparr>"

definition http_sim :: "(keyed_store, (sim_broker, nat, nat) queue_state) http_ctx" where
  "http_sim = \<lparr>cx_world = sim_world, cx_method = ''GET'', cx_path = ''/api/v1/accounts/1001/balance'',
     cx_request_id = '''', cx_status = Some 200, cx_body = None, cx_log = logger_Init ''test''\<rparr>"

theorem request_logged_iff_admitted_witness:
  "length (sl_lines (cx_log (snd (fst (api etext0 cb_cfg rb_exec key_order 5 ''r7''
     (endpoint (srv0 ''postgres'') (\<lambda>c. (None, c)) env0 rq_balance) http_sim (rb0, gauges0)))))) = 2"
proof -
  obtain x c' kg' where r: "api etext0 cb_cfg rb_exec key_order 5 ''r7'' (endpoint (srv0 ''postgres'') (\<lambda>c. (None, c)) env0 rq_balance)
      http_sim (rb0, gauges0) = ((x, c'), kg')" by (metis surj_pair)
  have l: "sl_level (cx_log http_sim) \<le> LevelInfo" "length (sl_lines (cx_log http_sim)) = 1"
    using logger_Init_ready by (simp_all add: http_sim_def) (simp add: logger_Init_def slog_Log_def)
  have "rq_route rq_balance \<noteq> RouteMetrics" by (simp add: rq_balance_def)
  from request_logged_iff_admitted [OF rb.gobreaker_axioms boot0(1) this ranges_key_order l(1) prod.collapse [symmetric] r] l(2) r
  show ?thesis by (auto simp: rb0_def)
qed

text \<open>
  The status in the line of a refused payment is the one the response had before the
  refusal: the handler returns an error, and the framework turns it into 422 only after the
  middleware has written the line.
\<close>

lemma refusal_logs_old_status:
  assumes "h (cx_world (c\<lparr>cx_world := (cx_world c)\<lparr>event := Some e\<rparr>\<rparr>)) = (RespErr code msg, w)"
    and "e = [''method'' \<mapsto> LStr (cx_method c), ''path'' \<mapsto> LStr (cx_path c)]"
    and "event w = Some e'" "finite (dom e')" "ranges order" "sl_level (cx_log c) \<le> LevelInfo" "cx_status c = Some st0"
    and "RequestLogger etext order elapsed (run_handler h) c = (x, c')"
  shows "x = Some (HTTPError code msg) \<and>
    (\<exists>attrs. sl_lines (cx_log c') = sl_lines (cx_log c) @ [\<lparr>lr_level = LevelInfo, lr_msg = ''request'', lr_attrs = attrs\<rparr>] \<and>
      map_of attrs ''status'' = Some (LInt (of_nat st0)))"
proof -
  let ?c1 = "c\<lparr>cx_world := (cx_world c)\<lparr>event := Some e\<rparr>\<rparr>"
  have h: "run_handler h ?c1 = (Some (HTTPError code msg), ?c1\<lparr>cx_world := w\<rparr>)"
    using assms(1) by (simp add: run_handler_def)
  obtain attrs where "Some (HTTPError code msg) = x"
    "sl_lines (cx_log c') = sl_lines (cx_log c) @ [\<lparr>lr_level = LevelInfo, lr_msg = ''request'', lr_attrs = attrs\<rparr>]"
    "map_of attrs = final_event etext x elapsed (?c1\<lparr>cx_world := w\<rparr>) e'"
    by (rule RequestLogger_line [OF assms(8,5,6) h assms(2), of e']) (use assms(3,4) in simp_all)
  then show ?thesis using assms(7) by (auto simp: final_event_def Let_def)
qed

end
