(* ===== verification/WorkerPool.thy ===== *)
theory WorkerPool
  imports Worker "HOL-Library.Multiset"
begin

text \<open>
  The pool of \<open>Worker.Start\<close> (\<open>internal/worker/transaction.go\<close>): \<open>concurrency\<close> goroutines
  that receive deliveries from one channel until the context is cancelled or the channel is
  closed, and a parent that waits for each of them on the unbuffered channel \<open>done\<close>. Every
  rule is one communication or one call of \<open>process\<close>; the scheduler may take them in any
  order.
\<close>

section \<open>State and steps\<close>

datatype goroutine = Waiting | Busy bytes | Leaving | Gone

record ('r, 'b) pool_state =
  ps_msgs :: "bytes list"
  ps_closed :: bool
  ps_cancelled :: bool
  ps_gs :: "goroutine list"
  ps_received :: nat
  ps_world :: "('r, 'b) world"
  ps_acks :: "(bytes \<times> ack_call) list"

text \<open>
  \<open>Start\<close>: a failing \<open>Consume\<close> ends it at once (\<open>None\<close>); otherwise the goroutines are spawned.
  \<open>range concurrency\<close> over a negative number is empty.
\<close>

definition Start ::
  "('r, 'b, 'd) worker \<Rightarrow> int64 \<Rightarrow> ('r, 'b) world \<Rightarrow> ('r, 'b) pool_state option \<times> ('r, 'b) world" where
  "Start wk concurrency w =
     (case wk_queue wk (broker w) ''transactions'' of
        (Inl x, b) \<Rightarrow> (None, w\<lparr>broker := b\<rparr>)
      | (Inr ch, b) \<Rightarrow>
          (Some \<lparr>ps_msgs = [], ps_closed = False, ps_cancelled = False,
                 ps_gs = replicate (nat (sint concurrency)) Waiting, ps_received = 0,
                 ps_world = w\<lparr>broker := b\<rparr>, ps_acks = []\<rparr>, w\<lparr>broker := b\<rparr>))"

text \<open>What the pool itself does.\<close>

inductive pool_step :: "('r, 'b, 'd) worker \<Rightarrow> ('r, 'b) pool_state \<Rightarrow> ('r, 'b) pool_state \<Rightarrow> bool" for wk where
  receive: "i < length (ps_gs s) \<Longrightarrow> ps_gs s ! i = Waiting \<Longrightarrow> ps_msgs s = m # ms \<Longrightarrow>
     pool_step wk s (s\<lparr>ps_msgs := ms, ps_gs := (ps_gs s)[i := Busy m]\<rparr>)"
| handle: "i < length (ps_gs s) \<Longrightarrow> ps_gs s ! i = Busy m \<Longrightarrow> process wk e m (ps_world s) = (a, w') \<Longrightarrow>
     pool_step wk s (s\<lparr>ps_gs := (ps_gs s)[i := Waiting], ps_world := w', ps_acks := (m, a) # ps_acks s\<rparr>)"
| cancelled: "i < length (ps_gs s) \<Longrightarrow> ps_gs s ! i = Waiting \<Longrightarrow> ps_cancelled s \<Longrightarrow>
     pool_step wk s (s\<lparr>ps_gs := (ps_gs s)[i := Leaving]\<rparr>)"
| closed: "i < length (ps_gs s) \<Longrightarrow> ps_gs s ! i = Waiting \<Longrightarrow> ps_closed s \<Longrightarrow> ps_msgs s = [] \<Longrightarrow>
     pool_step wk s (s\<lparr>ps_gs := (ps_gs s)[i := Leaving]\<rparr>)"
| joined: "i < length (ps_gs s) \<Longrightarrow> ps_gs s ! i = Leaving \<Longrightarrow>
     pool_step wk s (s\<lparr>ps_gs := (ps_gs s)[i := Gone], ps_received := Suc (ps_received s)\<rparr>)"

text \<open>What happens around it: deliveries, a closed channel, a cancelled context.\<close>

inductive env_step :: "('r, 'b) pool_state \<Rightarrow> ('r, 'b) pool_state \<Rightarrow> bool" where
  deliver: "\<not> ps_closed s \<Longrightarrow> env_step s (s\<lparr>ps_msgs := ps_msgs s @ [m]\<rparr>)"
| close: "env_step s (s\<lparr>ps_closed := True\<rparr>)"
| cancel: "env_step s (s\<lparr>ps_cancelled := True\<rparr>)"
| other: "env_step s (s\<lparr>ps_world := w\<rparr>)"

inductive pool_reach ::
  "('r, 'b, 'd) worker \<Rightarrow> ('r, 'b) pool_state \<Rightarrow> bytes list \<Rightarrow> ('r, 'b) pool_state \<Rightarrow> bool" for wk s0 where
  start: "pool_reach wk s0 [] s0"
| pool: "pool_reach wk s0 ds s \<Longrightarrow> pool_step wk s t \<Longrightarrow> pool_reach wk s0 ds t"
| envt: "pool_reach wk s0 ds s \<Longrightarrow> env_step s t \<Longrightarrow> pool_reach wk s0 (ds @ drop (length (ps_msgs s)) (ps_msgs t)) t"

inductive_cases pool_step_cases: "pool_step wk s t"
inductive_cases env_step_cases: "env_step s t"

text \<open>\<open>Start\<close> has received one signal per goroutine.\<close>

definition returned :: "('r, 'b) pool_state \<Rightarrow> bool" where
  "returned s \<longleftrightarrow> ps_received s = length (ps_gs s)"

section \<open>Invariants\<close>

definition busy_msgs :: "goroutine list \<Rightarrow> bytes multiset" where
  "busy_msgs gs = mset (concat (map (\<lambda>g. case g of Busy m \<Rightarrow> [m] | _ \<Rightarrow> []) gs))"

definition gone_count :: "goroutine list \<Rightarrow> nat" where
  "gone_count gs = count_list gs Gone"

lemma busy_msgs_simps [simp]:
  "busy_msgs [] = {#}"
  "busy_msgs (g # gs) = (case g of Busy m \<Rightarrow> {#m#} | _ \<Rightarrow> {#}) + busy_msgs gs"
  by (simp_all add: busy_msgs_def split: goroutine.split)

lemma busy_msgs_update:
  "i < length gs \<Longrightarrow> busy_msgs (gs[i := g]) + (case gs ! i of Busy m \<Rightarrow> {#m#} | _ \<Rightarrow> {#})
     = busy_msgs gs + (case g of Busy m \<Rightarrow> {#m#} | _ \<Rightarrow> {#})"
proof (induction gs arbitrary: i)
  case (Cons h gs)
  then show ?case by (cases i) (simp_all add: ac_simps)
qed simp

lemma gone_count_update:
  "i < length gs \<Longrightarrow> gs ! i \<noteq> Gone \<Longrightarrow> gone_count (gs[i := g]) = gone_count gs + (if g = Gone then 1 else 0)"
proof (induction gs arbitrary: i)
  case (Cons h gs)
  then show ?case by (cases i) (auto simp: gone_count_def)
qed simp

definition pool_inv :: "bytes list \<Rightarrow> ('r, 'b) pool_state \<Rightarrow> bool" where
  "pool_inv ds s \<longleftrightarrow>
     mset ds = mset (ps_msgs s) + busy_msgs (ps_gs s) + mset (map fst (ps_acks s)) \<and>
     ps_received s = gone_count (ps_gs s)"

lemma pool_step_inv: "pool_step wk s t \<Longrightarrow> pool_inv ds s \<Longrightarrow> pool_inv ds t"
proof (induction rule: pool_step.induct)
  case (receive i s m ms)
  with busy_msgs_update [of i "ps_gs s" "Busy m"] gone_count_update [of i "ps_gs s" "Busy m"] show ?case
    by (simp add: pool_inv_def ac_simps)
next
  case (handle i s m e a w')
  with busy_msgs_update [of i "ps_gs s" Waiting] gone_count_update [of i "ps_gs s" Waiting] show ?case
    by (simp add: pool_inv_def ac_simps)
next
  case (cancelled i s)
  with busy_msgs_update [of i "ps_gs s" Leaving] gone_count_update [of i "ps_gs s" Leaving] show ?case
    by (simp add: pool_inv_def)
next
  case (closed i s)
  with busy_msgs_update [of i "ps_gs s" Leaving] gone_count_update [of i "ps_gs s" Leaving] show ?case
    by (simp add: pool_inv_def)
next
  case (joined i s)
  with busy_msgs_update [of i "ps_gs s" Gone] gone_count_update [of i "ps_gs s" Gone] show ?case
    by (simp add: pool_inv_def)
qed

lemma env_step_inv:
  "env_step s t \<Longrightarrow> pool_inv ds s \<Longrightarrow> pool_inv (ds @ drop (length (ps_msgs s)) (ps_msgs t)) t"
  by (induction rule: env_step.induct) (simp_all add: pool_inv_def)

lemma pool_reach_inv: "pool_reach wk s0 ds s \<Longrightarrow> pool_inv [] s0 \<Longrightarrow> pool_inv ds s"
  by (induction rule: pool_reach.induct) (simp_all add: pool_step_inv env_step_inv)

lemma Start_inv: "Start wk n w = (Some s0, w') \<Longrightarrow> pool_inv [] s0 \<and> length (ps_gs s0) = nat (sint n)"
proof -
  have "busy_msgs (replicate k Waiting) = {#}" "gone_count (replicate k Waiting) = 0" for k
    by (induction k) (simp_all add: gone_count_def)
  then show "Start wk n w = (Some s0, w') \<Longrightarrow> ?thesis"
    by (auto simp: Start_def pool_inv_def split: prod.splits sum.splits)
qed

section \<open>Shutting down\<close>

fun g_weight :: "goroutine \<Rightarrow> nat" where
  "g_weight (Busy m) = 3"
| "g_weight Waiting = 2"
| "g_weight Leaving = 1"
| "g_weight Gone = 0"

definition pool_weight :: "('r, 'b) pool_state \<Rightarrow> nat" where
  "pool_weight s = 2 * length (ps_msgs s) + sum_list (map g_weight (ps_gs s))"

lemma g_weight_update:
  "i < length gs \<Longrightarrow> sum_list (map g_weight (gs[i := g])) + g_weight (gs ! i) = sum_list (map g_weight gs) + g_weight g"
proof (induction gs arbitrary: i)
  case (Cons h gs)
  then show ?case by (cases i) simp_all
qed simp

lemma pool_step_weight: "pool_step wk s t \<Longrightarrow> pool_weight s = Suc (pool_weight t)"
proof (induction rule: pool_step.induct)
  case (receive i s m ms)
  with g_weight_update [of i "ps_gs s" "Busy m"] show ?case by (simp add: pool_weight_def)
next
  case (handle i s m e a w')
  with g_weight_update [of i "ps_gs s" Waiting] show ?case by (simp add: pool_weight_def)
next
  case (cancelled i s)
  with g_weight_update [of i "ps_gs s" Leaving] show ?case by (simp add: pool_weight_def)
next
  case (closed i s)
  with g_weight_update [of i "ps_gs s" Leaving] show ?case by (simp add: pool_weight_def)
next
  case (joined i s)
  with g_weight_update [of i "ps_gs s" Gone] show ?case by (simp add: pool_weight_def)
qed

lemma pool_steps_keep:
  "(pool_step wk ^^ k) s t \<Longrightarrow> pool_inv ds s \<Longrightarrow> ps_cancelled s \<Longrightarrow>
   pool_weight s = k + pool_weight t \<and> pool_inv ds t \<and> ps_cancelled t"
proof (induction k arbitrary: t)
  case (Suc k)
  then obtain u where "(pool_step wk ^^ k) s u" and u: "pool_step wk u t" by auto
  with Suc have "pool_weight s = k + pool_weight u" "pool_inv ds u" "ps_cancelled u" by auto
  moreover have "ps_cancelled t" using u \<open>ps_cancelled u\<close> by (cases rule: pool_step.cases) simp_all
  ultimately show ?case using pool_step_weight [OF u] pool_step_inv [OF u] by simp
qed simp

lemma all_gone: "gone_count gs = length gs \<longleftrightarrow> (\<forall>g \<in> set gs. g = Gone)"
proof (induction gs)
  case (Cons g gs)
  have "count_list gs Gone \<le> length gs" by (rule count_le_length)
  with Cons show ?case by (auto simp: gone_count_def)
qed (simp add: gone_count_def)

lemma cancelled_progress:
  assumes "ps_cancelled s" "\<nexists>u. pool_step wk s u"
  shows "\<forall>g \<in> set (ps_gs s). g = Gone"
proof
  fix g assume "g \<in> set (ps_gs s)"
  then obtain i where i: "i < length (ps_gs s)" "ps_gs s ! i = g" by (auto simp: in_set_conv_nth)
  show "g = Gone"
  proof (cases g)
    case Waiting
    with i assms pool_step.cancelled show ?thesis by blast
  next
    case (Busy m)
    obtain a w' where "process wk undefined m (ps_world s) = (a, w')" by (metis surj_pair)
    with Busy i assms(2) pool_step.handle show ?thesis by blast
  next
    case Leaving
    with i assms(2) pool_step.joined show ?thesis by blast
  qed
qed

section \<open>Properties\<close>

text \<open>
  C11. The pool loses nothing and handles nothing twice: in every interleaving, the
  deliveries put on the channel are, with multiplicity, those still waiting, those being
  processed and those acknowledged or rejected; and when \<open>Start\<close> returns every goroutine has
  ended and no delivery is half processed.
\<close>

theorem pool_handles_each_once:
  assumes "Start wk n w = (Some s0, w')" and "pool_reach wk s0 ds s"
  shows "mset ds = mset (ps_msgs s) + busy_msgs (ps_gs s) + mset (map fst (ps_acks s)) \<and>
    (returned s \<longrightarrow> (\<forall>g \<in> set (ps_gs s). g = Gone) \<and> busy_msgs (ps_gs s) = {#})"
proof -
  have inv: "pool_inv ds s" using pool_reach_inv [OF assms(2)] Start_inv [OF assms(1)] by blast
  have "(\<forall>g \<in> set gs. g = Gone) \<Longrightarrow> busy_msgs gs = {#}" for gs
    by (induction gs) simp_all
  with inv show ?thesis by (auto simp: pool_inv_def returned_def all_gone)
qed

definition pworker :: "(nat, string list, nat) worker" where
  "pworker = NewWorker PrimaryDB (\<lambda>b q. (Inr 0, q # b)) None mem_tx_repo"

definition pworld :: "(nat, string list) world" where
  "pworld = \<lparr>primary = db0, standby = db0, kv = 0, broker = [], mem_accounts = Map.empty,
     mem_txs = Map.empty, txCounter = 0, event = None, cache_hits = (\<lambda>_. 0), cache_misses = (\<lambda>_. 0)\<rparr>"

definition pstate :: "(nat, string list) pool_state" where
  "pstate = \<lparr>ps_msgs = [], ps_closed = False, ps_cancelled = False, ps_gs = [Waiting], ps_received = 0,
     ps_world = pworld\<lparr>broker := [''transactions'']\<rparr>, ps_acks = []\<rparr>"

lemma pstart: "Start pworker 1 pworld = (Some pstate, pworld\<lparr>broker := [''transactions'']\<rparr>)"
  by (simp add: Start_def pworker_def NewWorker_def pstate_def pworld_def)

text \<open>One undecodable delivery: it arrives, is received and rejected.\<close>

theorem pool_handles_each_once_witness:
  "pool_reach pworker pstate [None] (pstate\<lparr>ps_acks := [(None, Nack False False)]\<rparr>) \<and>
   mset [None] = mset (map fst (ps_acks (pstate\<lparr>ps_acks := [(None, Nack False False)]\<rparr>)))"
proof -
  let ?s1 = "pstate\<lparr>ps_msgs := [None]\<rparr>" and ?s2 = "pstate\<lparr>ps_gs := [Busy None]\<rparr>"
  let ?s3 = "pstate\<lparr>ps_acks := [(None, Nack False False)]\<rparr>"
  have "env_step pstate ?s1" using env_step.deliver [of pstate None] by (simp add: pstate_def)
  then have r1: "pool_reach pworker pstate [None] ?s1"
    using pool_reach.envt [OF pool_reach.start, of pstate ?s1 pworker] by (simp add: pstate_def)
  have "pool_step pworker ?s1 ?s2" using pool_step.receive [of 0 ?s1 None "[]"] by (simp add: pstate_def)
  with r1 have r2: "pool_reach pworker pstate [None] ?s2" by (rule pool_reach.pool)
  have "process pworker undefined None (ps_world ?s2) = (Nack False False, ps_world ?s2)"
    by (simp add: process_def unmarshal_TxMessage_def decode_members_def)
  then have "pool_step pworker ?s2 ?s3" using pool_step.handle [of 0 ?s2 None pworker] by (simp add: pstate_def)
  with r2 have r3: "pool_reach pworker pstate [None] ?s3" by (rule pool_reach.pool)
  from pool_handles_each_once [OF pstart r3] r3 show ?thesis by (simp add: pstate_def)
qed

text \<open>
  C12. Shutdown terminates: once the context is cancelled, and no further deliveries arrive,
  every run of the pool is at most \<open>pool_weight\<close> steps long, and a pool that cannot take
  another step has joined all its goroutines, so \<open>Start\<close> has returned.
\<close>

theorem pool_shuts_down:
  assumes "Start wk n w = (Some s0, w')" and "pool_reach wk s0 ds s" and "ps_cancelled s"
    and "(pool_step wk ^^ k) s t"
  shows "k \<le> pool_weight s \<and> ((\<nexists>u. pool_step wk t u) \<longrightarrow> returned t)"
proof -
  have "pool_inv ds s" using pool_reach_inv [OF assms(2)] Start_inv [OF assms(1)] by blast
  note t = pool_steps_keep [OF assms(4) this assms(3)]
  have "returned t" if "\<nexists>u. pool_step wk t u"
    using cancelled_progress [OF _ that] t all_gone [of "ps_gs t"] by (simp add: pool_inv_def returned_def)
  with t show ?thesis by simp
qed

theorem pool_shuts_down_witness:
  "returned (pstate\<lparr>ps_cancelled := True, ps_gs := [Gone], ps_received := 1\<rparr>)"
proof -
  let ?s = "pstate\<lparr>ps_cancelled := True\<rparr>" and ?u = "pstate\<lparr>ps_cancelled := True, ps_gs := [Leaving]\<rparr>"
  let ?t = "pstate\<lparr>ps_cancelled := True, ps_gs := [Gone], ps_received := 1\<rparr>"
  have "env_step pstate ?s" by (rule env_step.cancel)
  then have r: "pool_reach pworker pstate [] ?s"
    using pool_reach.envt [OF pool_reach.start, of pstate ?s pworker] by (simp add: pstate_def)
  have "pool_step pworker ?s ?u" using pool_step.cancelled [of 0 ?s pworker] by (simp add: pstate_def)
  moreover have "pool_step pworker ?u ?t" using pool_step.joined [of 0 ?u pworker] by (simp add: pstate_def)
  ultimately have "(pool_step pworker ^^ 2) ?s ?t" by (auto simp: numeral_2_eq_2)
  moreover have "\<nexists>u. pool_step pworker ?t u"
    by (auto elim!: pool_step_cases simp: pstate_def)
  ultimately show ?thesis using pool_shuts_down [OF pstart r] by (simp add: pstate_def)
qed

end
