(* ===== verification/Shutdown.thy ===== *)
theory Shutdown
  imports Settlement WorkerPool Server
begin

text \<open>
  The end of the process: what a signal does to the workers, whose context it cancels, and
  how \<open>main\<close> releases what it opened. The server framework's \<open>Start\<close> is an argument.
\<close>

section \<open>A cancelled delivery\<close>

text \<open>
  A call on a cancelled context returns the context's error and does nothing. A settlement is
  interrupted when the context ends before its commit: one of its calls is refused, and a
  refused commit is a rollback.
\<close>

definition refused :: "outcomes \<Rightarrow> site \<Rightarrow> bool" where
  "refused orc st \<longleftrightarrow> fault orc st \<noteq> None \<and> \<not> applied orc st"

definition interrupted :: "outcomes \<Rightarrow> bool" where
  "interrupted orc \<longleftrightarrow>
     (\<exists>st \<in> {BeginTx, QuerySource, ExecDebit, ExecCredit, ExecMark}. fault orc st \<noteq> None) \<or> refused orc CommitTx"

lemma settle_interrupted:
  assumes "interrupted (dc_orc e)"
  shows "\<exists>x. settle e conn p w = (Some x, w)"
proof (cases "settle_body e p (db_of conn w)")
  case (Inl x)
  then show ?thesis by (simp add: settle_def)
next
  case (Inr d)
  then have "refused (dc_orc e) CommitTx" using assms by (auto simp: interrupted_def settle_body_Inr)
  with Inr show ?thesis by (auto simp: settle_def commit_tx_def autocommit_def refused_def)
qed

lemma update_refused:
  "refused orc RepoUpdate \<Longrightarrow> snd (pg_tx_UpdateStatus now orc r w k st) = w"
  by (cases "pg_db r") (auto simp: pg_tx_UpdateStatus_def autocommit_def refused_def split: sum.split)

lemma process_cancelled:
  assumes "wk_repo wk = pg_tx_repo drv now orc r" "\<forall>st. refused orc st" "interrupted (dc_orc e)"
  shows "process wk e body w = (Nack False False, w)"
proof (cases "unmarshal_TxMessage body")
  case None
  then show ?thesis by (simp add: process_undecodable)
next
  case (Some p)
  obtain x where "settle e (wk_db wk) p w = (Some x, w)" using settle_interrupted [OF assms(3)] by blast
  moreover obtain y where "pg_tx_GetByID orc r w (msg_TXID p) = Inl y"
    using spec [OF assms(2), of RepoGet]
    by (cases "pg_tx_GetByID orc r w (msg_TXID p)") (auto simp: refused_def pg_tx_GetByID_Inr)
  ultimately show ?thesis using Some assms(2) by (simp add: process_def assms(1) update_refused)
qed

text \<open>
  C13. A shutdown strands the payments in flight: when the context is cancelled before the
  settlement of an accepted payment commits, the database transaction is rolled back, the
  write of the status \<open>failed\<close> is refused by the same context, and the delivery is still
  rejected without requeue. The message leaves the queue, no money has moved and the
  transaction stays pending.
\<close>

theorem shutdown_strands_payment:
  assumes "createAsync s pub tx w = (Inr t, w1)" "ts_repo s = primary_txs drv now orc"
    and "wk_repo wk = primary_txs drv2 now2 orc2" "refused orc2 RepoUpdate"
    and "interrupted (dc_orc e)"
  shows "process wk e (marshal_TxMessage (tx_message tx)) w1 = (Nack False False, w1) \<and>
    balance_of (primary w1) = balance_of (primary w) \<and>
    (\<exists>r. transactions (primary w1) (tx_ID tx) = Some r \<and> row_status r = StatusPending)"
proof -
  note ins = createAsync_db [OF assms(1,2)]
  obtain r where r: "transactions (primary w1) (tx_ID tx) = Some r" "row_status r = StatusPending"
    using insert_transaction_same [OF ins] by auto
  obtain x where "settle e (wk_db wk) (tx_message tx) w1 = (Some x, w1)"
    using settle_interrupted [OF assms(5)] by blast
  moreover have "\<not> (case txn_GetByID (wk_repo wk) w1 (tx_ID tx) of
      Inl _ \<Rightarrow> False | Inr t' \<Rightarrow> tx_Status t' = StatusCompleted)"
    using r by (auto simp: assms(3) pg_tx_GetByID_Inr select_transaction_def StatusPending_def StatusCompleted_def
        split: sum.splits)
  ultimately have "process wk e (marshal_TxMessage (tx_message tx)) w1 = (Nack False False, w1)"
    by (simp add: process_def unmarshal_marshal_TxMessage tx_message_def assms(3) primary_txs_def
        update_refused [OF assms(4)])
  with r same_accounts(1) [OF insert_transaction_frame [OF ins]] show ?thesis by blast
qed

text \<open>The sample worker, interrupted at the credit.\<close>

definition cancelled_orc :: outcomes where
  "cancelled_orc = \<lparr>fault = (\<lambda>_. Some (ErrExt ''context canceled'')), applied = (\<lambda>_. False)\<rparr>"

definition cancelled_worker :: "(keyed_store, (string \<times> json) list, string) worker" where
  "cancelled_worker = worker0\<lparr>wk_repo := primary_txs drv0 7 cancelled_orc\<rparr>"

lemma cancelled_refuses: "refused cancelled_orc st" "interrupted cancelled_orc"
  by (simp_all add: refused_def interrupted_def cancelled_orc_def)

theorem shutdown_strands_payment_witness:
  "process cancelled_worker failing_call (marshal_TxMessage (tx_message tx0)) async_world = (Nack False False, async_world) \<and>
   (\<exists>r. transactions (primary async_world) ''txn1'' = Some r \<and> row_status r = ''pending'')"
proof -
  have "interrupted (dc_orc failing_call)" by (simp add: interrupted_def failing_call_def)
  with shutdown_strands_payment [OF async_run, of drv0 7 orc0 cancelled_worker drv0 7 cancelled_orc failing_call]
  show ?thesis by (simp add: async_svc_def cancelled_worker_def cancelled_refuses StatusPending_def)
qed

section \<open>A cancelled pool\<close>

text \<open>
  When the context is done and deliveries are waiting, both cases of the \<open>select\<close> are ready
  and Go chooses either. One goroutine may therefore keep receiving until nothing waits.
\<close>

lemma pool_rejects_one:
  assumes "ps_msgs s = m # ms" "i < length (ps_gs s)" "ps_gs s ! i = Waiting"
    and "process wk e m (ps_world s) = (a, ps_world s)"
  shows "(pool_step wk)\<^sup>*\<^sup>* s (s\<lparr>ps_msgs := ms, ps_acks := (m, a) # ps_acks s\<rparr>)"
proof -
  let ?u = "s\<lparr>ps_msgs := ms, ps_gs := (ps_gs s)[i := Busy m]\<rparr>"
  have "pool_step wk s ?u" using assms by (intro pool_step.receive)
  moreover have "pool_step wk ?u (?u\<lparr>ps_gs := (ps_gs ?u)[i := Waiting], ps_world := ps_world s, ps_acks := (m, a) # ps_acks ?u\<rparr>)"
    using assms by (intro pool_step.handle) simp_all
  moreover have "?u\<lparr>ps_gs := (ps_gs ?u)[i := Waiting], ps_world := ps_world s, ps_acks := (m, a) # ps_acks ?u\<rparr>
      = s\<lparr>ps_msgs := ms, ps_acks := (m, a) # ps_acks s\<rparr>"
    using list_update_id [of "ps_gs s" i] assms(3) by simp
  ultimately show ?thesis by (metis converse_rtranclp_into_rtranclp rtranclp.rtrancl_refl)
qed

lemma shutdown_may_drain:
  fixes e :: db_call
  assumes "wk_repo wk = pg_tx_repo drv now orc r" "\<forall>st. refused orc st" "interrupted (dc_orc e)"
    and "i < length (ps_gs s)" "ps_gs s ! i = Waiting"
  shows "(pool_step wk)\<^sup>*\<^sup>* s
    (s\<lparr>ps_msgs := [], ps_acks := rev (map (\<lambda>m. (m, Nack False False)) (ps_msgs s)) @ ps_acks s\<rparr>)"
  using assms(4,5)
proof (induction "ps_msgs s" arbitrary: s)
  case (Cons m ms)
  let ?t = "s\<lparr>ps_msgs := ms, ps_acks := (m, Nack False False) # ps_acks s\<rparr>"
  have "(pool_step wk)\<^sup>*\<^sup>* s ?t"
    by (rule pool_rejects_one [OF Cons.hyps(2) [symmetric] Cons.prems process_cancelled [OF assms(1-3)]])
  also have "(pool_step wk)\<^sup>*\<^sup>* ?t
      (?t\<lparr>ps_msgs := [], ps_acks := rev (map (\<lambda>m. (m, Nack False False)) (ps_msgs ?t)) @ ps_acks ?t\<rparr>)"
    using Cons.prems by (intro Cons.hyps(1)) simp_all
  finally show ?case using Cons.hyps(2) [symmetric] by (simp add: comp_def)
next
  case Nil
  then have eq: "s\<lparr>ps_msgs := []\<rparr> = s" by (cases s) simp
  have "(pool_step wk)\<^sup>*\<^sup>* s (s\<lparr>ps_msgs := []\<rparr>)" unfolding eq by (rule rtranclp.rtrancl_refl)
  with Nil.hyps [symmetric] show ?case by simp
qed

section \<open>The end of \<open>main\<close>\<close>

text \<open>The deferred calls of \<open>main\<close>, in the order of their \<open>defer\<close> statements. Nothing is deferred for Redis.\<close>

datatype release = CloseDB pool | CloseReplica pool | CloseQueue | CancelContext

definition main_defers :: "('r, 'b, 'n, 'c, 'd) server \<Rightarrow> release list" where
  "main_defers srv =
     (case srv_db srv of None \<Rightarrow> [] | Some db \<Rightarrow> [CloseDB db]) @
     (case srv_replica srv of None \<Rightarrow> [] | Some rep \<Rightarrow> [CloseReplica rep]) @
     (case srv_queue srv of None \<Rightarrow> [] | Some _ \<Rightarrow> [CloseQueue]) @
     [CancelContext]"

text \<open>
  What the process holds: the context, the client of the queue with the broker behind it, the
  open handles to PostgreSQL and Redis, and the log.
\<close>

record ('b, 'n, 'c) process_state =
  pc_cancelled :: bool
  pc_queue :: "('n, 'c) queue_client option"
  pc_broker :: 'b
  pc_open :: "handle list"
  pc_log :: slogger

fun do_release :: "('b, 'n, 'c, 'd) amqp \<Rightarrow> release \<Rightarrow> ('b, 'n, 'c) process_state \<Rightarrow> ('b, 'n, 'c) process_state" where
  "do_release a (CloseDB db) s = s\<lparr>pc_open := remove1 (HPool db) (pc_open s)\<rparr>"
| "do_release a (CloseReplica db) s = s\<lparr>pc_open := remove1 (HPool db) (pc_open s)\<rparr>"
| "do_release a CloseQueue s =
     (case pc_queue s of
        None \<Rightarrow> s
      | Some c \<Rightarrow> (let (c', b) = queue_Close a (c, pc_broker s) in s\<lparr>pc_queue := Some c', pc_broker := b\<rparr>))"
| "do_release a CancelContext s = s\<lparr>pc_cancelled := True\<rparr>"

text \<open>
  The deferred calls run last to first. \<open>main\<close> joins none of its goroutines: the workers and the
  probe loop run on until the process is gone, and \<open>others\<close> is what they do after each call.
\<close>

definition run_defers ::
  "('b, 'n, 'c, 'd) amqp \<Rightarrow> (('b, 'n, 'c) process_state \<Rightarrow> ('b, 'n, 'c) process_state) \<Rightarrow> release list \<Rightarrow>
   ('b, 'n, 'c) process_state \<Rightarrow> ('b, 'n, 'c) process_state" where
  "run_defers a others ds s = fold (\<lambda>d s. others (do_release a d s)) (rev ds) s"

text \<open>
  \<open>main\<close>: when start-up fails the process exits with status 1 on the spot (\<open>os.Exit\<close> runs no
  deferred call); otherwise it serves until \<open>Start\<close> returns, logs its error, runs the deferred
  calls and ends with status 0.
\<close>

definition server_main ::
  "outside \<Rightarrow> ('b, 'n, 'c, 'd) amqp \<Rightarrow> 'r redis_client \<Rightarrow> pg_env \<Rightarrow>
   (('r, 'b, 'n, 'c, 'd) server \<Rightarrow> ('b, 'n, 'c) process_state \<Rightarrow> err option \<times> ('b, 'n, 'c) process_state) \<Rightarrow>
   (('b, 'n, 'c) process_state \<Rightarrow> ('b, 'n, 'c) process_state) \<Rightarrow> 'b \<Rightarrow> int \<times> ('b, 'n, 'c) process_state option" where
  "server_main out a cl pe serve others b =
     (case boot out a cl pe b of
        (Inl x, b') \<Rightarrow> (1, None)
      | (Inr srv, b') \<Rightarrow>
          (let (x, s1) = serve srv \<lparr>pc_cancelled = False, pc_queue = srv_queue srv, pc_broker = b',
                                    pc_open = srv_opened srv, pc_log = srv_log srv\<rparr>;
               s2 = (case x of
                       None \<Rightarrow> s1
                     | Some y \<Rightarrow> s1\<lparr>pc_log := slog_Log LevelError ''failed to start server'' [(''error'', LStr (Error y))] (pc_log s1)\<rparr>)
           in (0, Some (run_defers a others (main_defers srv) s2))))"

subsection \<open>Start-up\<close>

lemma failed_boot_opens_nothing: "boot out a cl pe b = (Inl x, b') \<Longrightarrow> b' = b"
  by (auto simp: boot_def Let_def split: prod.splits option.splits sum.splits)

lemma boot_queue:
  assumes "boot out a cl pe b = (Inr srv, b')"
  shows "if srv_queue srv = None then b' = b \<or> (\<exists>url x. queue_New a url b = (Inl x, b'))
         else \<exists>url. queue_New a url b = (Inr (the (srv_queue srv)), b')"
  using assms
  by (rule boot_Inr) (auto simp: connect_queue_def split: if_splits prod.splits sum.splits)

lemma queue_New_failed:
  assumes "amqp_conns a conns" "queue_New a url b = (Inl x, b')"
  shows "conns b' \<subseteq> conns b"
proof -
  from assms(2) obtain c where "dial a (\<lparr>qc_url = url, qc_conn = None, qc_channel = None\<rparr>, b) = (Some x, c, b')"
    by (auto simp: queue_New_def split: prod.splits option.splits)
  from amqp_conns.dial_failed [OF assms(1) this] show ?thesis by simp
qed

text \<open>
  What no deferred call closes: the pool of a replica that did not answer its ping, and the Redis
  client, answered or not.
\<close>

definition left_open :: "outside \<Rightarrow> Config \<Rightarrow> handle list" where
  "left_open out cfg =
     (if DBPrimaryDSN cfg \<noteq> '''' \<and> DBReadReplicaEnabled cfg \<and> PgBouncerReadDSN cfg \<noteq> '''' \<and>
         out_pgParse out (PgBouncerReadDSN cfg) = None \<and> out_pgPing out (PgBouncerReadDSN cfg) \<noteq> None
      then [HPool (pg_pool (PgBouncerReadDSN cfg))] else []) @
     (if CacheEnabled cfg \<and> RedisAddr cfg \<noteq> '''' then [HRedis (RedisAddr cfg)] else [])"

definition close_pool :: "pool option \<Rightarrow> handle list \<Rightarrow> handle list" where
  "close_pool p hs = (case p of None \<Rightarrow> hs | Some db \<Rightarrow> remove1 (HPool db) hs)"

lemma connect_opened:
  "connect_db out cfg = Inr (db, rep, warn1, hs1) \<Longrightarrow> connect_redis out cfg = (addr, warn2, hs2) \<Longrightarrow>
   close_pool db (close_pool rep (hs1 @ hs2)) = left_open out cfg"
  by (auto simp: connect_db_def connect_redis_def postgres_New_def redis_New_def close_pool_def left_open_def Let_def
      split: if_splits option.splits)

lemma boot_opened:
  assumes "boot out a cl pe b = (Inr srv, b')" "out_parse out = (cfg, bad)"
  shows "close_pool (srv_db srv) (close_pool (srv_replica srv) (srv_opened srv)) = left_open out cfg"
  using assms(1) by (rule boot_Inr) (use assms(2) connect_opened in auto)

subsection \<open>The goroutines\<close>

text \<open>
  What serving and the goroutines do to the process: they use the queue's client through its own
  operations, may lose connections, open and close nothing else, and do not undo a cancellation.
\<close>

definition runs :: "('b, 'n, 'c, 'd) amqp \<Rightarrow> ('b \<Rightarrow> 'n set) \<Rightarrow> ('b, 'n, 'c) process_state \<Rightarrow> ('b, 'n, 'c) process_state \<Rightarrow> bool" where
  "runs a conns s s1 \<longleftrightarrow>
     pc_open s1 = pc_open s \<and> (pc_cancelled s \<longrightarrow> pc_cancelled s1) \<and>
     (case pc_queue s of
        None \<Rightarrow> pc_queue s1 = None \<and> conns_lost conns (pc_broker s) (pc_broker s1)
      | Some c \<Rightarrow> \<forall>url. queue_reach a conns url (c, pc_broker s) \<longrightarrow>
          (\<exists>c'. pc_queue s1 = Some c' \<and> queue_reach a conns url (c', pc_broker s1)))"

text \<open>The queue's client, if there is one, is in a reachable state; without one nothing is connected.\<close>

definition queue_held :: "('b, 'n, 'c, 'd) amqp \<Rightarrow> ('b \<Rightarrow> 'n set) \<Rightarrow> string \<Rightarrow> ('b, 'n, 'c) process_state \<Rightarrow> bool" where
  "queue_held a conns url s \<longleftrightarrow>
     (case pc_queue s of None \<Rightarrow> conns (pc_broker s) = {} | Some c \<Rightarrow> queue_reach a conns url (c, pc_broker s))"

lemma runs_held: "runs a conns s s1 \<Longrightarrow> queue_held a conns url s \<Longrightarrow> queue_held a conns url s1"
  by (auto simp: runs_def queue_held_def conns_lost_def split: option.splits)

lemma do_release_held: "queue_held a conns url s \<Longrightarrow> queue_held a conns url (do_release a d s)"
  using queue_reach.released by (cases d) (fastforce simp: queue_held_def split: option.split prod.split)+

lemma queue_held_one:
  assumes "amqp_conns a conns" "queue_held a conns url s"
  shows "\<exists>n. conns (pc_broker s) \<subseteq> {n}"
  using assms amqp_conns.queue_reach_ok [OF assms(1), of url]
  by (fastforce simp: queue_held_def client_ok_def split: option.splits)

lemma close_queue_none:
  assumes "amqp_conns a conns" "queue_held a conns url s"
  shows "conns (pc_broker (do_release a CloseQueue s)) = {}"
proof (cases "pc_queue s")
  case (Some c)
  then have "client_ok conns url (c, pc_broker s)"
    using assms amqp_conns.queue_reach_ok by (fastforce simp: queue_held_def)
  from amqp_conns.Close_leaves_none [OF assms(1) this] Some show ?thesis
    by (cases "queue_Close a (c, pc_broker s)") simp
qed (use assms(2) in \<open>simp add: queue_held_def\<close>)

lemma run_defers_invariant:
  assumes "P s" "\<And>d s. d \<in> set ds \<Longrightarrow> P s \<Longrightarrow> P (others (do_release a d s))"
  shows "P (run_defers a others ds s)"
  unfolding run_defers_def by (rule fold_invariant [where Q = "\<lambda>d. d \<in> set ds"]) (use assms in simp_all)

lemma main_defers_open:
  assumes "\<And>s. pc_open (others s) = pc_open s"
  shows "pc_open (run_defers a others (main_defers srv) s) = close_pool (srv_db srv) (close_pool (srv_replica srv) (pc_open s))"
  by (simp add: main_defers_def run_defers_def close_pool_def assms Let_def split: option.split prod.split)

lemma run_defers_snoc: "run_defers a others (ds @ [d]) s = run_defers a others ds (others (do_release a d s))"
  by (simp add: run_defers_def)

lemma held_at_boot:
  assumes "amqp_conns a conns" "conns b = {}" "boot out a cl pe b = (Inr srv, b')"
  shows "\<exists>url. queue_held a conns url \<lparr>pc_cancelled = False, pc_queue = srv_queue srv, pc_broker = b', pc_open = hs, pc_log = L\<rparr>"
proof (cases "srv_queue srv")
  case None
  then have "conns b' = {}"
    using boot_queue [OF assms(3)] assms(2) by (auto dest!: queue_New_failed [OF assms(1)])
  with None show ?thesis by (simp add: queue_held_def)
next
  case (Some c)
  then obtain url where "queue_New a url b = (Inr c, b')" using boot_queue [OF assms(3)] by auto
  then have "queue_reach a conns url (c, b')" by (rule queue_reach.opened [of conns, OF assms(2)])
  with Some show ?thesis by (auto simp: queue_held_def)
qed

lemma main_defers_end:
  assumes "amqp_conns a conns" "queue_held a conns url s" and oth: "\<And>s. runs a conns s (others s)"
    and t: "t = run_defers a others (main_defers srv) s" and q: "srv_queue srv = None \<Longrightarrow> pc_queue s = None"
  shows "pc_cancelled t" "\<exists>n. conns (pc_broker t) \<subseteq> {n}"
    "(\<And>s. pc_cancelled s \<Longrightarrow> pc_broker (others s) = pc_broker s) \<Longrightarrow> conns (pc_broker t) = {}"
proof -
  let ?ds = "(case srv_db srv of None \<Rightarrow> [] | Some db \<Rightarrow> [CloseDB db]) @
     (case srv_replica srv of None \<Rightarrow> [] | Some rep \<Rightarrow> [CloseReplica rep])"
  let ?qs = "case srv_queue srv of None \<Rightarrow> [] | Some _ \<Rightarrow> [CloseQueue]"
  let ?s1 = "others (s\<lparr>pc_cancelled := True\<rparr>)"
  have canc: "pc_cancelled (others s)" if "pc_cancelled s" for s using oth [of s] that by (simp add: runs_def)
  have canc': "pc_cancelled (others (do_release a d s))" if "pc_cancelled s" for d s
    by (rule canc) (cases d; use that in \<open>simp split: option.split prod.split\<close>)
  have held: "queue_held a conns url (others (do_release a d s))" if "queue_held a conns url s" for d s
    using runs_held [OF oth] do_release_held [OF that] .
  have t1: "t = run_defers a others (?ds @ ?qs) ?s1"
    unfolding t main_defers_def by (simp only: append_assoc [symmetric] run_defers_snoc do_release.simps)
  show "pc_cancelled t" unfolding t1 by (rule run_defers_invariant) (simp_all add: canc canc')
  show "\<exists>n. conns (pc_broker t) \<subseteq> {n}" unfolding t
    by (rule queue_held_one [OF assms(1)], rule run_defers_invariant [where P = "queue_held a conns url"])
      (simp_all add: assms(2) held)
  assume quiet: "\<And>s. pc_cancelled s \<Longrightarrow> pc_broker (others s) = pc_broker s"
  have h1: "queue_held a conns url ?s1" using held [OF assms(2), of CancelContext] by simp
  have "\<exists>s2. t = run_defers a others ?ds s2 \<and> pc_cancelled s2 \<and> conns (pc_broker s2) = {}"
  proof (cases "srv_queue srv")
    case None
    have "conns (pc_broker ?s1) = {}"
      using assms(2) q [OF None] quiet [of "s\<lparr>pc_cancelled := True\<rparr>"] by (simp add: queue_held_def)
    then show ?thesis using t1 None canc [of "s\<lparr>pc_cancelled := True\<rparr>"] by auto
  next
    case (Some c)
    have c1: "pc_cancelled (do_release a CloseQueue ?s1)"
      using canc [of "s\<lparr>pc_cancelled := True\<rparr>"] by (simp split: option.split prod.split)
    have "conns (pc_broker (others (do_release a CloseQueue ?s1))) = {}"
      using close_queue_none [OF assms(1) h1] quiet [OF c1] by simp
    moreover have "t = run_defers a others ?ds (others (do_release a CloseQueue ?s1))"
      unfolding t1 Some option.case by (rule run_defers_snoc)
    ultimately show ?thesis using canc [OF c1] by blast
  qed
  then obtain s2 where s2: "t = run_defers a others ?ds s2" "pc_cancelled s2 \<and> conns (pc_broker s2) = {}" by blast
  have "pc_cancelled t \<and> conns (pc_broker t) = {}"
    unfolding s2(1) by (rule run_defers_invariant) (use s2(2) canc' quiet in \<open>auto split: option.splits\<close>)
  then show "conns (pc_broker t) = {}" by simp
qed

subsection \<open>Properties\<close>

text \<open>
  C14. How the process ends. A failed start-up exits with status 1 and has left no connection to
  the broker. Otherwise the status is 0, also when the server itself reported an error; the
  context is cancelled; of the handles to PostgreSQL and Redis exactly two kinds are still open,
  the pool of a replica that did not answer its ping and the Redis client, which no deferred call
  closes, and every other pool has been closed. The goroutines are not joined: whatever they do
  with the queue's client while the deferred calls run, at most one connection to the broker is
  open at the end, and none when those that see the cancelled context leave the client alone.
\<close>

theorem main_releases:
  assumes "amqp_conns a conns" and "conns b = {}" and "out_parse out = (cfg, bad)"
    and "\<And>srv s. runs a conns s (snd (serve srv s))" and "\<And>s. runs a conns s (others s)"
  shows "case boot out a cl pe b of
      (Inl x, b') \<Rightarrow> server_main out a cl pe serve others b = (1, None) \<and> conns b' = {}
    | (Inr srv, b') \<Rightarrow>
        \<exists>s. server_main out a cl pe serve others b = (0, Some s) \<and> pc_cancelled s \<and>
          pc_open s =
            (if DBPrimaryDSN cfg \<noteq> [] \<and> DBReadReplicaEnabled cfg \<and> PgBouncerReadDSN cfg \<noteq> [] \<and>
                out_pgParse out (PgBouncerReadDSN cfg) = None \<and> out_pgPing out (PgBouncerReadDSN cfg) \<noteq> None
             then [HPool (pg_pool (PgBouncerReadDSN cfg))] else []) @
            (if CacheEnabled cfg \<and> RedisAddr cfg \<noteq> [] then [HRedis (RedisAddr cfg)] else []) \<and>
          (\<exists>n. conns (pc_broker s) \<subseteq> {n}) \<and>
          ((\<forall>s. pc_cancelled s \<longrightarrow> pc_broker (others s) = pc_broker s) \<longrightarrow> conns (pc_broker s) = {})"
proof -
  obtain res b' where boot: "boot out a cl pe b = (res, b')" by (cases "boot out a cl pe b")
  show ?thesis
  proof (cases res)
    case (Inl x)
    then show ?thesis using boot assms(2) failed_boot_opens_nothing [of out a cl pe b x b']
      by (simp add: server_main_def)
  next
    case (Inr srv)
    note b1 = boot [unfolded Inr]
    let ?s = "\<lparr>pc_cancelled = False, pc_queue = srv_queue srv, pc_broker = b', pc_open = srv_opened srv, pc_log = srv_log srv\<rparr>"
    obtain x s1 where sv: "serve srv ?s = (x, s1)" by (cases "serve srv ?s")
    have r1: "runs a conns ?s s1" using assms(4) [of ?s srv] sv by simp
    define s2 where "s2 = (case x of None \<Rightarrow> s1
      | Some y \<Rightarrow> s1\<lparr>pc_log := slog_Log LevelError ''failed to start server'' [(''error'', LStr (Error y))] (pc_log s1)\<rparr>)"
    have s2: "pc_queue s2 = pc_queue s1" "pc_broker s2 = pc_broker s1" "pc_open s2 = pc_open s1"
      by (simp_all add: s2_def split: option.split)
    define t where "t = run_defers a others (main_defers srv) s2"
    have run: "server_main out a cl pe serve others b = (0, Some t)"
      using b1 sv by (simp add: server_main_def s2_def t_def)
    obtain url where held: "queue_held a conns url ?s"
      using held_at_boot [OF assms(1,2) b1] by auto
    have held2: "queue_held a conns url s2" using runs_held [OF r1 held] s2
      by (simp add: queue_held_def split: option.splits)
    have q: "srv_queue srv = None \<Longrightarrow> pc_queue s2 = None" using r1 s2(1) by (simp add: runs_def)
    note fin = main_defers_end [OF assms(1) held2 assms(5) t_def q]
    have "pc_open (others s) = pc_open s" for s using assms(5) [of s] by (simp add: runs_def)
    then have "pc_open t = left_open out cfg"
      using main_defers_open [of others a srv s2] boot_opened [OF b1 assms(3)] r1 s2(3) by (simp add: t_def runs_def)
    with fin run b1 show ?thesis by (auto simp: left_open_def)
  qed
qed

text \<open>A server that publishes one message and then reports that its port is taken, and goroutines that stop.\<close>

definition serve0 ::
  "('r, sim_broker, nat, nat, string) server \<Rightarrow> (sim_broker, nat, nat) process_state \<Rightarrow>
   err option \<times> (sim_broker, nat, nat) process_state" where
  "serve0 srv s =
     (case pc_queue s of
        None \<Rightarrow> (None, s)
      | Some c \<Rightarrow>
          (let st = snd (Publish sim_amqp (c, pc_broker s) ''transactions'' (JStr ''x''))
           in (Some (ErrExt ''address already in use''), s\<lparr>pc_queue := Some (fst st), pc_broker := snd st\<rparr>)))"

lemma serve0_runs: "runs sim_amqp sim_conns s (snd (serve0 srv s))" "runs sim_amqp sim_conns s s"
  by (auto simp: runs_def serve0_def Let_def conns_lost_def queue_reach.published split: option.splits)

theorem main_releases_witness:
  "\<exists>s. server_main (out0 ''postgres'') sim_amqp ks_client pe0 serve0 (\<lambda>s. s) sim0 = (0, Some s) \<and>
     sb_conns (pc_broker s) = [] \<and> pc_open s = [HRedis ''redis:6379'']"
proof -
  have p: "out_parse (out0 ''postgres'') = (fst (out_parse (out0 ''postgres'')), None)" by (simp add: out0_def)
  have "sim_conns sim0 = {}" by (simp add: sim_conns_def sim0_def)
  from main_releases [where serve = serve0 and others = "\<lambda>s. s", OF sim.amqp_conns_axioms this p serve0_runs, of ks_client pe0]
  show ?thesis unfolding boot0(1) by (auto simp: sim_conns_def out0_def default_config_def)
qed

text \<open>
  A goroutine that uses the client after \<open>Close\<close> reconnects: the probe loop, which runs until it
  sees the cancelled context, asks for the depth of the queue and opens a connection that nothing
  closes.
\<close>

lemma probe_redials_after_close:
  "sb_conns (snd (queue_Close sim_amqp sim1)) = [] \<and>
   sb_conns (snd (snd (QueueDepth sim_amqp (queue_Close sim_amqp sim1) ''transactions''))) = [2]"
  by (simp add: queue_Close_def QueueDepth_def getChannel_def conn_live_def dial_def declareQueues_def sim_amqp_def sim1_def)

end
