(* ===== verification/CacheRace.thy ===== *)
theory CacheRace
  imports Settlement
begin

text \<open>
  How stale a cached balance can be. \<open>GetBalance\<close> is not atomic: between its SELECT and its SET
  other requests commit and invalidate. Here it is split at its calls, any number of readers
  run interleaved with writers and with the passing of time, and Redis is a parameter with an
  expiry (locale \<open>redis_expiring\<close> of \<open>Cache\<close>).
\<close>

section \<open>Balance inquiry in three steps\<close>

definition gb_lookup :: "('r, 'b) accountService \<Rightarrow> int64 \<Rightarrow> ('r, 'b) world \<Rightarrow> Account option \<times> ('r, 'b) world" where
  "gb_lookup s i w0 =
     (let w1 = log_set ''account_id'' (LInt i) w0
      in case cached_account (as_redis s) i (kv w1) of
           Some acc \<Rightarrow>
             (Some acc, CacheHits_Inc ''balance''
                (log_set ''account_balance'' (LFloat (acc_Balance acc)) (log_set ''cache_hit'' (LBool True) w1)))
         | None \<Rightarrow>
             (None, case as_redis s of
                      None \<Rightarrow> w1
                    | Some _ \<Rightarrow> log_set ''cache_hit'' (LBool False) (CacheMisses_Inc ''balance'' w1)))"

definition gb_read :: "('r, 'b) accountService \<Rightarrow> int64 \<Rightarrow> ('r, 'b) world \<Rightarrow> (err + Account) \<times> ('r, 'b) world" where
  "gb_read s i w =
     (case acct_GetByID (as_repo s) w i of
        Inl e \<Rightarrow> (Inl e, log_set ''account_error'' (LStr (Error e)) w)
      | Inr acc \<Rightarrow> (Inr acc, w))"

definition gb_fill :: "('r, 'b) accountService \<Rightarrow> int64 \<Rightarrow> Account \<Rightarrow> ('r, 'b) world \<Rightarrow> ('r, 'b) world" where
  "gb_fill s i acc w =
     log_set ''account_balance'' (LFloat (acc_Balance acc))
       (case as_redis s of
          None \<Rightarrow> w
        | Some c \<Rightarrow>
            (case marshal_Account acc of
               None \<Rightarrow> w
             | Some data \<Rightarrow> w\<lparr>kv := redis_Set c (kv w) (balance_key i) data (as_balanceTTL s)\<rparr>))"

text \<open>Undisturbed, the steps are \<open>GetBalance\<close>.\<close>

lemma GetBalance_steps:
  "GetBalance s i w =
     (case gb_lookup s i w of
        (Some acc, w1) \<Rightarrow> (Inr acc, w1)
      | (None, w1) \<Rightarrow>
          (case gb_read s i w1 of
             (Inl e, w2) \<Rightarrow> (Inl e, w2)
           | (Inr acc, w2) \<Rightarrow> (Inr acc, gb_fill s i acc w2)))"
  by (simp add: GetBalance_def gb_lookup_def gb_read_def gb_fill_def Let_def split: option.split sum.split)

section \<open>Readers, writers and time\<close>

text \<open>A reader remembers when it read the repository.\<close>

datatype reader = Idle | Missed int64 | Fetched int64 Account gotime

record ('r, 'b) race =
  rc_clock :: gotime
  rc_world :: "('r, 'b) world"
  rc_readers :: "nat \<Rightarrow> reader"

definition set_reader :: "nat \<Rightarrow> reader \<Rightarrow> ('r, 'b) race \<Rightarrow> ('r, 'b) race" where
  "set_reader j p st = st\<lparr>rc_readers := (rc_readers st)(j := p)\<rparr>"

lemma set_reader_sel [simp]:
  "rc_clock (set_reader j p st) = rc_clock st" "rc_world (set_reader j p st) = rc_world st"
  "rc_readers (set_reader j p st) = (rc_readers st)(j := p)"
  by (simp_all add: set_reader_def)

text \<open>
  \<open>D\<close> bounds the time from the SELECT to the SET: the request's context ends (\<open>ContextTimeout\<close>)
  and a command on it is refused afterwards. Writers change the tables at will, and the cache
  by deleting keys or by storing under other keys than those of balances.
\<close>

inductive race_step ::
  "('r, 'b) accountService \<Rightarrow> 'r redis_client \<Rightarrow> (duration \<Rightarrow> 'r \<Rightarrow> 'r) \<Rightarrow> duration \<Rightarrow>
   ('r, 'b) race \<Rightarrow> ('r, 'b) race \<Rightarrow> bool" for s cl elapse D where
  hit: "rc_readers st j = Idle \<Longrightarrow> gb_lookup s i (rc_world st) = (Some a, w) \<Longrightarrow>
     race_step s cl elapse D st (st\<lparr>rc_world := w\<rparr>)"
| miss: "rc_readers st j = Idle \<Longrightarrow> gb_lookup s i (rc_world st) = (None, w) \<Longrightarrow>
     race_step s cl elapse D st (set_reader j (Missed i) (st\<lparr>rc_world := w\<rparr>))"
| select: "rc_readers st j = Missed i \<Longrightarrow> gb_read s i (rc_world st) = (Inr a, w) \<Longrightarrow>
     race_step s cl elapse D st (set_reader j (Fetched i a (rc_clock st)) (st\<lparr>rc_world := w\<rparr>))"
| select_err: "rc_readers st j = Missed i \<Longrightarrow> gb_read s i (rc_world st) = (Inl e, w) \<Longrightarrow>
     race_step s cl elapse D st (set_reader j Idle (st\<lparr>rc_world := w\<rparr>))"
| fill: "rc_readers st j = Fetched i a t \<Longrightarrow> rc_clock st \<le> t + D \<Longrightarrow>
     race_step s cl elapse D st (set_reader j Idle (st\<lparr>rc_world := gb_fill s i a (rc_world st)\<rparr>))"
| fill_refused: "rc_readers st j = Fetched i a t \<Longrightarrow>
     race_step s cl elapse D st (set_reader j Idle (st\<lparr>rc_world := log_set ''account_balance'' (LFloat (acc_Balance a)) (rc_world st)\<rparr>))"
| wrote: "kv w = kv (rc_world st) \<or> kv w = redis_Del cl (kv (rc_world st)) ks \<Longrightarrow>
     race_step s cl elapse D st (st\<lparr>rc_world := w\<rparr>)"
| stored: "(\<And>i. k \<noteq> balance_key i) \<Longrightarrow> kv w = redis_Set cl (kv (rc_world st)) k v ttl \<Longrightarrow>
     race_step s cl elapse D st (st\<lparr>rc_world := w\<rparr>)"
| passed: "0 \<le> dt \<Longrightarrow>
     race_step s cl elapse D st (st\<lparr>rc_clock := rc_clock st + dt, rc_world := (rc_world st)\<lparr>kv := elapse dt (kv (rc_world st))\<rparr>\<rparr>)"

inductive_cases race_step_cases: "race_step s cl elapse D st st'"

lemma gb_kv:
  "gb_lookup s i w = (r, w') \<Longrightarrow> kv w' = kv w"
  "gb_read s i w = (q, w') \<Longrightarrow> kv w' = kv w"
  by (auto simp: gb_lookup_def gb_read_def Let_def split: option.splits sum.splits)

lemma gb_read_Inr: "gb_read s i w = (Inr a, w') \<Longrightarrow> acct_GetByID (as_repo s) w i = Inr a"
  by (auto simp: gb_read_def split: sum.splits)

section \<open>Where a cached balance comes from\<close>

text \<open>The repository answered \<open>a\<close> for \<open>i\<close> in an earlier state of the run, at time \<open>t\<close>.\<close>

definition answered ::
  "('r, 'b) accountService \<Rightarrow> (('r, 'b) race \<Rightarrow> ('r, 'b) race \<Rightarrow> bool) \<Rightarrow> ('r, 'b) race \<Rightarrow> ('r, 'b) race \<Rightarrow>
   int64 \<Rightarrow> Account \<Rightarrow> gotime \<Rightarrow> bool" where
  "answered s R init st i a t \<longleftrightarrow>
     (\<exists>st0. R\<^sup>*\<^sup>* init st0 \<and> R\<^sup>*\<^sup>* st0 st \<and> rc_clock st0 = t \<and> acct_GetByID (as_repo s) (rc_world st0) i = Inr a)"

text \<open>Every cached balance has a date from which it lasts at most \<open>m\<close>.\<close>

definition cache_dated ::
  "'r redis_client \<Rightarrow> ('r \<Rightarrow> string \<Rightarrow> duration \<Rightarrow> bool) \<Rightarrow> duration \<Rightarrow> (int64 \<Rightarrow> Account \<Rightarrow> gotime \<Rightarrow> bool) \<Rightarrow>
   gotime \<Rightarrow> 'r \<Rightarrow> bool" where
  "cache_dated cl expires_in m P now r \<longleftrightarrow>
     (\<forall>i a. cached_account (Some cl) i r = Some a \<longrightarrow> (\<exists>t. P i a t \<and> expires_in r (balance_key i) (t + m - now)))"

definition readers_dated :: "(int64 \<Rightarrow> Account \<Rightarrow> gotime \<Rightarrow> bool) \<Rightarrow> (nat \<Rightarrow> reader) \<Rightarrow> bool" where
  "readers_dated P rs \<longleftrightarrow> (\<forall>j i a t. rs j = Fetched i a t \<longrightarrow> P i a t)"

lemma answered_now:
  "R\<^sup>*\<^sup>* init st \<Longrightarrow> acct_GetByID (as_repo s) (rc_world st) i = Inr a \<Longrightarrow> answered s R init st i a (rc_clock st)"
  by (auto simp: answered_def)

lemma answered_step: "answered s R init st i a t \<Longrightarrow> R st st' \<Longrightarrow> answered s R init st' i a t"
  unfolding answered_def by (blast intro: rtranclp.rtrancl_into_rtrancl)

lemma readers_dated_upd:
  "readers_dated P rs \<Longrightarrow> (\<And>i a t. p = Fetched i a t \<Longrightarrow> P i a t) \<Longrightarrow> readers_dated P (rs(j := p))"
  by (auto simp: readers_dated_def)

lemma cached_account_Some:
  "cached_account (Some cl) i r = Some a \<longleftrightarrow> (\<exists>b. redis_Get cl r (balance_key i) = Inr b \<and> unmarshal_Account b = Some a)"
  by (auto simp: cached_account_def split: sum.splits)

lemma cache_dated_fades:
  assumes "cache_dated cl expires_in m P now r"
    and "\<And>i b. redis_Get cl r' (balance_key i) = Inr b \<Longrightarrow> redis_Get cl r (balance_key i) = Inr b"
    and "\<And>i x. expires_in r (balance_key i) x \<Longrightarrow> expires_in r' (balance_key i) (x - dt)"
  shows "cache_dated cl expires_in m P (now + dt) r'"
  unfolding cache_dated_def
proof (intro allI impI)
  fix i a assume "cached_account (Some cl) i r' = Some a"
  then have "cached_account (Some cl) i r = Some a" using assms(2) by (auto simp: cached_account_Some)
  then obtain t where t: "P i a t" "expires_in r (balance_key i) (t + m - now)"
    using assms(1) by (auto simp: cache_dated_def)
  from assms(3) [OF t(2)] have "expires_in r' (balance_key i) (t + m - (now + dt))" by (simp add: algebra_simps)
  with t(1) show "\<exists>t. P i a t \<and> expires_in r' (balance_key i) (t + m - (now + dt))" by blast
qed

lemma cache_dated_mono:
  "cache_dated cl expires_in m P now r \<Longrightarrow> (\<And>i a t. P i a t \<Longrightarrow> Q i a t) \<Longrightarrow> cache_dated cl expires_in m Q now r"
  unfolding cache_dated_def by blast

context redis_expiring
begin

lemma del_dated:
  assumes "cache_dated cl expires_in m P now r"
  shows "cache_dated cl expires_in m P now (redis_Del cl r ks)"
proof -
  have "cache_dated cl expires_in m P (now + 0) (redis_Del cl r ks)"
    using assms by (rule cache_dated_fades) (blast intro: get_del, simp add: del_expires)
  then show ?thesis by simp
qed

lemma elapse_dated: "cache_dated cl expires_in m P now r \<Longrightarrow> cache_dated cl expires_in m P (now + dt) (elapse dt r)"
  by (erule cache_dated_fades) (blast intro: elapse_get, rule elapse_expires)

lemma set_other_dated:
  assumes "cache_dated cl expires_in m P now r" "\<And>i. k \<noteq> balance_key i"
  shows "cache_dated cl expires_in m P now (redis_Set cl r k v ttl)"
proof -
  have "redis_Get cl r (balance_key i) = Inr b" if "redis_Get cl (redis_Set cl r k v ttl) (balance_key i) = Inr b" for i b
    using get_set [OF that] assms(2) by blast
  moreover have "expires_in (redis_Set cl r k v ttl) (balance_key i) (x - 0)" if "expires_in r (balance_key i) x" for i x
    using set_other [OF _ that] assms(2) by (simp add: eq_commute)
  ultimately show ?thesis using cache_dated_fades [OF assms(1), of "redis_Set cl r k v ttl" 0] by simp
qed

lemma set_dated:
  assumes "cache_dated cl expires_in m P now r" "unmarshal_Account (Some v) = Some a" "P i a t"
    and "0 < ttl" "ttl \<le> t + m - now"
  shows "cache_dated cl expires_in m P now (redis_Set cl r (balance_key i) v ttl)"
  unfolding cache_dated_def
proof (intro allI impI)
  let ?r = "redis_Set cl r (balance_key i) v ttl"
  fix j a' assume "cached_account (Some cl) j ?r = Some a'"
  then obtain b where b: "redis_Get cl ?r (balance_key j) = Inr b" "unmarshal_Account b = Some a'"
    by (auto simp: cached_account_Some)
  have old: "\<exists>t. P j a' t \<and> expires_in ?r (balance_key j) (t + m - now)"
    if "redis_Get cl r (balance_key j) = Inr b" "\<And>x. expires_in r (balance_key j) x \<Longrightarrow> expires_in ?r (balance_key j) x"
  proof -
    have "cached_account (Some cl) j r = Some a'" using that(1) b(2) by (auto simp: cached_account_Some)
    then show ?thesis using assms(1) that(2) unfolding cache_dated_def by blast
  qed
  show "\<exists>t. P j a' t \<and> expires_in ?r (balance_key j) (t + m - now)"
  proof (cases "j = i")
    case True
    from set_own [of r "balance_key i" v ttl b] b(1) True
    consider "b = Some v" "expires_in ?r (balance_key i) ttl"
      | "redis_Get cl r (balance_key j) = Inr b" "\<And>x. expires_in r (balance_key j) x \<Longrightarrow> expires_in ?r (balance_key j) x"
      using assms(4) by auto
    then show ?thesis
    proof cases
      case 1
      with b(2) assms(2) have "a' = a" by simp
      with assms(3) expires_mono [OF 1(2) assms(5)] True show ?thesis by blast
    qed (rule old)
  next
    case False
    then show ?thesis using get_set [OF b(1)] set_other [of "balance_key j" "balance_key i"] by (intro old) auto
  qed
qed

end

text \<open>The invariant of a run that started in \<open>init\<close>.\<close>

definition race_inv ::
  "('r, 'b) accountService \<Rightarrow> 'r redis_client \<Rightarrow> ('r \<Rightarrow> string \<Rightarrow> duration \<Rightarrow> bool) \<Rightarrow> (duration \<Rightarrow> 'r \<Rightarrow> 'r) \<Rightarrow>
   duration \<Rightarrow> ('r, 'b) race \<Rightarrow> ('r, 'b) race \<Rightarrow> bool" where
  "race_inv s cl expires_in elapse D init st \<longleftrightarrow>
     (let P = answered s (race_step s cl elapse D) init st
      in cache_dated cl expires_in (D + as_balanceTTL s) P (rc_clock st) (kv (rc_world st)) \<and>
         readers_dated P (rc_readers st))"

lemma readers_dated_mono: "readers_dated P rs \<Longrightarrow> (\<And>i a t. P i a t \<Longrightarrow> Q i a t) \<Longrightarrow> readers_dated Q rs"
  unfolding readers_dated_def by blast

lemma gb_fill_kv:
  assumes "as_redis s = Some cl"
  shows "kv (gb_fill s i a w) = kv w \<or>
    (\<exists>v. unmarshal_Account (Some v) = Some a \<and> kv (gb_fill s i a w) = redis_Set cl (kv w) (balance_key i) v (as_balanceTTL s))"
  using assms unmarshal_marshal_Account [of a] by (auto simp: gb_fill_def split: option.split)

context redis_expiring
begin

lemma race_step_inv:
  assumes "as_redis s = Some cl" "0 < as_balanceTTL s"
    and "(race_step s cl elapse D)\<^sup>*\<^sup>* init st" "race_inv s cl expires_in elapse D init st"
    and step: "race_step s cl elapse D st st'"
  shows "race_inv s cl expires_in elapse D init st'"
proof -
  let ?P = "answered s (race_step s cl elapse D) init st'" and ?m = "D + as_balanceTTL s"
  let ?Q = "answered s (race_step s cl elapse D) init st"
  have QP: "?Q i a t \<Longrightarrow> ?P i a t" for i a t
    by (rule answered_step [where R = "race_step s cl elapse D", OF _ step])
  have c: "cache_dated cl expires_in ?m ?P (rc_clock st) (kv (rc_world st))"
    by (rule cache_dated_mono [of cl expires_in ?m ?Q]) (use assms(4) QP in \<open>simp_all add: race_inv_def Let_def\<close>)
  have r: "readers_dated ?P (rc_readers st)"
    by (rule readers_dated_mono [of ?Q]) (use assms(4) QP in \<open>simp_all add: race_inv_def Let_def\<close>)
  have now: "?P i a (rc_clock st)" if "acct_GetByID (as_repo s) (rc_world st) i = Inr a" for i a
    using answered_step [where R = "race_step s cl elapse D", OF answered_now [OF assms(3) that] step] .
  have ru: "readers_dated ?P ((rc_readers st)(j := p))" if "\<forall>i a t. p = Fetched i a t \<longrightarrow> ?P i a t" for j p
    using readers_dated_upd [OF r] that by blast
  from step have "cache_dated cl expires_in ?m ?P (rc_clock st') (kv (rc_world st')) \<and> readers_dated ?P (rc_readers st')"
  proof cases
    case (hit j i a w)
    with c r gb_kv(1) [OF hit(3)] show ?thesis by simp
  next
    case (miss j i w)
    with c gb_kv(1) [OF miss(3)] ru [of "Missed i" j] show ?thesis by simp
  next
    case (select j i a w)
    with c gb_kv(2) [OF select(3)] now [OF gb_read_Inr [OF select(3)]] ru [of "Fetched i a (rc_clock st)" j] show ?thesis by simp
  next
    case (select_err j i e w)
    with c gb_kv(2) [OF select_err(3)] ru [of Idle j] show ?thesis by simp
  next
    case (fill j i a t)
    have P: "?P i a t" using r fill(2) by (simp add: readers_dated_def)
    have "cache_dated cl expires_in ?m ?P (rc_clock st) (kv (gb_fill s i a (rc_world st)))"
      using gb_fill_kv [OF assms(1), of i a "rc_world st"] c set_dated [OF c _ P assms(2)] fill(3) by auto
    with fill ru [of Idle j] show ?thesis by simp
  next
    case (fill_refused j i a t)
    with c ru [of Idle j] show ?thesis by simp
  next
    case (wrote w ks)
    with c r del_dated [OF c] show ?thesis by auto
  next
    case (stored k w v ttl)
    with r set_other_dated [OF c] show ?thesis by simp
  next
    case (passed dt)
    with r elapse_dated [OF c] show ?thesis by simp
  qed
  then show ?thesis by (simp add: race_inv_def)
qed

lemma race_reach_inv:
  assumes "as_redis s = Some cl" "0 < as_balanceTTL s" "race_inv s cl expires_in elapse D init init"
    and "(race_step s cl elapse D)\<^sup>*\<^sup>* init st"
  shows "race_inv s cl expires_in elapse D init st"
  using assms(4)
proof (induction rule: rtranclp_induct)
  case (step st st')
  then show ?case using race_step_inv [OF assms(1,2)] by blast
qed (rule assms(3))

lemma cached_recently:
  assumes "race_inv s cl expires_in elapse D init st" "cached_account (Some cl) i (kv (rc_world st)) = Some a"
  shows "\<exists>t. answered s (race_step s cl elapse D) init st i a t \<and> rc_clock st < t + D + as_balanceTTL s"
proof -
  from assms obtain t where t: "answered s (race_step s cl elapse D) init st i a t"
    "expires_in (kv (rc_world st)) (balance_key i) (t + (D + as_balanceTTL s) - rc_clock st)"
    by (auto simp: race_inv_def cache_dated_def Let_def)
  from assms(2) obtain b where "redis_Get cl (kv (rc_world st)) (balance_key i) = Inr b" by (auto simp: cached_account_Some)
  with expired [OF t(2)] have "0 < t + (D + as_balanceTTL s) - rc_clock st" by (meson not_le)
  with t(1) show ?thesis by (auto simp: algebra_simps)
qed

end

section \<open>Properties\<close>

text \<open>
  C15. Staleness is bounded, for a positive TTL and a cache that starts without balances: in every interleaving of balance inquiries, commits, invalidations
  (made, lost or overtaken by a late SET) and time, a balance served from the cache is what
  the repository answered at some earlier moment of the run, less than the TTL plus the
  bound on the time between a request's SELECT and its SET ago.
\<close>

theorem balance_staleness_bounded:
  assumes "redis_expiring cl expires_in elapse" and "as_redis s = Some cl" and "0 < as_balanceTTL s"
    and "\<And>i. cached_account (Some cl) i (kv (rc_world init)) = None" and "\<And>j. rc_readers init j = Idle"
    and "(race_step s cl elapse D)\<^sup>*\<^sup>* init st"
    and "gb_lookup s i (rc_world st) = (Some a, w)"
  shows "\<exists>st0. (race_step s cl elapse D)\<^sup>*\<^sup>* init st0 \<and> (race_step s cl elapse D)\<^sup>*\<^sup>* st0 st \<and>
    rc_clock st < rc_clock st0 + D + as_balanceTTL s \<and> acct_GetByID (as_repo s) (rc_world st0) i = Inr a"
proof -
  have "race_inv s cl expires_in elapse D init init"
    using assms(4,5) by (simp add: race_inv_def cache_dated_def readers_dated_def)
  then have "race_inv s cl expires_in elapse D init st"
    using redis_expiring.race_reach_inv [OF assms(1-3)] assms(6) by blast
  moreover have "cached_account (Some cl) i (kv (rc_world st)) = Some a"
    using assms(2,7) by (auto simp: gb_lookup_def Let_def split: option.splits)
  ultimately obtain t where "answered s (race_step s cl elapse D) init st i a t" "rc_clock st < t + D + as_balanceTTL s"
    using redis_expiring.cached_recently [OF assms(1)] by blast
  then show ?thesis by (auto simp: answered_def)
qed

text \<open>
  A run that needs the bound: a reader misses and reads the balance of 100.00; a payment
  commits and invalidates; the reader's SET arrives 59 seconds later, after the invalidation;
  9 seconds after that, with a TTL of 10 seconds, the superseded balance is still served.
\<close>

definition race_svc :: "(keyed_store, (string \<times> json) list) accountService" where
  "race_svc = NewAccountService (primary_accounts orc0) (Some ks_client) (10 * second)"

definition race0 :: "(keyed_store, (string \<times> json) list) race" where
  "race0 = \<lparr>rc_clock = 0, rc_world = world0, rc_readers = (\<lambda>_. Idle)\<rparr>"

definition old_acc :: Account where
  "old_acc = \<lparr>acc_ID = 1001, acc_Name = ''A'', acc_Balance = 100, acc_UpdatedAt = 0\<rparr>"

definition paid :: "('r, 'b) world \<Rightarrow> 'r redis_client \<Rightarrow> ('r, 'b) world" where
  "paid w cl = w\<lparr>primary := (primary w)\<lparr>accounts := (accounts (primary w))(1001 \<mapsto>
     \<lparr>row_name = ''A'', row_balance = 5000, row_updated_at = 7\<rparr>)\<rparr>, kv := redis_Del cl (kv w) (map balance_key [1001, 1002])\<rparr>"

definition race_fetched :: "(keyed_store, (string \<times> json) list) race" where
  "race_fetched = set_reader 0 (Fetched 1001 old_acc 0) (race0\<lparr>rc_world := snd (gb_lookup race_svc 1001 world0)\<rparr>)"

definition race_paid :: "(keyed_store, (string \<times> json) list) race" where
  "race_paid = race_fetched\<lparr>rc_world := paid (rc_world race_fetched) ks_client\<rparr>"

definition pass :: "duration \<Rightarrow> (keyed_store, 'b) race \<Rightarrow> (keyed_store, 'b) race" where
  "pass dt st = st\<lparr>rc_clock := rc_clock st + dt, rc_world := (rc_world st)\<lparr>kv := ks_elapse dt (kv (rc_world st))\<rparr>\<rparr>"

definition race_stale :: "(keyed_store, (string \<times> json) list) race" where
  "race_stale = pass (9 * second)
     (set_reader 0 Idle ((pass (59 * second) race_paid)\<lparr>rc_world := gb_fill race_svc 1001 old_acc (rc_world (pass (59 * second) race_paid))\<rparr>))"

lemmas race_sample_defs = race_svc_def NewAccountService_def race0_def race_fetched_def race_paid_def race_stale_def pass_def paid_def

lemma race_svc_sel [simp]:
  "as_redis race_svc = Some ks_client" "as_repo race_svc = primary_accounts orc0" "as_balanceTTL race_svc = 10 * second"
  by (simp_all add: race_svc_def NewAccountService_def)

lemma empty_cache [simp]: "cached_account (Some ks_client) i store0 = None"
  by (simp add: cached_account_def ks_defs store0_def)

lemma race_lookup: "gb_lookup race_svc 1001 world0 = (None, snd (gb_lookup race_svc 1001 world0))"
  by (simp add: gb_lookup_def Let_def)

lemma read_primary:
  "acct_GetByID (primary_accounts orc0) w i =
     (case accounts (primary w) i of None \<Rightarrow> Inl (account_not_found i)
      | Some r \<Rightarrow> Inr \<lparr>acc_ID = i, acc_Name = row_name r, acc_Balance = scan_float (row_balance r), acc_UpdatedAt = row_updated_at r\<rparr>)"
  by (simp add: primary_accounts_def repo_defs pg_NewAccountRepository_def select_account_def split: option.split)

lemma race_run:
  "(race_step race_svc ks_client ks_elapse (60 * second))\<^sup>*\<^sup>* race0 race_paid \<and>
   (race_step race_svc ks_client ks_elapse (60 * second))\<^sup>*\<^sup>* race_paid race_stale"
proof -
  let ?R = "race_step race_svc ks_client ks_elapse (60 * second)"
  let ?s1 = "set_reader 0 (Missed 1001) (race0\<lparr>rc_world := snd (gb_lookup race_svc 1001 world0)\<rparr>)"
  let ?s4 = "pass (59 * second) race_paid"
  let ?s5 = "set_reader 0 Idle (?s4\<lparr>rc_world := gb_fill race_svc 1001 old_acc (rc_world ?s4)\<rparr>)"
  have "?R race0 ?s1" using race_step.miss [of race0 0 race_svc 1001] race_lookup by (simp add: race0_def)
  moreover have "?R ?s1 race_fetched"
  proof -
    have "gb_read race_svc 1001 (rc_world ?s1) = (Inr old_acc, rc_world ?s1)"
      by (simp add: gb_read_def read_primary gb_lookup_def Let_def db0_def old_acc_def)
    from race_step.select [OF _ this, of 0] show ?thesis by (simp add: race_fetched_def set_reader_def race0_def)
  qed
  moreover have "?R race_fetched race_paid"
    unfolding race_paid_def by (rule race_step.wrote) (auto simp: paid_def)
  moreover have "?R race_paid ?s4" unfolding pass_def by (rule race_step.passed) simp
  moreover have "?R ?s4 ?s5" by (rule race_step.fill [of _ _ _ _ 0]) (simp_all add: race_sample_defs)
  moreover have "?R ?s5 race_stale" unfolding race_stale_def pass_def [of "9 * second"]
    by (rule race_step.passed) simp
  ultimately show ?thesis by (meson converse_rtranclp_into_rtranclp rtranclp.rtrancl_refl)
qed

lemma late_fill_serves_superseded:
  "rc_clock race_paid = 0 \<and> rc_clock race_stale = 68 * second \<and>
   (\<exists>a. acct_GetByID (primary_accounts orc0) (rc_world race_paid) 1001 = Inr a \<and> acc_Balance a = 50) \<and>
   fst (gb_lookup race_svc 1001 (rc_world race_stale)) = Some old_acc"
proof -
  obtain v where v: "marshal_Account old_acc = Some v" by (simp add: marshal_Account_def old_acc_def json_time_def)
  have "fst (gb_lookup race_svc 1001 (rc_world race_stale)) = Some old_acc"
    using unmarshal_marshal_Account [OF v]
    by (simp add: gb_lookup_def gb_fill_def v Let_def race_sample_defs cached_account_def ks_defs ks_elapse_def store0_def)
  then show ?thesis
    by (simp add: read_primary) (simp add: race_sample_defs)
qed

theorem balance_staleness_bounded_witness:
  "\<exists>st0. (race_step race_svc ks_client ks_elapse (60 * second))\<^sup>*\<^sup>* race0 st0 \<and>
     (race_step race_svc ks_client ks_elapse (60 * second))\<^sup>*\<^sup>* st0 race_stale \<and>
     68 * second < rc_clock st0 + 60 * second + 10 * second \<and>
     acct_GetByID (primary_accounts orc0) (rc_world st0) 1001 = Inr old_acc"
proof -
  have reach: "(race_step race_svc ks_client ks_elapse (60 * second))\<^sup>*\<^sup>* race0 race_stale"
    using race_run by (meson rtranclp_trans)
  have hit: "gb_lookup race_svc 1001 (rc_world race_stale) = (Some old_acc, snd (gb_lookup race_svc 1001 (rc_world race_stale)))"
    using late_fill_serves_superseded by (simp add: prod_eq_iff)
  from balance_staleness_bounded [OF kx.redis_expiring_axioms _ _ _ _ reach hit] late_fill_serves_superseded
  show ?thesis by (simp add: race0_def)
qed

text \<open>The steps of the writers cover what a worker does to the world.\<close>

lemma process_races:
  assumes "process wk e body w = (a, w')" "wk_redis wk = Some cl" "wk_repo wk = pg_tx_repo drv now orc r"
  shows "(race_step s cl elapse D)\<^sup>*\<^sup>* (st\<lparr>rc_world := w\<rparr>) (st\<lparr>rc_world := w'\<rparr>)"
proof -
  let ?R = "race_step s cl elapse D"
  have wr: "?R (st\<lparr>rc_world := v\<rparr>) (st\<lparr>rc_world := v'\<rparr>)" if "kv v' = kv v \<or> kv v' = redis_Del cl (kv v) ks" for v v' ks
    using race_step.wrote [of v' "st\<lparr>rc_world := v\<rparr>" cl ks s elapse D] that by simp
  have kvs: "kv (snd (settle e c p v)) = kv v" "kv (snd (pg_tx_UpdateStatus now orc r v k f)) = kv v" for c p v k f
    by (simp_all add: settle_def pg_tx_UpdateStatus_def Let_def split: sum.split prod.split)
  consider "kv w' = kv w"
    | p :: TxMessage and w1 where "kv w1 = kv w" "w' = invalidateTxStatusCache (Some cl) (msg_TXID p)
         (invalidateBalanceCache (Some cl) [msg_SourceAccount p, msg_DestAccount p] w1)"
  proof (cases "unmarshal_TxMessage body")
    case None
    then show thesis using assms(1) that(1) by (simp add: process_undecodable)
  next
    case (Some p)
    obtain x w1 where w1: "settle e (wk_db wk) p w = (x, w1)" by (cases "settle e (wk_db wk) p w")
    then have kv1: "kv w1 = kv w" using kvs(1) [of "wk_db wk" p w] by simp
    then have "kv w' = kv w \<or> w' = invalidateTxStatusCache (Some cl) (msg_TXID p)
        (invalidateBalanceCache (Some cl) [msg_SourceAccount p, msg_DestAccount p] w1)"
      using w1 Some assms kvs(2) [of w1 "msg_TXID p" StatusFailed]
      by (auto simp: process_def split: if_splits option.splits)
    with kv1 that show thesis by blast
  qed
  then show ?thesis
  proof cases
    case 1
    with wr show ?thesis by blast
  next
    case (2 p w1)
    let ?w2 = "invalidateBalanceCache (Some cl) [msg_SourceAccount p, msg_DestAccount p] w1"
    have "?R (st\<lparr>rc_world := w\<rparr>) (st\<lparr>rc_world := w1\<rparr>)" using wr 2(1) by blast
    moreover have "?R (st\<lparr>rc_world := w1\<rparr>) (st\<lparr>rc_world := ?w2\<rparr>)"
      by (rule wr [of _ _ "map balance_key [msg_SourceAccount p, msg_DestAccount p]"]) (simp add: invalidateBalanceCache_def)
    moreover have "?R (st\<lparr>rc_world := ?w2\<rparr>) (st\<lparr>rc_world := w'\<rparr>)"
      by (rule wr [of _ _ "[tx_status_key (msg_TXID p)]"]) (simp add: 2(2) invalidateTxStatusCache_def)
    ultimately show ?thesis by (meson converse_rtranclp_into_rtranclp rtranclp.rtrancl_refl)
  qed
qed

end
