(* ===== verification/Resources.thy ===== *)
theory Resources
  imports Strconv Numbers Domain
begin

text \<open>
  Process resource metrics, \<open>internal/metrics/resources.go\<close>: the memory limit from the
  environment or the control group files, and the collector that turns samples of the
  operating system into gauges. What the system returns (an environment variable, files,
  \<open>getrusage\<close>, \<open>ReadMemStats\<close>, the clock) is an argument; float arithmetic is rounded by
  \<open>fl64\<close>.
\<close>

section \<open>The memory limit\<close>

type_synonym uint64 = "64 word"

definition fallbackMemoryLimitBytes :: uint64 where
  "fallbackMemoryLimitBytes = 512 * 1024 * 1024"

definition parsePositiveUint :: "string \<Rightarrow> uint64" where
  "parsePositiveUint raw =
     (if raw = '''' then 0
      else case ParseUint raw of None \<Rightarrow> 0 | Some v \<Rightarrow> of_nat v)"

text \<open>\<open>strings.TrimSpace\<close> on ASCII text, which the control group files are.\<close>

definition is_space :: "char \<Rightarrow> bool" where
  "is_space c \<longleftrightarrow> c \<in> {CHR 0x09, CHR 0x0A, CHR 0x0B, CHR 0x0C, CHR 0x0D, CHR '' ''}"

definition TrimSpace :: "string \<Rightarrow> string" where
  "TrimSpace s = rev (dropWhile is_space (rev (dropWhile is_space s)))"

definition cgroup_paths :: "string list" where
  "cgroup_paths = [''/sys/fs/cgroup/memory.max'', ''/sys/fs/cgroup/memory/memory.limit_in_bytes'']"

text \<open>The loop over the files: the first limit that is set and below \<open>1 << 60\<close>.\<close>

fun cgroup_limit :: "(string \<Rightarrow> err + string) \<Rightarrow> string list \<Rightarrow> uint64 option" where
  "cgroup_limit ReadFile [] = None"
| "cgroup_limit ReadFile (path # paths) =
     (case ReadFile path of
        Inl _ \<Rightarrow> cgroup_limit ReadFile paths
      | Inr bytes \<Rightarrow>
          (let raw = TrimSpace bytes
           in if raw = ''max'' then cgroup_limit ReadFile paths
              else let limit = parsePositiveUint raw
                   in if limit > 0 \<and> limit < push_bit 60 1 then Some limit
                      else cgroup_limit ReadFile paths))"

definition detectMemoryLimitBytes :: "string \<Rightarrow> (string \<Rightarrow> err + string) \<Rightarrow> uint64" where
  "detectMemoryLimitBytes env ReadFile =
     (if parsePositiveUint env > 0 then parsePositiveUint env
      else case cgroup_limit ReadFile cgroup_paths of
             Some limit \<Rightarrow> limit
           | None \<Rightarrow> fallbackMemoryLimitBytes)"

section \<open>The collector\<close>

text \<open>\<open>Rusage\<close>: seconds and microseconds of user and system time.\<close>

record rusage =
  ut_sec :: int64
  ut_usec :: int64
  st_sec :: int64
  st_usec :: int64

definition processCPUSeconds :: "err + rusage \<Rightarrow> float64 \<times> bool" where
  "processCPUSeconds ru =
     (case ru of
        Inl _ \<Rightarrow> (0, False)
      | Inr u \<Rightarrow>
          (let user = fl64 (fl64 (of_int (sint (ut_sec u))) + fl64 (fl64 (of_int (sint (ut_usec u))) / 1000000));
               system = fl64 (fl64 (of_int (sint (st_sec u))) + fl64 (fl64 (of_int (sint (st_usec u))) / 1000000))
           in (fl64 (user + system), True)))"

text \<open>\<open>Duration.Seconds\<close>\<close>

definition duration_Seconds :: "duration \<Rightarrow> float64" where
  "duration_Seconds d =
     (let sec = (if d < 0 then - (- d div second) else d div second); nsec = d - sec * second
      in fl64 (fl64 (of_int sec) + fl64 (fl64 (of_int nsec) / 1000000000)))"

text \<open>The conversion \<open>float64(x)\<close> of an unsigned integer.\<close>

definition float_of_uint :: "uint64 \<Rightarrow> float64" where
  "float_of_uint x = fl64 (of_nat (unat x))"

record resource_gauges =
  AppCPUUtilizationRatio :: float64
  AppMemoryUsageBytes :: float64
  AppMemoryLimitBytes :: float64
  AppMemoryUtilizationRatio :: float64

record collector =
  lastCPUSeconds :: float64
  lastWall :: "gotime option"
  rgauges :: resource_gauges

record sample =
  sm_now :: gotime
  sm_rusage :: "err + rusage"
  sm_procs :: nat
  sm_sys :: uint64

text \<open>The processor part of one collection, and the whole of it.\<close>

definition cpu_part :: "sample \<Rightarrow> collector \<Rightarrow> collector" where
  "cpu_part sm c =
     (let (cpuSeconds, ok) = processCPUSeconds (sm_rusage sm);
          c1 = (case lastWall c of
                  Some wall \<Rightarrow>
                    (let wallSeconds = duration_Seconds (sm_now sm - wall)
                     in if ok \<and> wallSeconds > 0
                        then let cpuRatio = fl64 (fl64 (fl64 (cpuSeconds - lastCPUSeconds c) / wallSeconds)
                                                    / of_nat (sm_procs sm))
                             in c\<lparr>rgauges := (rgauges c)\<lparr>AppCPUUtilizationRatio := max 0 cpuRatio\<rparr>\<rparr>
                        else c)
                | None \<Rightarrow> c)
      in if ok then c1\<lparr>lastCPUSeconds := cpuSeconds, lastWall := Some (sm_now sm)\<rparr> else c1)"

definition collect :: "uint64 \<Rightarrow> sample \<Rightarrow> collector \<Rightarrow> collector" where
  "collect memoryLimit sm c =
     (let c1 = cpu_part sm c;
          usage = float_of_uint (sm_sys sm)
      in c1\<lparr>rgauges := (rgauges c1)\<lparr>AppMemoryUsageBytes := usage,
            AppMemoryUtilizationRatio := fl64 (usage / float_of_uint memoryLimit)\<rparr>\<rparr>)"

text \<open>
  \<open>StartRuntimeCollector\<close>: the interval of the ticker and the state after the first
  collection and one collection per tick until the context ends.
\<close>

definition StartRuntimeCollector ::
  "duration \<Rightarrow> string \<Rightarrow> (string \<Rightarrow> err + string) \<Rightarrow> sample \<Rightarrow> sample list \<Rightarrow> resource_gauges \<Rightarrow> duration \<times> collector" where
  "StartRuntimeCollector interval env ReadFile sm ticks g =
     (let interval' = (if interval \<le> 0 then 5 * second else interval);
          memoryLimit = detectMemoryLimitBytes env ReadFile;
          c0 = \<lparr>lastCPUSeconds = 0, lastWall = None,
                rgauges = g\<lparr>AppMemoryLimitBytes := float_of_uint memoryLimit\<rparr>\<rparr>
      in (interval', fold (collect memoryLimit) ticks (collect memoryLimit sm c0)))"

section \<open>Properties\<close>

lemma fl64_pos: "0 < x \<Longrightarrow> 0 < fl64 x"
proof -
  assume x: "0 < x"
  have "x - fl64 x \<le> x / 2 ^ 53" using abs_le_D2 [OF fl64_error [of x]] x by simp
  moreover have "x / 2 ^ 53 < x" using x by simp
  ultimately show ?thesis by linarith
qed

lemma float_of_uint_nonneg: "0 \<le> float_of_uint x"
  unfolding float_of_uint_def by (rule fl64_nonneg, rule of_nat_0_le_iff)

lemma float_of_uint_pos: "x \<noteq> 0 \<Longrightarrow> 0 < float_of_uint x"
  unfolding float_of_uint_def by (rule fl64_pos, unfold of_nat_0_less_iff) (simp add: unat_gt_0)

lemma parsePositiveUint_dec: "n < 2 ^ 64 \<Longrightarrow> unat (parsePositiveUint (dec n)) = n"
  by (simp add: parsePositiveUint_def ParseUint_dec unsigned_of_nat take_bit_nat_eq_self)

lemma cgroup_limit_bound: "cgroup_limit rf ps = Some limit \<Longrightarrow> 0 < limit \<and> limit < push_bit 60 1"
  by (induction ps) (auto simp: Let_def split: sum.splits if_splits)

lemma is_digit_not_space: "is_digit c \<Longrightarrow> \<not> is_space c"
  by (auto simp: is_digit_def is_space_def)

lemma TrimSpace_line:
  assumes "s \<noteq> []" "\<And>c. c \<in> set s \<Longrightarrow> \<not> is_space c" "\<And>c. c \<in> set ws \<Longrightarrow> is_space c"
  shows "TrimSpace (s @ ws) = s"
proof -
  have hd: "dropWhile is_space (s @ ws) = s @ ws" using assms(1,2) by (cases s) auto
  have "dropWhile is_space (rev ws @ rev s) = dropWhile is_space (rev s)"
    by (rule dropWhile_append2) (simp add: assms(3))
  also have "\<dots> = rev s" using assms(1,2) by (cases s rule: rev_cases) auto
  finally show ?thesis by (simp add: TrimSpace_def hd)
qed

text \<open>
  C39. The memory limit is never zero, so the utilisation ratio never divides by zero; and
  unless the operator configured one, it is below \<open>2 ^ 60\<close>, so that the huge number an
  unlimited control group reports is not taken for a limit.
\<close>

theorem memory_limit_sane:
  "0 < detectMemoryLimitBytes env rf \<and>
   (parsePositiveUint env = 0 \<longrightarrow> detectMemoryLimitBytes env rf < push_bit 60 1)"
proof -
  have "(0 :: uint64) < fallbackMemoryLimitBytes \<and> fallbackMemoryLimitBytes < (push_bit 60 1 :: uint64)"
    by (simp add: fallbackMemoryLimitBytes_def)
  then show ?thesis
    using cgroup_limit_bound [of rf cgroup_paths]
    by (auto simp: detectMemoryLimitBytes_def word_gt_0 split: option.splits)
qed

theorem memory_limit_sane_witness: "detectMemoryLimitBytes '''' (\<lambda>_. Inl (ErrExt ''no such file'')) < push_bit 60 1"
  using memory_limit_sane [of "''''" "\<lambda>_. Inl (ErrExt ''no such file'')"] by (simp add: parsePositiveUint_def)

text \<open>
  A configured limit is read back exactly: the decimal text of a positive number below
  \<open>2 ^ 64\<close> in the environment wins over everything, and without it the number the first
  control group file holds on a line is the limit, for a positive number below \<open>2 ^ 60\<close>.
\<close>

theorem configured_limit_read_back:
  assumes "0 < n"
  shows "(n < 2 ^ 64 \<longrightarrow> unat (detectMemoryLimitBytes (dec n) rf) = n) \<and>
    (n < 2 ^ 60 \<longrightarrow> rf (hd cgroup_paths) = Inr (dec n @ [CHR 0x0A]) \<longrightarrow>
       unat (detectMemoryLimitBytes '''' rf) = n)"
proof -
  have "unat (detectMemoryLimitBytes (dec n) rf) = n" if "n < 2 ^ 64"
    using parsePositiveUint_dec [OF that] assms by (simp add: detectMemoryLimitBytes_def word_gt_0_no word_less_nat_alt)
  moreover have "unat (detectMemoryLimitBytes '''' rf) = n"
    if n: "n < 2 ^ 60" and content: "rf (hd cgroup_paths) = Inr (dec n @ [CHR 0x0A])"
  proof -
    let ?w = "parsePositiveUint (dec n)"
    have w: "unat ?w = n" using parsePositiveUint_dec [of n] n by simp
    have trim: "TrimSpace (dec n @ [CHR 0x0A]) = dec n"
      by (rule TrimSpace_line) (use dec_digits is_digit_not_space in \<open>blast | simp add: is_space_def\<close>)+
    have "is_digit (hd (dec n))" by (rule hd_dec_digit)
    then have "dec n \<noteq> ''max''" by (auto simp: is_digit_def)
    moreover have "0 < ?w" "?w < push_bit 60 1"
      using assms n w by (simp_all add: word_less_nat_alt)
    ultimately have "cgroup_limit rf cgroup_paths = Some ?w"
      using content by (simp add: cgroup_paths_def trim)
    with w show ?thesis by (simp add: detectMemoryLimitBytes_def parsePositiveUint_def)
  qed
  ultimately show ?thesis by blast
qed

theorem configured_limit_read_back_witness: "unat (detectMemoryLimitBytes (dec 1048576) (\<lambda>_. Inr ''max'')) = 1048576"
  using configured_limit_read_back [of 1048576 "\<lambda>_. Inr ''max''"] by simp

lemma collect_gauges:
  "0 \<le> AppCPUUtilizationRatio (rgauges c) \<Longrightarrow> 0 \<le> AppCPUUtilizationRatio (rgauges (collect l sm c))"
  "0 \<le> AppMemoryUtilizationRatio (rgauges (collect l sm c))"
  "AppMemoryLimitBytes (rgauges (collect l sm c)) = AppMemoryLimitBytes (rgauges c)"
  by (auto simp: collect_def cpu_part_def Let_def fl64_nonneg float_of_uint_nonneg split: prod.splits option.splits)

lemma collects_gauges:
  "0 \<le> AppCPUUtilizationRatio (rgauges c) \<Longrightarrow> 0 \<le> AppMemoryUtilizationRatio (rgauges c) \<Longrightarrow>
   0 \<le> AppCPUUtilizationRatio (rgauges (fold (collect l) ticks c)) \<and>
   0 \<le> AppMemoryUtilizationRatio (rgauges (fold (collect l) ticks c)) \<and>
   AppMemoryLimitBytes (rgauges (fold (collect l) ticks c)) = AppMemoryLimitBytes (rgauges c)"
  by (induction ticks arbitrary: c) (simp_all add: collect_gauges)

text \<open>
  The collector's gauges make sense after any number of ticks and whatever the system
  reports, a clock that jumps back and failing calls included: the ratios are never
  negative, the published limit is positive and is the detected one, and the ticker's
  interval is positive.
\<close>

theorem resource_gauges_sane:
  assumes "StartRuntimeCollector interval env rf sm ticks g = (iv, c)" and "0 \<le> AppCPUUtilizationRatio g"
  shows "0 < iv \<and> 0 \<le> AppCPUUtilizationRatio (rgauges c) \<and> 0 \<le> AppMemoryUtilizationRatio (rgauges c) \<and>
    AppMemoryLimitBytes (rgauges c) = float_of_uint (detectMemoryLimitBytes env rf) \<and>
    0 < AppMemoryLimitBytes (rgauges c)"
proof -
  let ?l = "detectMemoryLimitBytes env rf"
  let ?c0 = "\<lparr>lastCPUSeconds = 0, lastWall = None, rgauges = g\<lparr>AppMemoryLimitBytes := float_of_uint ?l\<rparr>\<rparr>"
  have "?l \<noteq> 0"
    using cgroup_limit_bound [of rf cgroup_paths]
    by (auto simp: detectMemoryLimitBytes_def fallbackMemoryLimitBytes_def split: option.splits)
  then have "0 < float_of_uint ?l" by (rule float_of_uint_pos)
  moreover have "c = fold (collect ?l) ticks (collect ?l sm ?c0)" "0 < iv"
    using assms(1) by (auto simp: StartRuntimeCollector_def Let_def)
  ultimately show ?thesis
    using collects_gauges [of "collect ?l sm ?c0" ?l ticks] collect_gauges(1) [of ?c0 ?l sm] collect_gauges(2,3) [of ?l sm ?c0] assms(2) by simp
qed

definition gauges_zero :: resource_gauges where
  "gauges_zero = \<lparr>AppCPUUtilizationRatio = 0, AppMemoryUsageBytes = 0, AppMemoryLimitBytes = 0, AppMemoryUtilizationRatio = 0\<rparr>"

theorem resource_gauges_sane_witness:
  "0 < fst (StartRuntimeCollector 0 '''' (\<lambda>_. Inr ''max'')
     \<lparr>sm_now = 5, sm_rusage = Inl (ErrExt ''EFAULT''), sm_procs = 4, sm_sys = 100\<rparr> [] gauges_zero)"
  using resource_gauges_sane [OF prod.collapse [symmetric], of gauges_zero 0 "''''" "\<lambda>_. Inr ''max''"
      "\<lparr>sm_now = 5, sm_rusage = Inl (ErrExt ''EFAULT''), sm_procs = 4, sm_sys = 100\<rparr>" "[]"]
  by (simp add: gauges_zero_def)

end
