(* ===== verification/Seeds.thy ===== *)
theory Seeds
  imports TxId Database Config
begin

text \<open>
  The seeding tool, \<open>cmd/seeds/main.go\<close>: 100 000 accounts and a million transactions,
  copied in batches. The random numbers are arguments, functions of the row; \<open>copy_accounts\<close>
  and \<open>copy_transactions\<close> are what PostgreSQL does with a \<open>COPY\<close>: every row or none.
\<close>

section \<open>Rows\<close>

definition numAccounts :: nat where "numAccounts = 100000"
definition numTransactions :: nat where "numTransactions = 1000000"
definition txBatchSize :: nat where "txBatchSize = 10000"
definition startAccountID :: nat where "startAccountID = 1001"

definition statuses :: "string list" where
  "statuses = replicate 8 ''completed'' @ replicate 3 ''pending'' @ [''failed'']"

text \<open>The random draws for one row: \<open>Float64\<close> in \<open>[0, 1)\<close> and \<open>Intn(n)\<close> below \<open>n\<close>.\<close>

record draws =
  d_balance :: "nat \<Rightarrow> float64"
  d_src :: "nat \<Rightarrow> nat"
  d_dst :: "nat \<Rightarrow> nat"
  d_hours :: "nat \<Rightarrow> nat"
  d_amount :: "nat \<Rightarrow> float64"
  d_status :: "nat \<Rightarrow> nat"

definition draws_ok :: "draws \<Rightarrow> bool" where
  "draws_ok r \<longleftrightarrow>
     (\<forall>i. 0 \<le> d_balance r i \<and> d_balance r i < 1 \<and> d_src r i < numAccounts \<and> d_dst r i < numAccounts - 1 \<and>
          d_hours r i < 30 * 24 \<and> 0 \<le> d_amount r i \<and> d_amount r i < 1 \<and> d_status r i < length statuses)"

record account_seed =
  as_id :: int64
  as_name :: string
  as_balance :: float64
  as_updated :: gotime

definition account_seed_row :: "draws \<Rightarrow> (nat \<Rightarrow> gotime) \<Rightarrow> nat \<Rightarrow> account_seed" where
  "account_seed_row r now i =
     (let k = of_nat (startAccountID + i)
      in \<lparr>as_id = k, as_name = ''User '' @ fmt_d (sint k),
          as_balance = fl64 (100000 + fl64 (d_balance r i * (50000000 - 100000))), as_updated = now i\<rparr>)"

definition seedAccounts_rows :: "draws \<Rightarrow> (nat \<Rightarrow> gotime) \<Rightarrow> account_seed list" where
  "seedAccounts_rows r now = map (account_seed_row r now) [0..<numAccounts]"

record tx_seed =
  sd_id :: string
  sd_src :: int64
  sd_dst :: int64
  sd_amount :: float64
  sd_status :: string
  sd_created :: gotime

definition tx_seed_row :: "draws \<Rightarrow> gotime \<Rightarrow> nat \<Rightarrow> tx_seed" where
  "tx_seed_row r now idx =
     (let srcID = of_nat (startAccountID + d_src r idx) :: int64;
          dst0 = of_nat (startAccountID + d_dst r idx) :: int64;
          dstID = (if sint dst0 \<ge> sint srcID then dst0 + 1 else dst0)
      in \<lparr>sd_id = ''txn'' @ fmt_0d 22 (int idx), sd_src = srcID, sd_dst = dstID,
          sd_amount = fl64 (1000 + fl64 (d_amount r idx * (1000000 - 1000))),
          sd_status = statuses ! d_status r idx,
          sd_created = now - int (d_hours r idx) * (3600 * second)\<rparr>)"

text \<open>The batch loop of \<open>seedTransactions\<close>: the rows of each \<open>CopyFrom\<close>.\<close>

function seed_batches :: "draws \<Rightarrow> gotime \<Rightarrow> nat \<Rightarrow> tx_seed list list" where
  "seed_batches r now batchStart =
     (if batchStart < numTransactions
      then map (tx_seed_row r now) [batchStart..<min (batchStart + txBatchSize) numTransactions]
             # seed_batches r now (batchStart + txBatchSize)
      else [])"
  by pat_completeness auto

termination by (relation "measure (\<lambda>(r, now, s). numTransactions - s)") (simp_all add: numTransactions_def txBatchSize_def)

declare seed_batches.simps [simp del]

section \<open>Copying\<close>

fun copy_accounts :: "driver \<Rightarrow> account_seed list \<Rightarrow> database \<Rightarrow> err + database" where
  "copy_accounts drv [] d = Inr d"
| "copy_accounts drv (a # as) d =
     (if length (as_name a) > 255 then Inl (ErrExt ''value too long'')
      else if accounts d (as_id a) \<noteq> None then Inl (ErrExt ''duplicate key'')
      else case numeric_18_2 (sql_num drv (as_balance a)) of
             None \<Rightarrow> Inl (ErrExt ''numeric field overflow'')
           | Some c \<Rightarrow> copy_accounts drv as (d\<lparr>accounts := (accounts d)(as_id a \<mapsto>
               \<lparr>row_name = as_name a, row_balance = c, row_updated_at = sql_time drv (as_updated a)\<rparr>)\<rparr>))"

fun copy_transactions :: "driver \<Rightarrow> gotime \<Rightarrow> tx_seed list \<Rightarrow> database \<Rightarrow> err + database" where
  "copy_transactions drv now [] d = Inr d"
| "copy_transactions drv now (t # ts) d =
     (if length (sd_id t) > 26 \<or> length (sd_status t) > 20 then Inl (ErrExt ''value too long'')
      else if transactions d (sd_id t) \<noteq> None then Inl (ErrExt ''duplicate key'')
      else if accounts d (sd_src t) = None \<or> accounts d (sd_dst t) = None then Inl (ErrExt ''foreign key violation'')
      else case numeric_18_2 (sql_num drv (sd_amount t)) of
             None \<Rightarrow> Inl (ErrExt ''numeric field overflow'')
           | Some c \<Rightarrow> copy_transactions drv now ts (d\<lparr>transactions := (transactions d)(sd_id t \<mapsto>
               \<lparr>row_source = sd_src t, row_dest = sd_dst t, row_amount = c, row_status = sd_status t,
                row_created = sql_time drv (sd_created t), row_updated = now\<rparr>)\<rparr>))"

text \<open>The tool: the accounts, then the batches; the first failing \<open>CopyFrom\<close> ends the program.\<close>

fun seedTransactions :: "driver \<Rightarrow> gotime \<Rightarrow> tx_seed list list \<Rightarrow> nat \<Rightarrow> database \<Rightarrow> (string \<times> err) option \<times> database" where
  "seedTransactions drv now [] n d = (None, d)"
| "seedTransactions drv now (b # bs) n d =
     (case copy_transactions drv now b d of
        Inl x \<Rightarrow> (Some (''copy transactions batch '' @ fmt_d (int n), x), d)
      | Inr d' \<Rightarrow> seedTransactions drv now bs (n + 1) d')"

definition seed_main ::
  "Config \<times> err option \<Rightarrow> (string \<Rightarrow> err option) \<Rightarrow> draws \<Rightarrow> (nat \<Rightarrow> gotime) \<Rightarrow> gotime \<Rightarrow> driver \<Rightarrow> gotime \<Rightarrow> database \<Rightarrow>
   (string \<times> err) option \<times> database" where
  "seed_main parse connect r nowA nowT drv srvNow d =
     (case Load parse of
        (_, Some x) \<Rightarrow> (Some (''load config'', x), d)
      | (cfg, None) \<Rightarrow>
          if DBPrimaryDSN cfg = '''' then (Some ('''', ErrText ''DB_PRIMARY_DSN is required''), d)
          else case connect (DBPrimaryDSN cfg) of
                 Some x \<Rightarrow> (Some (''connect'', x), d)
               | None \<Rightarrow>
                   (case copy_accounts drv (seedAccounts_rows r nowA) d of
                      Inl x \<Rightarrow> (Some (''copy accounts'', x), d)
                    | Inr d1 \<Rightarrow> seedTransactions drv srvNow (seed_batches r nowT 0) 0 d1))"

section \<open>What a copy does\<close>

lemma copy_accounts_total:
  assumes "distinct (map as_id as)" "\<And>a. a \<in> set as \<Longrightarrow> accounts d (as_id a) = None \<and> length (as_name a) \<le> 255 \<and>
    numeric_18_2 (sql_num drv (as_balance a)) \<noteq> None"
  shows "\<exists>d'. copy_accounts drv as d = Inr d' \<and> dom (accounts d') = dom (accounts d) \<union> as_id ` set as \<and>
    transactions d' = transactions d \<and> (db_ok d \<longrightarrow> db_ok d')"
  using assms
proof (induction as arbitrary: d)
  case (Cons a as)
  obtain c where c: "numeric_18_2 (sql_num drv (as_balance a)) = Some c" using Cons.prems(2) [of a] by auto
  let ?d = "d\<lparr>accounts := (accounts d)(as_id a \<mapsto>
      \<lparr>row_name = as_name a, row_balance = c, row_updated_at = sql_time drv (as_updated a)\<rparr>)\<rparr>"
  have "\<exists>d'. copy_accounts drv as ?d = Inr d' \<and> dom (accounts d') = dom (accounts ?d) \<union> as_id ` set as \<and>
      transactions d' = transactions ?d \<and> (db_ok ?d \<longrightarrow> db_ok d')"
  proof (rule Cons.IH)
    fix b assume b: "b \<in> set as"
    then have "as_id b \<noteq> as_id a" using Cons.prems(1) by (simp add: image_iff) metis
    with Cons.prems(2) [of b] b show "accounts ?d (as_id b) = None \<and> length (as_name b) \<le> 255 \<and>
      numeric_18_2 (sql_num drv (as_balance b)) \<noteq> None" by simp
  qed (use Cons.prems(1) in simp)
  then obtain d' where d': "copy_accounts drv as ?d = Inr d'" "dom (accounts d') = dom (accounts ?d) \<union> as_id ` set as"
    "transactions d' = transactions d" "db_ok ?d \<longrightarrow> db_ok d'" by auto
  have "db_ok ?d" if "db_ok d"
    using that numeric_18_2_bound [OF c] by (auto simp: db_ok_def row_ok_def)
  moreover have "copy_accounts drv (a # as) d = Inr d'" using Cons.prems(2) [of a] c d'(1) by auto
  ultimately show ?case using d' by auto
qed simp

lemma copy_transactions_total:
  assumes "distinct (map sd_id ts)" "\<And>t. t \<in> set ts \<Longrightarrow> transactions d (sd_id t) = None \<and> length (sd_id t) \<le> 26 \<and>
    length (sd_status t) \<le> 20 \<and> accounts d (sd_src t) \<noteq> None \<and> accounts d (sd_dst t) \<noteq> None \<and>
    numeric_18_2 (sql_num drv (sd_amount t)) \<noteq> None"
  shows "\<exists>d'. copy_transactions drv now ts d = Inr d' \<and> dom (transactions d') = dom (transactions d) \<union> sd_id ` set ts \<and>
    accounts d' = accounts d \<and> (db_ok d \<longrightarrow> db_ok d')"
  using assms
proof (induction ts arbitrary: d)
  case (Cons t ts)
  obtain c where c: "numeric_18_2 (sql_num drv (sd_amount t)) = Some c" using Cons.prems(2) [of t] by auto
  let ?r = "\<lparr>row_source = sd_src t, row_dest = sd_dst t, row_amount = c, row_status = sd_status t,
      row_created = sql_time drv (sd_created t), row_updated = now\<rparr>"
  let ?d = "d\<lparr>transactions := (transactions d)(sd_id t \<mapsto> ?r)\<rparr>"
  have "\<exists>d'. copy_transactions drv now ts ?d = Inr d' \<and> dom (transactions d') = dom (transactions ?d) \<union> sd_id ` set ts \<and>
      accounts d' = accounts ?d \<and> (db_ok ?d \<longrightarrow> db_ok d')"
  proof (rule Cons.IH)
    fix u assume u: "u \<in> set ts"
    then have "sd_id u \<noteq> sd_id t" using Cons.prems(1) by (simp add: image_iff) metis
    with Cons.prems(2) [of u] u show "transactions ?d (sd_id u) = None \<and> length (sd_id u) \<le> 26 \<and>
      length (sd_status u) \<le> 20 \<and> accounts ?d (sd_src u) \<noteq> None \<and> accounts ?d (sd_dst u) \<noteq> None \<and>
      numeric_18_2 (sql_num drv (sd_amount u)) \<noteq> None" by simp
  qed (use Cons.prems(1) in simp)
  then obtain d' where d': "copy_transactions drv now ts ?d = Inr d'"
    "dom (transactions d') = dom (transactions ?d) \<union> sd_id ` set ts" "accounts d' = accounts d" "db_ok ?d \<longrightarrow> db_ok d'" by auto
  have "row_ok (dom (accounts d)) (sd_id t) ?r"
    using Cons.prems(2) [of t] numeric_18_2_bound [OF c] by (auto simp: row_ok_def)
  then have "db_ok ?d" if "db_ok d" using that by (rule db_ok_set_row [rotated])
  moreover have "copy_transactions drv now (t # ts) d = Inr d'" using Cons.prems(2) [of t] c d'(1) by auto
  ultimately show ?case using d' by auto
qed simp

lemma copy_transactions_append:
  "copy_transactions drv now (xs @ ys) d =
     (case copy_transactions drv now xs d of Inl x \<Rightarrow> Inl x | Inr d' \<Rightarrow> copy_transactions drv now ys d')"
  by (induction xs arbitrary: d) (auto split: option.splits)

text \<open>The batches together are one copy of all rows.\<close>

lemma seedTransactions_concat:
  "copy_transactions drv now (concat bs) d = Inr d' \<Longrightarrow> seedTransactions drv now bs n d = (None, d')"
  by (induction bs arbitrary: n d) (auto simp: copy_transactions_append split: sum.splits)

lemma seed_batches_cover: "concat (seed_batches r now s) = map (tx_seed_row r now) [s..<numTransactions]"
proof (induction r now s rule: seed_batches.induct)
  case (1 r now s)
  show ?case
  proof (cases "s < numTransactions")
    case True
    let ?e = "min (s + txBatchSize) numTransactions"
    have "[s..<numTransactions] = [s..<?e] @ [?e..<numTransactions]"
      using True upt_add_eq_append [of s ?e "numTransactions - ?e"] by simp
    moreover have "[?e..<numTransactions] = [s + txBatchSize..<numTransactions]"
      by (cases "s + txBatchSize \<le> numTransactions") (simp_all add: min_def)
    ultimately show ?thesis using 1 True by (simp add: seed_batches.simps [of r now s])
  qed (simp add: seed_batches.simps [of r now s])
qed

section \<open>The rows are valid\<close>

lemma seed_id_sint: "i \<le> numAccounts \<Longrightarrow> sint (of_nat (startAccountID + i) :: int64) = int (startAccountID + i)"
  using int64_of_int [of "int (startAccountID + i)"]
  by (simp add: numAccounts_def startAccountID_def)

lemma seed_id_inj:
  assumes "i \<le> numAccounts" "j \<le> numAccounts"
  shows "(of_nat (startAccountID + i) :: int64) = of_nat (startAccountID + j) \<longleftrightarrow> i = j"
  using seed_id_sint [OF assms(1)] seed_id_sint [OF assms(2)] by (metis add_left_cancel of_nat_eq_iff)

definition seed_ids :: "int64 set" where
  "seed_ids = (\<lambda>i. of_nat (startAccountID + i)) ` {0..<numAccounts}"

lemma fl64_upper: "0 \<le> x \<Longrightarrow> x \<le> b \<Longrightarrow> fl64 x \<le> 2 * b"
proof -
  assume x: "0 \<le> x" "x \<le> b"
  have "fl64 x - x \<le> x / 2 ^ 53" using abs_le_D1 [OF fl64_error [of x]] x by simp
  moreover have "x / 2 ^ 53 \<le> x" using x(1) by (simp add: divide_le_eq)
  ultimately show ?thesis using x by linarith
qed

text \<open>What the seeding relies on: the driver writes a float as a number near it.\<close>

definition writes_near :: "driver \<Rightarrow> bool" where
  "writes_near drv \<longleftrightarrow> (\<forall>x. \<bar>sql_num drv x - x\<bar> \<le> 1)"

lemma numeric_small:
  assumes "writes_near drv" "0 \<le> x" "x \<le> 10 ^ 9"
  shows "numeric_18_2 (sql_num drv x) \<noteq> None"
proof -
  let ?y = "sql_num drv x"
  have "\<bar>?y - x\<bar> \<le> 1" using assms(1) by (simp add: writes_near_def)
  then have y: "- 1 \<le> ?y" "?y \<le> 10 ^ 9 + 1" using assms(2,3) by linarith+
  have "\<lfloor>?y * 100 + 1 / 2\<rfloor> < 10 ^ 18" "\<lfloor>- ?y * 100 + 1 / 2\<rfloor> < 10 ^ 18"
    using y by (simp_all add: floor_less_iff)
  moreover have "?y < 0 \<Longrightarrow> 0 \<le> \<lfloor>- ?y * 100 + 1 / 2\<rfloor>" "\<not> ?y < 0 \<Longrightarrow> 0 \<le> \<lfloor>?y * 100 + 1 / 2\<rfloor>"
    by (simp_all only: zero_le_floor)
  ultimately show ?thesis unfolding numeric_18_2_def Let_def by (cases "?y < 0") simp_all
qed

lemma fl64_scaled:
  assumes "0 \<le> u" "u \<le> 1" "0 \<le> k" "0 \<le> b"
  shows "0 \<le> fl64 (b + fl64 (u * k)) \<and> fl64 (b + fl64 (u * k)) \<le> 2 * (b + 2 * k)"
proof -
  have "u * k \<le> k" using assms by (simp add: mult_left_le_one_le)
  then have v: "0 \<le> fl64 (u * k)" "fl64 (u * k) \<le> 2 * k" using assms by (simp_all add: fl64_nonneg fl64_upper)
  with assms(4) show ?thesis by (intro conjI fl64_nonneg fl64_upper) linarith+
qed

lemma seed_amounts:
  assumes "draws_ok r"
  shows "0 \<le> as_balance (account_seed_row r now i) \<and> as_balance (account_seed_row r now i) \<le> 10 ^ 9"
    "0 \<le> sd_amount (tx_seed_row r t i) \<and> sd_amount (tx_seed_row r t i) \<le> 10 ^ 9"
proof -
  have b: "0 \<le> d_balance r i" "d_balance r i \<le> 1" and a: "0 \<le> d_amount r i" "d_amount r i \<le> 1"
    using assms by (auto simp: draws_ok_def less_imp_le)
  show "0 \<le> as_balance (account_seed_row r now i) \<and> as_balance (account_seed_row r now i) \<le> 10 ^ 9"
    using fl64_scaled [OF b, of 49900000 100000] by (simp add: account_seed_row_def Let_def)
  show "0 \<le> sd_amount (tx_seed_row r t i) \<and> sd_amount (tx_seed_row r t i) \<le> 10 ^ 9"
    using fl64_scaled [OF a, of 999000 1000] by (simp add: tx_seed_row_def Let_def)
qed

lemma seed_name_short: "i < numAccounts \<Longrightarrow> length (as_name (account_seed_row r now i)) \<le> 255"
proof -
  assume i: "i < numAccounts"
  then have "startAccountID + i < 10 ^ Suc 5" by (simp add: numAccounts_def startAccountID_def)
  then have "length (dec (startAccountID + i)) \<le> Suc 5" by (rule length_dec)
  moreover have "sint (of_nat (startAccountID + i) :: int64) = int (startAccountID + i)" using i by (intro seed_id_sint) simp
  ultimately show ?thesis by (simp add: account_seed_row_def Let_def fmt_d_def del: of_nat_add)
qed

lemma seed_id_length: "idx < numTransactions \<Longrightarrow> length (sd_id (tx_seed_row r now idx)) = 25"
proof -
  assume "idx < numTransactions"
  then have "nat \<bar>int idx\<bar> < 10 ^ Suc 20" by (simp add: numTransactions_def)
  then have "length (fmt_0d (Suc (Suc 20)) (int idx)) = Suc (Suc 20)" by (rule fmt_0d_length)
  then show ?thesis by (simp add: tx_seed_row_def Let_def)
qed

lemma statuses_valid: "st \<in> set statuses \<Longrightarrow> st \<in> {StatusCompleted, StatusPending, StatusFailed} \<and> length st \<le> 20"
  by (auto simp: statuses_def StatusCompleted_def StatusPending_def StatusFailed_def)

lemma seed_accounts_of_tx:
  assumes "draws_ok r"
  shows "sd_src (tx_seed_row r now i) \<in> seed_ids" "sd_dst (tx_seed_row r now i) \<in> seed_ids"
    "sd_src (tx_seed_row r now i) \<noteq> sd_dst (tx_seed_row r now i)"
proof -
  let ?b = "if d_src r i \<le> d_dst r i then d_dst r i + 1 else d_dst r i"
  have lt: "d_src r i < numAccounts" "d_dst r i < numAccounts - 1" using assms by (simp_all add: draws_ok_def)
  then have b: "?b < numAccounts" by auto
  have src: "sd_src (tx_seed_row r now i) = of_nat (startAccountID + d_src r i)"
    by (simp add: tx_seed_row_def Let_def)
  have le: "sint (of_nat (startAccountID + d_dst r i) :: int64) \<ge> sint (of_nat (startAccountID + d_src r i) :: int64)
      \<longleftrightarrow> d_src r i \<le> d_dst r i"
    using seed_id_sint [of "d_src r i"] seed_id_sint [of "d_dst r i"] lt by (simp del: of_nat_add)
  have dst: "sd_dst (tx_seed_row r now i) = of_nat (startAccountID + ?b)"
    unfolding tx_seed_row_def Let_def le by (simp add: add.assoc)
  show "sd_src (tx_seed_row r now i) \<in> seed_ids" "sd_dst (tx_seed_row r now i) \<in> seed_ids"
    unfolding src dst seed_ids_def using lt(1) b by (auto simp del: of_nat_add)
  show "sd_src (tx_seed_row r now i) \<noteq> sd_dst (tx_seed_row r now i)"
    unfolding src dst using seed_id_inj [of "d_src r i" ?b] lt(1) b by auto
qed

definition seed_tx_ids :: "string set" where
  "seed_tx_ids = (\<lambda>idx. ''txn'' @ fmt_0d 22 (int idx)) ` {0..<numTransactions}"

lemma seed_accounts_copied:
  assumes "draws_ok r" "writes_near drv" "accounts d = Map.empty" "db_ok d"
  shows "\<exists>d'. copy_accounts drv (seedAccounts_rows r now) d = Inr d' \<and> dom (accounts d') = seed_ids \<and>
    transactions d' = transactions d \<and> db_ok d'"
proof -
  have id: "as_id (account_seed_row r now i) = of_nat (startAccountID + i)" for i
    by (simp add: account_seed_row_def Let_def)
  have "inj_on (\<lambda>i. of_nat (startAccountID + i) :: int64) {0..<numAccounts}"
    by (rule inj_onI) (simp add: seed_id_inj del: of_nat_add)
  then have "distinct (map as_id (seedAccounts_rows r now))"
    by (simp add: seedAccounts_rows_def distinct_map id comp_def del: of_nat_add)
  moreover have "accounts d (as_id a) = None \<and> length (as_name a) \<le> 255 \<and> numeric_18_2 (sql_num drv (as_balance a)) \<noteq> None"
    if "a \<in> set (seedAccounts_rows r now)" for a
  proof -
    from that obtain i where i: "i < numAccounts" "a = account_seed_row r now i" by (auto simp: seedAccounts_rows_def)
    with seed_name_short numeric_small [OF assms(2)] seed_amounts(1) [OF assms(1)] assms(3) show ?thesis by auto
  qed
  ultimately obtain d' where d': "copy_accounts drv (seedAccounts_rows r now) d = Inr d'"
    "dom (accounts d') = dom (accounts d) \<union> as_id ` set (seedAccounts_rows r now)" "transactions d' = transactions d"
    "db_ok d \<longrightarrow> db_ok d'"
    using copy_accounts_total [of "seedAccounts_rows r now" d drv] by blast
  have "as_id ` set (seedAccounts_rows r now) = seed_ids"
    by (simp add: seedAccounts_rows_def seed_ids_def image_image id del: of_nat_add)
  with d' assms(3,4) show ?thesis by auto
qed

lemma seed_transactions_copied:
  assumes "draws_ok r" "writes_near drv" "dom (accounts d) = seed_ids" "transactions d = Map.empty" "db_ok d"
  shows "\<exists>d'. seedTransactions drv srvNow (seed_batches r now 0) 0 d = (None, d') \<and>
    accounts d' = accounts d \<and> dom (transactions d') = seed_tx_ids \<and> db_ok d'"
proof -
  let ?rows = "map (tx_seed_row r now) [0..<numTransactions]"
  have id: "sd_id (tx_seed_row r now i) = ''txn'' @ fmt_0d 22 (int i)" for i by (simp add: tx_seed_row_def Let_def)
  have "inj_on (\<lambda>i. ''txn'' @ fmt_0d 22 (int i)) {0..<numTransactions}" by (rule inj_onI) simp
  then have "distinct (map sd_id ?rows)" by (simp add: distinct_map id comp_def)
  moreover have "transactions d (sd_id t) = None \<and> length (sd_id t) \<le> 26 \<and> length (sd_status t) \<le> 20 \<and>
      accounts d (sd_src t) \<noteq> None \<and> accounts d (sd_dst t) \<noteq> None \<and> numeric_18_2 (sql_num drv (sd_amount t)) \<noteq> None"
    if "t \<in> set ?rows" for t
  proof -
    from that obtain i where i: "i < numTransactions" "t = tx_seed_row r now i" by auto
    have "sd_status t \<in> set statuses" using assms(1) i(2) by (simp add: tx_seed_row_def Let_def draws_ok_def)
    moreover have "sd_src t \<in> dom (accounts d)" "sd_dst t \<in> dom (accounts d)"
      using seed_accounts_of_tx(1,2) [OF assms(1)] i(2) assms(3) by simp_all
    ultimately show ?thesis
      using seed_id_length [OF i(1)] statuses_valid numeric_small [OF assms(2)] seed_amounts(2) [OF assms(1)] i(2) assms(4)
      by (auto simp: domIff)
  qed
  ultimately obtain d' where d': "copy_transactions drv srvNow ?rows d = Inr d'"
    "dom (transactions d') = dom (transactions d) \<union> sd_id ` set ?rows" "accounts d' = accounts d" "db_ok d \<longrightarrow> db_ok d'"
    using copy_transactions_total [of ?rows d drv srvNow] by blast
  have "sd_id ` set ?rows = seed_tx_ids" by (simp add: seed_tx_ids_def image_image id)
  moreover have "seedTransactions drv srvNow (seed_batches r now 0) 0 d = (None, d')"
    using d'(1) by (intro seedTransactions_concat) (simp add: seed_batches_cover)
  ultimately show ?thesis using d' assms(4,5) by auto
qed

text \<open>
  C34. Seeding works and leaves a valid database: on empty tables, for any random draws in
  range and a driver that writes floats as nearby numbers, every \<open>COPY\<close> succeeds; the batches
  cover each of the million transactions once; the tables then hold exactly the accounts 1001
  to 101000 and the identifiers 0 to 999999, and satisfy the schema's invariant, foreign keys
  included.
\<close>

theorem seeding_succeeds:
  assumes "parse = (cfg, None)" "DBPrimaryDSN cfg \<noteq> ''''" "connect (DBPrimaryDSN cfg) = None"
    and "draws_ok r" "writes_near drv" "accounts d = Map.empty" "transactions d = Map.empty"
  shows "\<exists>d'. seed_main parse connect r nowA nowT drv srvNow d = (None, d') \<and>
    dom (accounts d') = seed_ids \<and> dom (transactions d') = seed_tx_ids \<and> db_ok d'"
proof -
  have "db_ok d" using assms(6,7) by (simp add: db_ok_def)
  then obtain d1 where d1: "copy_accounts drv (seedAccounts_rows r nowA) d = Inr d1" "dom (accounts d1) = seed_ids"
    "transactions d1 = Map.empty" "db_ok d1"
    using seed_accounts_copied [OF assms(4-6)] assms(7) by metis
  obtain d' where "seedTransactions drv srvNow (seed_batches r nowT 0) 0 d1 = (None, d')" "accounts d' = accounts d1"
    "dom (transactions d') = seed_tx_ids" "db_ok d'"
    using seed_transactions_copied [OF assms(4,5) d1(2-4)] by blast
  with d1 assms(1-3) show ?thesis by (simp add: seed_main_def Load_def)
qed

definition draws0 :: draws where
  "draws0 = \<lparr>d_balance = (\<lambda>_. 1 / 2), d_src = (\<lambda>i. 0), d_dst = (\<lambda>_. 0), d_hours = (\<lambda>_. 0), d_amount = (\<lambda>_. 0), d_status = (\<lambda>_. 0)\<rparr>"

lemma draws0_ok: "draws_ok draws0"
  by (simp add: draws_ok_def draws0_def numAccounts_def statuses_def)

theorem seeding_succeeds_witness:
  "\<exists>d'. seed_main (default_config\<lparr>DBPrimaryDSN := ''pg''\<rparr>, None) (\<lambda>_. None) draws0 (\<lambda>_. 0) 0
      \<lparr>sql_num = (\<lambda>x. x), sql_time = (\<lambda>t. t)\<rparr> 0 \<lparr>accounts = Map.empty, transactions = Map.empty\<rparr> = (None, d') \<and> db_ok d'"
  using seeding_succeeds [OF refl _ _ draws0_ok, where cfg = "default_config\<lparr>DBPrimaryDSN := ''pg''\<rparr>"
      and connect = "\<lambda>_. None" and drv = "\<lparr>sql_num = (\<lambda>x. x), sql_time = (\<lambda>t. t)\<rparr>"
      and d = "\<lparr>accounts = Map.empty, transactions = Map.empty\<rparr>" and nowA = "\<lambda>_. 0" and nowT = 0 and srvNow = 0]
  by (auto simp: writes_near_def)

text \<open>
  C35. Identifiers handed out at run time never collide with seeded ones, also after a
  restart with a fresh counter: once the clock is past the first millisecond of the epoch, an
  identifier of \<open>nextTransactionID\<close> is not in the seeded table; and no seeded transaction pays
  an account from itself.
\<close>

theorem runtime_ids_avoid_seeds:
  assumes "nextTransactionID now prev = (k, n)" and "int numTransactions \<le> sint now" and "sint prev < 2 ^ 63 - 1"
    and "draws_ok r"
  shows "k \<notin> seed_tx_ids \<and> sd_src (tx_seed_row r t i) \<noteq> sd_dst (tx_seed_row r t i)"
proof -
  have n: "n = next_value now prev" "k = ''txn'' @ fmt_0d 22 (sint n)"
    using assms(1) by (auto simp: nextTransactionID_def Let_def txn_id_def)
  have "int numTransactions \<le> sint n" using next_value_ge_now [OF assms(3), of now] assms(2) n(1) by simp
  then have "k \<notin> seed_tx_ids" unfolding n(2) seed_tx_ids_def by auto
  with seed_accounts_of_tx(3) [OF assms(4)] show ?thesis by blast
qed

theorem runtime_ids_avoid_seeds_witness: "fst (nextTransactionID 1750000000000000000 0) \<notin> seed_tx_ids"
  using runtime_ids_avoid_seeds [OF prod.collapse [symmetric] _ _ draws0_ok, of 1750000000000000000 0]
  by (simp add: numTransactions_def)

end
