(* ===== verification/Spec2Isabelle.thy ===== *)
theory Spec2Isabelle
  imports Isolation Findings WorkerLog Api Shutdown CacheRace Resources Seeds
begin

text \<open>
  A verification of the banking peak-load prototype (Go, \<open>cmd/\<close> and \<open>internal/\<close>): an HTTP API
  that reads balances and moves money between accounts, synchronously in one database
  transaction or asynchronously through a queue and a pool of settlement workers, with a
  Redis cache in front of the reads, a read replica behind them, and a circuit breaker,
  a request log and metrics around them.

  \<^bold>\<open>The parts and how they interact.\<close>
  A request passes the middlewares, a handler validates it and calls a service. The account
  service answers balances from the cache or a repository. The transaction service gives a
  payment an identifier and either runs debit, credit and insert in one database transaction
  (\<open>createSync\<close>) or saves a pending row and publishes a message (\<open>createAsync\<close>). A worker
  consumes messages, skips completed transactions, settles the others (\<open>settle\<close>), deletes the
  cache entries the settlement made stale, and acknowledges or dead-letters the delivery.
  \<open>main\<close> decides from the configuration which of these parts exist.

  \<^bold>\<open>Theories and the code they model.\<close>
  \<^item> \<open>Prelude\<close>, \<open>Strconv\<close>, \<open>Numbers\<close>: Go's \<open>int64\<close> (64-bit words), \<open>float64\<close> (exact rationals, with
    round-to-nearest-even written out where a value is produced by rounding), the decimal
    verbs of \<open>fmt\<close> and \<open>strconv\<close>, and the column type \<open>NUMERIC(18,2)\<close> as a number of cents.
  \<^item> \<open>Domain\<close>: the structs of \<open>internal/domain\<close>, the request body, the queue message, the errors
    and their JSON form as syntax trees.
  \<^item> \<open>Database\<close>: the tables of \<open>migrations/\<close> and one definition per SQL statement of the Go code.
    Every statement can fail at its own site (\<open>faults\<close>); a failing commit may have been
    applied or not (\<open>outcomes\<close>).
  \<^item> \<open>Ledger\<close>: the abstract specification, \<open>transfer\<close> on a map of balances, and the locale
    \<open>transfer_body\<close>, which says when a sequence of statements implements it. It is interpreted
    for the synchronous path (\<open>sync\<close>) and for the settlement (\<open>stl\<close>).
  \<^item> \<open>Logger\<close>: \<open>internal/logger\<close>, the wide events and the JSON logger as the list of records it
    wrote.
  \<^item> \<open>World\<close>, \<open>Repos\<close>: the shared state, and the memory and PostgreSQL repositories; the locale
    \<open>tx_repository\<close> is their common contract, interpreted for both.
  \<^item> \<open>Cache\<close>, \<open>AccountService\<close>, \<open>StatusInquiry\<close>: cache-aside reads. Redis is a parameter; the
    locales \<open>redis_service\<close> (it may lose or expire entries, refuse commands, but returns only
    what was stored), \<open>redis_up\<close> (deletions take effect) and \<open>redis_expiring\<close> (entries expire as they
    were told) state what is used of it. The keyed store with expiry is an instance.
  \<^item> \<open>CacheRace\<close>: \<open>GetBalance\<close> call by call, interleaved with writers and with time, over \<open>redis_expiring\<close>.
  \<^item> \<open>TxId\<close>, \<open>TransactionService\<close>: \<open>internal/service/transaction.go\<close>.
  \<^item> \<open>QueueClient\<close>: \<open>internal/infrastructure/queue\<close> over an AMQP library (locale \<open>amqp_conns\<close>).
  \<^item> \<open>Worker\<close>, \<open>Settlement\<close>, \<open>WorkerPool\<close>, \<open>WorkerLog\<close>: \<open>internal/worker\<close>, first one delivery, then
    repeated deliveries, then the goroutines, and the log lines they write.
  \<^item> \<open>Handlers\<close>, \<open>Middleware\<close>, \<open>Breaker\<close>, \<open>RequestLog\<close>: \<open>internal/handler\<close> and
    \<open>internal/middleware\<close>; gobreaker is a parameter (locale \<open>gobreaker\<close>) with a reference
    implementation as its instance. \<open>Api\<close> puts the endpoints behind the request log and the
    breaker in the order of \<open>main\<close>.
  \<^item> \<open>Config\<close>, \<open>Server\<close>, \<open>Metrics\<close>, \<open>Resources\<close>, \<open>Seeds\<close>: \<open>internal/config\<close>, \<open>cmd/server\<close>,
    \<open>internal/infrastructure\<close>, \<open>internal/metrics\<close>, \<open>cmd/seeds\<close>.
  \<^item> \<open>Shutdown\<close>: the end of \<open>main\<close> (\<open>server_main\<close>, its deferred calls beside the unjoined
    goroutines, its exit status and the handles it leaves open), and the worker and its pool on a
    cancelled context.
  \<^item> \<open>RowLocks\<close>, \<open>Isolation\<close>: the statements of concurrent transactions, interleaved under READ
    COMMITTED with row locks. The locale \<open>row_local\<close> asks that each statement touches only the
    row it locks; its interpretation \<open>jobs\<close> is for the program's transactions.
  \<^item> \<open>System\<close>: payments, deliveries and inquiries interleaved over one world. \<open>Samples\<close> is the
    small bank at which theorems are instantiated, \<open>Findings\<close> holds runs that show where the
    guarantees end.

  \<^bold>\<open>What is shown.\<close>
  For payments of whole cents in the exact range, money is conserved, no balance becomes negative
  and the schema's invariant holds in every reachable state of the system, under faults of any
  statement (\<open>bank_conserves_money\<close>); the synchronous path and the settlement refine \<open>transfer\<close>; a
  message delivered any number of times, one delivery after the other, settles at most once, an
  accepted payment settles, a completed one stays completed; identifiers are unique and increasing
  under every interleaving and the loop that makes them is lock-free; cached reads answer what the repository would answer, and with requests
  interleaved call by call a cached balance is older than the TTL by at most the time between
  a request's SELECT and its SET; the pool loses no delivery and shuts down, but a shutdown
  strands the payments in flight; the queue client holds at most one connection, and the end of
  \<open>main\<close> closes it and the pools in use but not the Redis client; a request leaves one log line
  exactly when the breaker admits it, and a delivery an error line exactly when it is
  dead-lettered; the breaker's gauges, the health metrics and the resource metrics are truthful;
  start-up wires the parts consistently; seeding succeeds and does not collide with later
  identifiers. Interleaved statement by statement, transactions behave as if each ran alone, in
  the order of their commits (\<open>row_locks_serialise\<close>), which is why the other theories run one
  as a single step; opposite payments can deadlock. The error paths of each operation are stated
  beside these.

  \<^bold>\<open>Assumptions and bounds.\<close>
  Conservation is for amounts that are whole cents, because each \<open>UPDATE\<close> rounds to cents on
  its own; absence of overdrafts is for amounts below \<open>exact_cents\<close> (2 to the 46 currency
  units), below which comparing scanned floats is comparing cents. \<open>Findings\<close> shows both bounds
  are needed. At-most-once needs status reads from the primary and commits whose failure
  means that nothing was applied; \<open>Findings\<close> has a run for each that is missing. Identifiers need
  the clock below \<open>2 ^ 63 - 1\<close> nanoseconds. In \<open>System\<close> and \<open>Settlement\<close> a request or a
  delivery is one step on the shared state, which \<open>Isolation\<close> justifies for its database
  transaction but not for the status check that precedes it: two deliveries of a message that
  overlap can settle it twice (\<open>concurrent_duplicates_settle_twice\<close>). Loops
  of the code are structural recursions or carry a termination proof; no definition uses
  fuel, and the pool's and the identifiers' loops are step relations.

  \<^bold>\<open>Not modelled.\<close>
  echo (routing, binding, its own middlewares) appears as the list of installed middlewares
  and routes and as the result of \<open>Bind\<close>, and the text of its errors is an argument; the HTTP
  listener and the graceful stop of its requests are an argument of \<open>server_main\<close>. The JSON text
  and timestamps of log records, bytes below JSON syntax trees (times in UTC apart), and the load
  tests and deployment files are left out. Of PostgreSQL's
  lock manager the exclusive row locks are modelled; the weaker locks of foreign key checks,
  which only delay statements, and the choice of a deadlock's victim are not.
\<close>

end
